theory Spec2Isabelle
  imports Main "HOL-Library.AList"
begin

section \<open>JavaScript values\<close>

text \<open>
  The data the engine passes around (configuration, frontmatter, template contexts) are
  JavaScript values. Numbers are modelled by the integers they hold (page numbers, indices,
  counts); an object is the list of its own enumerable properties in insertion order; a
  function is a zero-argument producer, given by the value it returns. Strings are lists of
  8-bit characters.
\<close>

datatype jsval =
    JUndef
  | JNull
  | JBool bool
  | JNum int
  | JStr string
  | JArr "jsval list"
  | JObj "(string \<times> jsval) list"
  | JFun jsval

type_synonym jsobject = "(string \<times> jsval) list"

text \<open>A thrown exception, by its message.\<close>

datatype exn = Exn string

text \<open>
  What ends a call short of a returned value: an exception propagates out of it, or the
  step depends on a part of the language runtime that the embedding does not describe
  (numeric coercion of non-numbers, object identity, inherited members).
\<close>

datatype abort = Throws exn | Unmodelled

definition TypeError :: exn where
  "TypeError = Exn ''TypeError''"

text \<open>All results in order, or the first abort.\<close>

fun collect :: "(abort + 'a) list \<Rightarrow> abort + 'a list" where
  "collect [] = Inr []"
| "collect (Inl a # rs) = Inl a"
| "collect (Inr x # rs) = (case collect rs of Inl a \<Rightarrow> Inl a | Inr xs \<Rightarrow> Inr (x # xs))"

fun truthy :: "jsval \<Rightarrow> bool" where
  "truthy JUndef = False"
| "truthy JNull = False"
| "truthy (JBool b) = b"
| "truthy (JNum n) = (n \<noteq> 0)"
| "truthy (JStr s) = (s \<noteq> [])"
| "truthy (JArr xs) = True"
| "truthy (JObj fs) = True"
| "truthy (JFun v) = True"

text \<open>\<^verbatim>\<open>a || b\<close>\<close>

definition js_or :: "jsval \<Rightarrow> jsval \<Rightarrow> jsval" where
  "js_or a b = (if truthy a then a else b)"

text \<open>Decimal digits of a natural number, and \<^verbatim>\<open>String(n)\<close> for an integer.\<close>

fun show_nat :: "nat \<Rightarrow> string" where
  "show_nat n = (if n < 10 then [''0123456789'' ! n]
                 else show_nat (n div 10) @ [''0123456789'' ! (n mod 10)])"

declare show_nat.simps [simp del]

definition show_int :: "int \<Rightarrow> string" where
  "show_int i = (if i < 0 then CHR ''-'' # show_nat (nat (- i)) else show_nat (nat i))"

text \<open>
  A canonical array index: \<^verbatim>\<open>"0"\<close>, or digits without a leading zero.
\<close>

definition index_of_key :: "string \<Rightarrow> nat option" where
  "index_of_key k =
     (if k \<noteq> [] \<and> (\<forall>c \<in> set k. c \<in> set ''0123456789'') \<and> (k = ''0'' \<or> hd k \<noteq> CHR ''0'')
      then Some (foldl (\<lambda>a c. 10 * a + ((of_char c :: nat) - 48)) 0 k) else None)"

text \<open>
  The own enumerable properties of a value, as the spread \<^verbatim>\<open>{...v}\<close> and \<^verbatim>\<open>for (k in v)\<close>
  see them: the fields of an object, the indexed elements of an array, the indexed
  characters of a string, and nothing for the other values.
\<close>

definition indexed :: "'a list \<Rightarrow> (nat \<times> 'a) list" where
  "indexed xs = zip [0..<length xs] xs"

fun own_entries :: "jsval \<Rightarrow> jsobject" where
  "own_entries (JObj fs) = fs"
| "own_entries (JArr xs) = map (\<lambda>(i, x). (show_nat i, x)) (indexed xs)"
| "own_entries (JStr s) = map (\<lambda>(i, c). (show_nat i, JStr [c])) (indexed s)"
| "own_entries v = []"

text \<open>
  Reading and writing a property of an object; \<^verbatim>\<open>{...src}\<close> laid over a target. The fields
  of an object are listed in the order in which JavaScript enumerates them: first the keys
  that are array indices (canonical numbers below \<open>2\<^sup>3\<^sup>2 - 1\<close>) in ascending order, then the
  other keys in the order of their creation. Writing an existing key keeps its place; a
  new key is an array index put in its numeric place, or another key put at the end.
\<close>

definition get_prop :: "jsobject \<Rightarrow> string \<Rightarrow> jsval" where
  "get_prop fs k = (case map_of fs k of Some v \<Rightarrow> v | None \<Rightarrow> JUndef)"

definition digits_value :: "string \<Rightarrow> int" where
  "digits_value k = foldl (\<lambda>a c. 10 * a + (of_char c - 48)) 0 k"

definition array_index :: "string \<Rightarrow> int option" where
  "array_index k =
     (if k \<noteq> [] \<and> (\<forall>c \<in> set k. c \<in> set ''0123456789'') \<and> (k = ''0'' \<or> hd k \<noteq> CHR ''0'')
         \<and> digits_value k < 4294967295
      then Some (digits_value k) else None)"

fun insert_index :: "int \<Rightarrow> string \<Rightarrow> jsval \<Rightarrow> jsobject \<Rightarrow> jsobject" where
  "insert_index i k v [] = [(k, v)]"
| "insert_index i k v ((k', v') # fs) =
     (case array_index k' of
        Some j \<Rightarrow> if j < i then (k', v') # insert_index i k v fs else (k, v) # (k', v') # fs
      | None \<Rightarrow> (k, v) # (k', v') # fs)"

definition set_prop :: "string \<Rightarrow> jsval \<Rightarrow> jsobject \<Rightarrow> jsobject" where
  "set_prop k v fs =
     (case array_index k of
        Some i \<Rightarrow> if map_of fs k = None then insert_index i k v fs else AList.update k v fs
      | None \<Rightarrow> AList.update k v fs)"

definition spread_over :: "jsobject \<Rightarrow> jsobject \<Rightarrow> jsobject" where
  "spread_over target src = foldl (\<lambda>acc (k, v). set_prop k v acc) target src"

text \<open>
  \<^verbatim>\<open>v[k]\<close> for own data properties: a field of an object, an element or the length of
  an array, a character or the length of a string. Members inherited from a prototype are
  not part of this function; it is used where the key is a fixed name of the engine's data
  (\<^verbatim>\<open>content\<close>, \<^verbatim>\<open>paths\<close>, \<^verbatim>\<open>title\<close>, ...) or after the inherited names are excluded.
\<close>

fun own_prop :: "jsval \<Rightarrow> string \<Rightarrow> jsval" where
  "own_prop (JObj fs) k = get_prop fs k"
| "own_prop (JArr xs) k =
     (if k = ''length'' then JNum (int (length xs))
      else (case index_of_key k of
              Some i \<Rightarrow> (if i < length xs then xs ! i else JUndef)
            | None \<Rightarrow> JUndef))"
| "own_prop (JStr s) k =
     (if k = ''length'' then JNum (int (length s))
      else (case index_of_key k of
              Some i \<Rightarrow> (if i < length s then JStr [s ! i] else JUndef)
            | None \<Rightarrow> JUndef))"
| "own_prop v k = JUndef"

section \<open>Strings\<close>

fun strip_prefix :: "string \<Rightarrow> string \<Rightarrow> string option" where
  "strip_prefix [] s = Some s"
| "strip_prefix (p # ps) [] = None"
| "strip_prefix (p # ps) (c # cs) = (if p = c then strip_prefix ps cs else None)"

text \<open>\<^verbatim>\<open>s.replace(needle, '')\<close> with a string pattern: the first occurrence is removed.\<close>

fun remove_first :: "string \<Rightarrow> string \<Rightarrow> string" where
  "remove_first needle [] = []"
| "remove_first needle (c # cs) =
     (case strip_prefix needle (c # cs) of
        Some rest \<Rightarrow> rest
      | None \<Rightarrow> c # remove_first needle cs)"

text \<open>\<^verbatim>\<open>s.replace(/a/g, 'b')\<close> for single characters.\<close>

definition replace_char :: "char \<Rightarrow> char \<Rightarrow> string \<Rightarrow> string" where
  "replace_char a b s = map (\<lambda>c. if c = a then b else c) s"

text \<open>
  White space as \<^verbatim>\<open>\s\<close> and \<^verbatim>\<open>trim()\<close> see it, within 8-bit characters: tab, line feed,
  vertical tab, form feed, carriage return, space and no-break space.
\<close>

definition is_space :: "char \<Rightarrow> bool" where
  "is_space c = ((of_char c :: nat) \<in> {9, 10, 11, 12, 13, 32, 160})"

definition trim :: "string \<Rightarrow> string" where
  "trim s = rev (dropWhile is_space (rev (dropWhile is_space s)))"

text \<open>
  \<^verbatim>\<open>s.split(/\s+/)\<close> on a trimmed string: the maximal runs of non-space characters. On the
  empty string JavaScript returns \<^verbatim>\<open>['']\<close>.
\<close>

fun split_spaces :: "string \<Rightarrow> string list" where
  "split_spaces [] = [[]]"
| "split_spaces (c # cs) =
     (if is_space c then
        (if cs \<noteq> [] \<and> is_space (hd cs) then split_spaces cs else [] # split_spaces cs)
      else (case split_spaces cs of
              w # ws \<Rightarrow> (c # w) # ws
            | [] \<Rightarrow> [[c]]))"

section \<open>Paginator: the visible page-number window (templateEngine, calculatePagination)\<close>

text \<open>
  \<^verbatim>\<open>calculatePagination({ currentPage, totalPages, range = 2 })\<close> returns the object
  \<^verbatim>\<open>{ startPage, endPage, showFirst, showFirstEllipsis, showLast, showLastEllipsis }\<close>.
  Page numbers are JavaScript numbers holding integers; they are modelled as \<open>int\<close>.
\<close>

record pagination =
  startPage :: int
  endPage :: int
  showFirst :: bool
  showFirstEllipsis :: bool
  showLast :: bool
  showLastEllipsis :: bool

definition calculatePagination :: "int \<Rightarrow> int \<Rightarrow> int \<Rightarrow> pagination" where
  "calculatePagination currentPage totalPages rng =
     (let startPage0 = max 1 (currentPage - rng);
          endPage0 = min totalPages (currentPage + rng);
          widen = (endPage0 - startPage0 < 4 \<and> totalPages > 4);
          endPage1 = (if widen \<and> startPage0 = 1 then min (startPage0 + 4) totalPages else endPage0);
          startPage1 = (if widen \<and> startPage0 \<noteq> 1 \<and> endPage0 = totalPages
                        then max (endPage0 - 4) 1 else startPage0)
      in \<lparr> startPage = startPage1,
           endPage = endPage1,
           showFirst = (startPage1 > 1),
           showFirstEllipsis = (startPage1 > 2),
           showLast = (endPage1 < totalPages),
           showLastEllipsis = (endPage1 < totalPages - 1) \<rparr>)"

text \<open>
  \<^verbatim>\<open>generatePagination\<close> calls \<^verbatim>\<open>calculatePagination({ currentPage, totalPages })\<close>, so
  \<open>range\<close> takes its default 2, and links the pages
  \<^verbatim>\<open>for (let i = startPage; i <= endPage; i++)\<close>.
\<close>

definition defaultRange :: int where
  "defaultRange = 2"

definition visiblePages :: "pagination \<Rightarrow> int list" where
  "visiblePages p = [startPage p..endPage p]"


section \<open>Content pipeline (markdownProcessor, siteBuilder)\<close>

subsection \<open>The collaborators\<close>

text \<open>
  The file system, the frontmatter parser (gray-matter), the markdown renderer (marked),
  the date library and \<^verbatim>\<open>path.join\<close> are outside the repository. A call of one of them is
  a field of the environment: \<open>Inl\<close> is the exception it throws.
  \<^item> \<open>env_readFile p\<close>: \<^verbatim>\<open>readFile(p)\<close>;
  \<^item> \<open>env_mtime_iso p\<close>: \<^verbatim>\<open>fs.statSync(p).mtime.toISOString()\<close>;
  \<^item> \<open>env_readdir d\<close>: the names of the regular files of directory \<open>d\<close>
    (\<^verbatim>\<open>stat\<close>, \<^verbatim>\<open>readdir\<close>, \<^verbatim>\<open>isFile\<close>);
  \<^item> \<open>env_frontmatter s\<close>: \<^verbatim>\<open>frontmatter(s)\<close>, the pair of \<^verbatim>\<open>content\<close> and \<^verbatim>\<open>data\<close>;
  \<^item> \<open>env_marked s\<close>: \<^verbatim>\<open>marked.parse(s)\<close>;
  \<^item> \<open>env_toLocaleDateString d\<close>: \<^verbatim>\<open>new Date(d).toLocaleDateString(locale, options)\<close>;
  \<^item> \<open>env_getTime d\<close>: \<^verbatim>\<open>new Date(d).getTime()\<close>, \<open>None\<close> for \<^verbatim>\<open>NaN\<close> (an invalid date);
  \<^item> \<open>env_join a b\<close>: \<^verbatim>\<open>path.join(a, b)\<close> on strings.
\<close>

record post_env =
  env_readFile :: "string \<Rightarrow> exn + string"
  env_mtime_iso :: "string \<Rightarrow> exn + string"
  env_readdir :: "string \<Rightarrow> exn + string list"
  env_frontmatter :: "string \<Rightarrow> exn + (string \<times> jsval)"
  env_marked :: "string \<Rightarrow> exn + string"
  env_toLocaleDateString :: "jsval \<Rightarrow> string"
  env_getTime :: "jsval \<Rightarrow> int option"
  env_join :: "string \<Rightarrow> string \<Rightarrow> string"

text \<open>The module configuration of markdownProcessor (\<^verbatim>\<open>config.readingTime\<close>).\<close>

record md_config =
  wordsPerMinute :: int
  minMinutes :: int

definition DEFAULT_MD_CONFIG :: md_config where
  "DEFAULT_MD_CONFIG = \<lparr> wordsPerMinute = 200, minMinutes = 1 \<rparr>"

text \<open>
  The log holds the lines written with \<^verbatim>\<open>console.warn\<close> and \<^verbatim>\<open>console.error\<close>, without
  the exception objects printed after them. Lines of \<^verbatim>\<open>console.log\<close> (progress, verbose
  and debug output) are not recorded.
\<close>

type_synonym log = "string list"

subsection \<open>markdownProcessor\<close>

text \<open>
  \<^verbatim>\<open>renderMarkdown\<close>. Its render cache stores what \<^verbatim>\<open>marked.parse\<close> returned for the same
  text; with \<open>env_marked\<close> a function of the text, a cached answer is the computed one, so
  the cache is not part of the model.
\<close>

definition renderMarkdown :: "post_env \<Rightarrow> string \<Rightarrow> log \<times> string" where
  "renderMarkdown env markdown =
     (if markdown = [] then ([], [])
      else (case env_marked env markdown of
              Inr html \<Rightarrow> ([], html)
            | Inl e \<Rightarrow> ([''Error rendering markdown:''], ''<p>Error rendering content.</p>'')))"

definition extractFrontmatter :: "post_env \<Rightarrow> string \<Rightarrow> log \<times> string \<times> jsval" where
  "extractFrontmatter env content =
     (case env_frontmatter env content of
        Inr (markdownContent, data) \<Rightarrow> ([], markdownContent, data)
      | Inl e \<Rightarrow> ([''Error extracting frontmatter:''], content, JObj []))"

text \<open>
  \<^verbatim>\<open>calculateReadingTime\<close>: \<^verbatim>\<open>Math.max(minMinutes, Math.ceil(words / wordsPerMinute))\<close>.
  On integers \<^verbatim>\<open>Math.ceil(a / b)\<close> is \<open>- ((- a) div b)\<close>. A words-per-minute setting that
  is not a number, or a division by zero, is left to the runtime.
\<close>

definition calculateReadingTime :: "md_config \<Rightarrow> jsval \<Rightarrow> string \<Rightarrow> abort + int" where
  "calculateReadingTime md globalConfig text =
     (if text = [] then Inr (minMinutes md)
      else
        (let content = own_prop globalConfig ''content'';
             configured = (if truthy content then own_prop content ''wordsPerMinute'' else content);
             wpm = (if truthy configured then configured else JNum (wordsPerMinute md));
             words = int (length (split_spaces (trim text)))
         in (case wpm of
               JNum w \<Rightarrow>
                 (if w = 0 then Inl Unmodelled
                  else Inr (max (minMinutes md) (- ((- words) div w))))
             | _ \<Rightarrow> Inl Unmodelled)))"

definition formatDate :: "post_env \<Rightarrow> jsval \<Rightarrow> string" where
  "formatDate env dateString = env_toLocaleDateString env dateString"


subsection \<open>siteBuilder: one source file\<close>

definition nullish :: "jsval \<Rightarrow> bool" where
  "nullish v = (v = JUndef \<or> v = JNull)"

text \<open>
  The steps of \<^verbatim>\<open>processPostFile(filePath, filename)\<close> on \<^verbatim>\<open>postData = { ...data }\<close>.
  First \<^verbatim>\<open>if (!postData.date)\<close>: the date part of the modification time, with a warning;
  \<^verbatim>\<open>statSync\<close> and \<^verbatim>\<open>toISOString\<close> can throw.
\<close>

definition default_date ::
  "post_env \<Rightarrow> string \<Rightarrow> string \<Rightarrow> jsobject \<Rightarrow> exn + (log \<times> jsobject)" where
  "default_date env filePath filename postData =
     (if \<not> truthy (get_prop postData ''date'') then
        (case env_mtime_iso env filePath of
           Inl e \<Rightarrow> Inl e
         | Inr isoString \<Rightarrow>
             Inr ([''Warning: Missing date in '' @ filename @ '', using file modification date''],
                  set_prop ''date'' (JStr (takeWhile (\<lambda>c. c \<noteq> CHR ''T'') isoString)) postData))
      else Inr ([], postData))"

text \<open>\<^verbatim>\<open>if (!postData.title) postData.title = filename.replace('.md', '').replace(/-/g, ' ')\<close>\<close>

definition default_title :: "string \<Rightarrow> jsobject \<Rightarrow> log \<times> jsobject" where
  "default_title filename postData =
     (if \<not> truthy (get_prop postData ''title'') then
        ([''Warning: Missing title in '' @ filename @ '', using normalized filename''],
         set_prop ''title''
           (JStr (replace_char (CHR ''-'') (CHR '' '') (remove_first ''.md'' filename))) postData)
      else ([], postData))"

text \<open>
  \<^verbatim>\<open>if (!postData.author && config.content && config.content.defaultAuthor)\<close>
\<close>

definition default_author :: "jsval \<Rightarrow> jsobject \<Rightarrow> jsobject" where
  "default_author config postData =
     (let content = own_prop config ''content'' in
      if \<not> truthy (get_prop postData ''author'') \<and> truthy content
         \<and> truthy (own_prop content ''defaultAuthor'')
      then set_prop ''author'' (own_prop content ''defaultAuthor'') postData
      else postData)"

text \<open>
  \<^verbatim>\<open>config.content && config.content.showReadingTime !== undefined
     ? config.content.showReadingTime : true\<close>
\<close>

definition show_reading_time :: "jsval \<Rightarrow> jsval" where
  "show_reading_time config =
     (let content = own_prop config ''content'' in
      if truthy content \<and> own_prop content ''showReadingTime'' \<noteq> JUndef
      then own_prop content ''showReadingTime'' else JBool True)"

text \<open>The returned object literal: twelve computed fields, then \<^verbatim>\<open>...postData\<close>.\<close>

definition post_object ::
  "string \<Rightarrow> string \<Rightarrow> string \<Rightarrow> jsval \<Rightarrow> jsval \<Rightarrow> string \<Rightarrow> jsobject \<Rightarrow> jsobject" where
  "post_object fileName markdownContent html readingTime showReadingTime formattedDate postData =
     spread_over
       [(''file'', JStr fileName),
        (''title'', get_prop postData ''title''),
        (''date'', get_prop postData ''date''),
        (''author'', js_or (get_prop postData ''author'') (JStr [])),
        (''tags'', js_or (get_prop postData ''tags'') (JArr [])),
        (''summary'', js_or (get_prop postData ''summary'') (JStr [])),
        (''content'', JStr markdownContent),
        (''html'', JStr html),
        (''readingTime'', readingTime),
        (''showReadingTime'', showReadingTime),
        (''formattedDate'', JStr formattedDate),
        (''url'', JStr (''/posts/'' @ fileName @ ''/''))]
       postData"

text \<open>
  \<^verbatim>\<open>processPostFile\<close> returns the post object, or \<^verbatim>\<open>null\<close> (here \<open>None\<close>) when an
  exception was caught; the catch logs \<^verbatim>\<open>Error processing file\<close>. \<^verbatim>\<open>readFile\<close> logs its
  own failure before rethrowing it.
\<close>

definition processPostFile ::
  "post_env \<Rightarrow> md_config \<Rightarrow> jsval \<Rightarrow> string \<Rightarrow> string \<Rightarrow> abort + (log \<times> jsobject option)" where
  "processPostFile env md config filePath filename =
     (case env_readFile env filePath of
        Inl e \<Rightarrow>
          Inr ([''Error reading file '' @ filePath @ '':'',
                ''Error processing file '' @ filename @ '':''], None)
      | Inr content \<Rightarrow>
          (case extractFrontmatter env content of
             (log0, markdownContent, data) \<Rightarrow>
               (case default_date env filePath filename (own_entries data) of
                  Inl e \<Rightarrow> Inr (log0 @ [''Error processing file '' @ filename @ '':''], None)
                | Inr (log1, postData1) \<Rightarrow>
                    (case default_title filename postData1 of
                       (log2, postData2) \<Rightarrow>
                         (let postData = default_author config postData2 in
                          case renderMarkdown env markdownContent of
                            (log3, html) \<Rightarrow>
                              (case calculateReadingTime md config markdownContent of
                                 Inl a \<Rightarrow> Inl a
                               | Inr readingTime \<Rightarrow>
                                   Inr (log0 @ log1 @ log2 @ log3,
                                        Some (post_object
                                          (replace_char (CHR '' '') (CHR ''_'')
                                             (remove_first ''.md'' filename))
                                          markdownContent html (JNum readingTime)
                                          (show_reading_time config)
                                          (formatDate env (get_prop postData ''date''))
                                          postData))))))))"

subsection \<open>siteBuilder: the batch\<close>

definition ends_with :: "string \<Rightarrow> string \<Rightarrow> bool" where
  "ends_with ext f = (length ext \<le> length f \<and> drop (length f - length ext) f = ext)"

text \<open>
  \<^verbatim>\<open>listFiles(dirPath, '.md')\<close> never throws: a failure of \<^verbatim>\<open>stat\<close> or \<^verbatim>\<open>readdir\<close> (also on
  a path that is not a string) is logged and gives the empty list.
\<close>

definition listFiles :: "post_env \<Rightarrow> jsval \<Rightarrow> string \<Rightarrow> log \<times> string list" where
  "listFiles env dirPath ext =
     (case dirPath of
        JStr d \<Rightarrow>
          (case env_readdir env d of
             Inr names \<Rightarrow> ([], filter (ends_with ext) names)
           | Inl e \<Rightarrow> ([''Error listing files in '' @ d @ '':''], []))
      | _ \<Rightarrow> ([''Error listing files in''], []))"

text \<open>
  \<^verbatim>\<open>config.paths.postsDir || path.join(config.paths.contentDir, 'posts')\<close>, evaluated before
  the \<^verbatim>\<open>try\<close>: reading a member of \<^verbatim>\<open>undefined\<close> and joining a non-string throw.
\<close>

definition posts_dir :: "post_env \<Rightarrow> jsval \<Rightarrow> abort + jsval" where
  "posts_dir env config =
     (let paths = own_prop config ''paths'' in
      if nullish paths then Inl (Throws TypeError)
      else if truthy (own_prop paths ''postsDir'') then Inr (own_prop paths ''postsDir'')
      else (case own_prop paths ''contentDir'' of
              JStr c \<Rightarrow> Inr (JStr (env_join env c ''posts''))
            | _ \<Rightarrow> Inl (Throws TypeError)))"

text \<open>
  \<^verbatim>\<open>validPosts.sort((a, b) => new Date(b.date) - new Date(a.date))\<close>. A comparator result
  \<^verbatim>\<open>NaN\<close> counts as 0. \<^verbatim>\<open>Array.prototype.sort\<close> is stable, so for a consistent comparator
  its result is the one stable ordering, which insertion from the right computes. When
  some dates are invalid and others are not the comparator is inconsistent and the order is
  implementation-defined.
\<close>

fun insert_sorted :: "('a \<Rightarrow> 'a \<Rightarrow> int) \<Rightarrow> 'a \<Rightarrow> 'a list \<Rightarrow> 'a list" where
  "insert_sorted cmp x [] = [x]"
| "insert_sorted cmp x (y # ys) =
     (if cmp x y \<le> 0 then x # y # ys else y # insert_sorted cmp x ys)"

definition js_sort :: "('a \<Rightarrow> 'a \<Rightarrow> int) \<Rightarrow> 'a list \<Rightarrow> 'a list" where
  "js_sort cmp xs = foldr (insert_sorted cmp) xs []"

definition post_time :: "post_env \<Rightarrow> jsobject \<Rightarrow> int option" where
  "post_time env post = env_getTime env (get_prop post ''date'')"

definition newest_first :: "post_env \<Rightarrow> jsobject \<Rightarrow> jsobject \<Rightarrow> int" where
  "newest_first env a b =
     (case (post_time env b, post_time env a) of
        (Some tb, Some ta) \<Rightarrow> tb - ta
      | _ \<Rightarrow> 0)"

definition sort_posts :: "post_env \<Rightarrow> jsobject list \<Rightarrow> abort + jsobject list" where
  "sort_posts env posts =
     (let times = map (post_time env) posts in
      if None \<in> set times \<and> \<not> set times \<subseteq> {None} then Inl Unmodelled
      else Inr (js_sort (newest_first env) posts))"

text \<open>
  \<^verbatim>\<open>loadAllPosts\<close>. The files are processed by \<^verbatim>\<open>Promise.all\<close> over \<^verbatim>\<open>files.map\<close>, which
  keeps the results in the order of \<^verbatim>\<open>files\<close>; the log lines of different files are
  recorded file by file.
\<close>

definition loadAllPosts ::
  "post_env \<Rightarrow> md_config \<Rightarrow> jsval \<Rightarrow> abort + (log \<times> jsobject list)" where
  "loadAllPosts env md config =
     (case posts_dir env config of
        Inl a \<Rightarrow> Inl a
      | Inr postsDir \<Rightarrow>
          (case listFiles env postsDir ''.md'' of
             (log0, files) \<Rightarrow>
               (if files = [] then
                  Inr (log0 @ [''No markdown files found in posts directory''], [])
                else
                  (case postsDir of
                     JStr d \<Rightarrow>
                       (case collect (map (\<lambda>filename.
                                processPostFile env md config (env_join env d filename) filename)
                              files) of
                          Inl a \<Rightarrow> Inl a
                        | Inr posts \<Rightarrow>
                            (case sort_posts env (List.map_filter snd posts) of
                               Inl a \<Rightarrow> Inl a
                             | Inr validPosts \<Rightarrow>
                                 Inr (log0 @ concat (map fst posts), validPosts)))
                   | _ \<Rightarrow> Inr (log0 @ [''Error loading posts:''], [])))))"

subsection \<open>Notions used to state the properties\<close>







subsection \<open>Sample environments\<close>

text \<open>
  An environment given by tables: file texts by path, the directory listing, the
  frontmatter parser's result by file text, the renderer's HTML by markdown text (it throws
  on a text without an entry), and time values by date string.
\<close>

definition sample_env ::
  "(string \<times> string) list \<Rightarrow> string list \<Rightarrow> (string \<times> string \<times> jsval) list
     \<Rightarrow> (string \<times> string) list \<Rightarrow> (string \<times> int) list \<Rightarrow> post_env" where
  "sample_env texts names frontmatters htmls clock =
     \<lparr> env_readFile = (\<lambda>p. case map_of texts p of Some c \<Rightarrow> Inr c | None \<Rightarrow> Inl (Exn ''ENOENT'')),
       env_mtime_iso = (\<lambda>p. Inr ''2024-05-06T07:08:09.000Z''),
       env_readdir = (\<lambda>d. Inr names),
       env_frontmatter =
         (\<lambda>s. case map_of frontmatters s of Some r \<Rightarrow> Inr r | None \<Rightarrow> Inl (Exn ''YAMLException'')),
       env_marked = (\<lambda>s. case map_of htmls s of Some h \<Rightarrow> Inr h | None \<Rightarrow> Inl (Exn ''marked'')),
       env_toLocaleDateString = (\<lambda>d. case d of JStr s \<Rightarrow> s | _ \<Rightarrow> ''Invalid Date''),
       env_getTime = (\<lambda>d. case d of JStr s \<Rightarrow> map_of clock s | _ \<Rightarrow> None),
       env_join = (\<lambda>a b. a @ ''/'' @ b) \<rparr>"

definition sample_config :: jsval where
  "sample_config = JObj [(''content'', JObj [(''postsPerPage'', JNum 10)]),
                         (''paths'', JObj [(''contentDir'', JStr ''content'')])]"

definition three_posts :: post_env where
  "three_posts = sample_env
     [(''content/posts/a.md'', ''text a''), (''content/posts/b.md'', ''text b''),
      (''content/posts/c.md'', ''text c'')]
     [''a.md'', ''b.md'', ''notes.txt'', ''c.md'']
     [(''text a'', ''A'', JObj [(''title'', JStr ''One''), (''date'', JStr ''2024-01-01'')]),
      (''text b'', ''B'', JObj [(''title'', JStr ''Two''), (''date'', JStr ''2024-02-01'')]),
      (''text c'', ''C'', JObj [(''title'', JStr ''Three''), (''date'', JStr ''2024-01-01'')])]
     [(''A'', ''<p>A</p>''), (''C'', ''<p>C</p>'')]
     [(''2024-01-01'', 1704067200000), (''2024-02-01'', 1706745600000)]"

definition dotfile_post :: post_env where
  "dotfile_post = sample_env
     [(''content/posts/.md'', ''text'')]
     [''.md'']
     [(''text'', ''Body'', JObj [(''date'', JStr ''2024-01-01'')])]
     [(''Body'', ''<p>Body</p>'')]
     [(''2024-01-01'', 1704067200000)]"

definition content_key_post :: post_env where
  "content_key_post = sample_env
     [(''content/posts/a.md'', ''text'')]
     [''a.md'']
     [(''text'', ''Body'',
       JObj [(''title'', JStr ''T''), (''date'', JStr ''2024-01-01''),
             (''content'', JStr ''from frontmatter''), (''tags'', JNull), (''url'', JStr ''/x/'')])]
     [(''Body'', ''<p>Body</p>'')]
     [(''2024-01-01'', 1704067200000)]"

section \<open>Configuration manager (configManager)\<close>

subsection \<open>The constants of the module\<close>

definition CONFIG_VERSION :: string where
  "CONFIG_VERSION = ''1.0.0''"

definition leaf_schema :: "string \<Rightarrow> jsval" where
  "leaf_schema ty = JObj [(''type'', JStr ty), (''required'', JBool True)]"

definition CONFIG_SCHEMA :: jsval where
  "CONFIG_SCHEMA = JObj
     [(''_version'', leaf_schema ''string''),
      (''site'', JObj [(''title'', leaf_schema ''string''),
                        (''description'', leaf_schema ''string''),
                        (''language'', leaf_schema ''string'')]),
      (''content'', JObj [(''postsPerPage'',
                            JObj [(''type'', JStr ''number''), (''required'', JBool True),
                                  (''min'', JNum 1)])]),
      (''paths'', JObj [(''contentDir'', leaf_schema ''string''),
                         (''templatesDir'', leaf_schema ''string''),
                         (''outputDir'', leaf_schema ''string''),
                         (''cssDir'', leaf_schema ''string'')])]"

definition DEFAULT_CONFIG :: jsval where
  "DEFAULT_CONFIG = JObj
     [(''_version'', JStr CONFIG_VERSION),
      (''site'', JObj [(''title'', JStr ''Markdown Blog''),
                        (''description'', JStr ''A static blog built with markdown-blog-engine''),
                        (''language'', JStr ''en'')]),
      (''content'', JObj [(''postsPerPage'', JNum 10)]),
      (''paths'', JObj [(''contentDir'', JStr ''./blog/content''),
                         (''templatesDir'', JStr ''./blog/templates''),
                         (''outputDir'', JStr ''./dist''),
                         (''cssDir'', JStr ''./blog/css'')])]"

subsection \<open>The collaborators and the module state\<close>

text \<open>
  \<open>ce_readFile\<close> is fileHandler's \<^verbatim>\<open>readFile\<close>, \<open>ce_parse\<close> is \<^verbatim>\<open>JSON.parse\<close>, the others are
  \<^verbatim>\<open>process.cwd()\<close> and the functions of \<^verbatim>\<open>path\<close> on strings.
\<close>

record config_env =
  ce_readFile :: "string \<Rightarrow> exn + string"
  ce_parse :: "string \<Rightarrow> exn + jsval"
  ce_cwd :: string
  ce_isAbsolute :: "string \<Rightarrow> bool"
  ce_resolve :: "string \<Rightarrow> string \<Rightarrow> string"
  ce_dirname :: "string \<Rightarrow> string"
  ce_basename :: "string \<Rightarrow> string"
  ce_join :: "string \<Rightarrow> string \<Rightarrow> string"

text \<open>
  The module state: \<^verbatim>\<open>configCache\<close>, and \<^verbatim>\<open>DEFAULT_CONFIG\<close> as it currently is. The copy
  \<^verbatim>\<open>{ ...DEFAULT_CONFIG }\<close> is shallow, so a section that the user configuration does not
  replace is the default's own object, and \<^verbatim>\<open>resolvePaths\<close> and the output-directory
  override write into \<^verbatim>\<open>DEFAULT_CONFIG.paths\<close> itself.
\<close>

record config_state =
  configCache :: "jsval option"
  default_config :: jsval

definition initial_config_state :: config_state where
  "initial_config_state = \<lparr> configCache = None, default_config = DEFAULT_CONFIG \<rparr>"

text \<open>\<^verbatim>\<open>getConfig()\<close>, as every other module calls it (\<^verbatim>\<open>useCache = true\<close>).\<close>

definition getConfig :: "config_state \<Rightarrow> jsval" where
  "getConfig st = (case configCache st of Some c \<Rightarrow> c | None \<Rightarrow> default_config st)"

subsection \<open>Values as the module inspects them\<close>

text \<open>\<^verbatim>\<open>Array.isArray(v) ? 'array' : typeof v\<close>\<close>

fun actual_type :: "jsval \<Rightarrow> string" where
  "actual_type JUndef = ''undefined''"
| "actual_type JNull = ''object''"
| "actual_type (JBool b) = ''boolean''"
| "actual_type (JNum n) = ''number''"
| "actual_type (JStr s) = ''string''"
| "actual_type (JArr xs) = ''array''"
| "actual_type (JObj fs) = ''object''"
| "actual_type (JFun v) = ''function''"

text \<open>\<^verbatim>\<open>typeof v === 'object' && v !== null && !Array.isArray(v)\<close>\<close>

fun is_plain_object :: "jsval \<Rightarrow> bool" where
  "is_plain_object (JObj fs) = True"
| "is_plain_object v = False"

text \<open>\<^verbatim>\<open>typeof v === 'object'\<close>\<close>

fun typeof_object :: "jsval \<Rightarrow> bool" where
  "typeof_object JNull = True"
| "typeof_object (JArr xs) = True"
| "typeof_object (JObj fs) = True"
| "typeof_object v = False"

text \<open>
  \<^verbatim>\<open>o[k] = v\<close> outside strict mode: stored on an object, ignored on a primitive. A named
  property stored on an array has no place in the model; it only arises for a section that
  \<^verbatim>\<open>validateConfig\<close> rejects.
\<close>

fun assign :: "jsval \<Rightarrow> string \<Rightarrow> jsval \<Rightarrow> jsval" where
  "assign (JObj fs) k v = JObj (set_prop k v fs)"
| "assign other k v = other"

text \<open>
  \<^verbatim>\<open>a < b\<close> as \<^verbatim>\<open>validateValue\<close> uses it: on numbers; \<^verbatim>\<open>undefined < n\<close> is false; other
  operands are coerced by the runtime.
\<close>

fun js_less :: "jsval \<Rightarrow> jsval \<Rightarrow> abort + bool" where
  "js_less (JNum a) (JNum b) = Inr (a < b)"
| "js_less JUndef (JNum b) = Inr False"
| "js_less (JNum a) JUndef = Inr False"
| "js_less a b = Inl Unmodelled"

subsection \<open>deepMerge\<close>

lemma own_entries_size:
  "(k, v) \<in> set (own_entries s) \<Longrightarrow> typeof_object v \<Longrightarrow> size v < size s"
proof (cases s)
  case (JObj fs)
  assume "(k, v) \<in> set (own_entries s)"
  with JObj have "(k, v) \<in> set fs" by simp
  then have "size v \<le> size_list (size_prod (\<lambda>x. 0) size) fs"
    by (induction fs) auto
  with JObj show ?thesis by simp
next
  case (JArr xs)
  assume "(k, v) \<in> set (own_entries s)"
  with JArr have "v \<in> set xs"
    by (auto simp: indexed_def dest: set_zip_rightD)
  then have "size v \<le> size_list size xs"
    by (induction xs) auto
  with JArr show ?thesis by simp
qed (auto simp: indexed_def)

lemma plain_typeof: "is_plain_object v \<Longrightarrow> typeof_object v"
  by (cases v) simp_all

text \<open>
  \<^verbatim>\<open>source.hasOwnProperty\<close>: the own property of that name when the source has one,
  otherwise the function inherited from \<^verbatim>\<open>Object.prototype\<close> (\<open>None\<close>), which answers
  \<^verbatim>\<open>true\<close> for every key that \<^verbatim>\<open>for (const key in source)\<close> enumerates.
\<close>

definition own_hasOwnProperty :: "jsval \<Rightarrow> jsval option" where
  "own_hasOwnProperty source =
     (case source of JObj fs \<Rightarrow> map_of fs ''hasOwnProperty'' | _ \<Rightarrow> None)"

text \<open>
  \<^verbatim>\<open>deepMerge(target, source)\<close>, returning the fields of the merged object. A source that
  owns a property \<^verbatim>\<open>hasOwnProperty\<close> is asked through it: a value that is not a function
  makes the call \<^verbatim>\<open>source.hasOwnProperty(key)\<close> throw a \<^verbatim>\<open>TypeError\<close> at the first key, and
  a function decides for every key by what it returns. The members that \<^verbatim>\<open>target[key]\<close>
  inherits are functions, for which the test
  \<^verbatim>\<open>target[key] && typeof target[key] === 'object'\<close> fails as it does for an absent key;
  the exception is the key \<^verbatim>\<open>__proto__\<close>, which is left to the runtime.
\<close>

function deepMerge :: "jsval \<Rightarrow> jsval \<Rightarrow> abort + jsobject" where
  "deepMerge target source =
     (case own_hasOwnProperty source of
        Some (JFun answer) \<Rightarrow>
          (if truthy answer then
             foldl (\<lambda>acc (key, v).
                      case acc of
                        Inl a \<Rightarrow> Inl a
                      | Inr output \<Rightarrow>
                          if key = ''__proto__'' then Inl Unmodelled
                          else if is_plain_object v then
                            (if truthy (own_prop target key) \<and> typeof_object (own_prop target key) then
                               (case deepMerge (own_prop target key) v of
                                  Inl a \<Rightarrow> Inl a
                                | Inr merged \<Rightarrow> Inr (set_prop key (JObj merged) output))
                             else Inr (set_prop key (JObj (own_entries v)) output))
                          else Inr (set_prop key v output))
                   (Inr (own_entries target)) (own_entries source)
           else Inr (own_entries target))
      | Some other \<Rightarrow> Inl (Throws TypeError)
      | None \<Rightarrow>
          foldl (\<lambda>acc (key, v).
                   case acc of
                     Inl a \<Rightarrow> Inl a
                   | Inr output \<Rightarrow>
                       if key = ''__proto__'' then Inl Unmodelled
                       else if is_plain_object v then
                         (if truthy (own_prop target key) \<and> typeof_object (own_prop target key) then
                            (case deepMerge (own_prop target key) v of
                               Inl a \<Rightarrow> Inl a
                             | Inr merged \<Rightarrow> Inr (set_prop key (JObj merged) output))
                          else Inr (set_prop key (JObj (own_entries v)) output))
                       else Inr (set_prop key v output))
                (Inr (own_entries target)) (own_entries source))"
  by pat_completeness auto
termination
  by (relation "measure (\<lambda>(target, source). size source)")
     (auto simp: own_entries_size plain_typeof)

declare deepMerge.simps [simp del]

subsection \<open>Validation\<close>

definition show_type :: "jsval \<Rightarrow> string" where
  "show_type ty = (case ty of JStr t \<Rightarrow> t | _ \<Rightarrow> ''?'')"

definition show_number :: "jsval \<Rightarrow> string" where
  "show_number n = (case n of JNum i \<Rightarrow> show_int i | _ \<Rightarrow> ''?'')"

text \<open>\<^verbatim>\<open>validateValue(value, schema, path)\<close>: the list of validation errors.\<close>

definition validateValue :: "jsval \<Rightarrow> jsval \<Rightarrow> string \<Rightarrow> abort + string list" where
  "validateValue v schema path =
     (if nullish schema then Inl (Throws TypeError)
      else if truthy (own_prop schema ''required'') \<and> nullish v then Inr [path @ '' is required'']
      else if nullish v then Inr []
      else
        (let ty = own_prop schema ''type'';
             wrong_type =
               (if truthy ty \<and> JStr (actual_type v) \<noteq> ty
                then [path @ '' should be of type '' @ show_type ty @ '', got '' @ actual_type v]
                else [])
         in case (if ty = JStr ''number'' \<and> own_prop schema ''min'' \<noteq> JUndef
                  then js_less v (own_prop schema ''min'') else Inr False) of
              Inl a \<Rightarrow> Inl a
            | Inr below \<Rightarrow>
                (case (if (ty = JStr ''string'' \<or> ty = JStr ''array'')
                          \<and> own_prop schema ''minLength'' \<noteq> JUndef
                       then js_less (own_prop v ''length'') (own_prop schema ''minLength'')
                       else Inr False) of
                   Inl a \<Rightarrow> Inl a
                 | Inr short \<Rightarrow>
                     Inr (wrong_type
                          @ (if below
                             then [path @ '' should be at least '' @ show_number (own_prop schema ''min'')]
                             else [])
                          @ (if short
                             then [path @ '' should have length of at least ''
                                   @ show_number (own_prop schema ''minLength'')]
                             else [])))))"

text \<open>
  The default that \<^verbatim>\<open>validateSection\<close> stores for a missing required property:
  \<^verbatim>\<open>DEFAULT_CONFIG[path][key]\<close>, when it is defined.
\<close>

definition fill_default :: "jsval \<Rightarrow> jsval \<Rightarrow> string \<Rightarrow> jsval \<Rightarrow> string \<Rightarrow> jsval" where
  "fill_default defaults sectionConfig key schema path =
     (if truthy (own_prop schema ''required'') \<and> nullish (own_prop sectionConfig key)
         \<and> truthy (own_prop defaults path)
         \<and> own_prop (own_prop defaults path) key \<noteq> JUndef
      then assign sectionConfig key (own_prop (own_prop defaults path) key)
      else sectionConfig)"

text \<open>
  \<^verbatim>\<open>validateSection(sectionConfig, sectionSchema, path)\<close>, the helper inside
  \<^verbatim>\<open>validateConfig\<close>. It writes into \<^verbatim>\<open>sectionConfig\<close> and pushes onto \<^verbatim>\<open>errors\<close>; the model
  returns the section as written and the errors pushed.
\<close>

function validateSection ::
  "jsval \<Rightarrow> jsval \<Rightarrow> jsval \<Rightarrow> string \<Rightarrow> abort + (jsval \<times> string list)" where
  "validateSection defaults sectionConfig sectionSchema path =
     foldl (\<lambda>acc (key, schema).
              case acc of
                Inl a \<Rightarrow> Inl a
              | Inr (cfg, errors) \<Rightarrow>
                  if nullish cfg \<or> schema = JNull then Inl (Throws TypeError)
                  else if typeof_object schema \<and> \<not> truthy (own_prop schema ''type'') then
                    (let cfg1 = (if \<not> truthy (own_prop cfg key) then assign cfg key (JObj []) else cfg) in
                     case validateSection defaults (own_prop cfg1 key) schema
                            (if path \<noteq> [] then path @ ''.'' @ key else key) of
                       Inl a \<Rightarrow> Inl a
                     | Inr (sub, errs) \<Rightarrow> Inr (assign cfg1 key sub, errors @ errs))
                  else
                    (case validateValue (own_prop cfg key) schema
                            (if path \<noteq> [] then path @ ''.'' @ key else key) of
                       Inl a \<Rightarrow> Inl a
                     | Inr propertyErrors \<Rightarrow>
                         Inr (fill_default defaults cfg key schema path, errors @ propertyErrors)))
           (Inr (sectionConfig, [])) (own_entries sectionSchema)"
  by pat_completeness auto
termination
  by (relation "measure (\<lambda>(defaults, sectionConfig, sectionSchema, path). size sectionSchema)")
     (auto simp: own_entries_size)

declare validateSection.simps [simp del]

text \<open>
  \<^verbatim>\<open>validateConfig(config)\<close>: every top-level key of the schema is treated as a section.
  The result is the configuration as written by the validation, and the errors;
  \<^verbatim>\<open>valid\<close> is \<^verbatim>\<open>errors.length === 0\<close>.
\<close>

definition validateConfig :: "jsval \<Rightarrow> jsval \<Rightarrow> abort + (jsval \<times> string list)" where
  "validateConfig defaults config =
     foldl (\<lambda>acc (section, schema).
              case acc of
                Inl a \<Rightarrow> Inl a
              | Inr (cfg, errors) \<Rightarrow>
                  (let cfg1 = (if \<not> truthy (own_prop cfg section)
                               then assign cfg section (JObj []) else cfg) in
                   case validateSection defaults (own_prop cfg1 section) schema section of
                     Inl a \<Rightarrow> Inl a
                   | Inr (sub, errs) \<Rightarrow> Inr (assign cfg1 section sub, errors @ errs)))
           (Inr (config, [])) (own_entries CONFIG_SCHEMA)"

subsection \<open>Loading\<close>

text \<open>\<^verbatim>\<open>migrateConfig(config, fromVersion, toVersion)\<close>\<close>

definition migrateConfig :: "jsval \<Rightarrow> jsval \<Rightarrow> string \<Rightarrow> jsval" where
  "migrateConfig config fromVersion toVersion =
     (if fromVersion = JStr toVersion then config
      else assign config ''_version'' (JStr toVersion))"

text \<open>
  One path of \<^verbatim>\<open>resolvePaths\<close>: \<^verbatim>\<open>if (paths.k && !path.isAbsolute(paths.k))\<close>. For
  \<^verbatim>\<open>contentDir\<close>, \<^verbatim>\<open>templatesDir\<close> and \<^verbatim>\<open>cssDir\<close> a value starting with \<^verbatim>\<open>./blog/\<close> is
  resolved against the parent of a base directory named \<^verbatim>\<open>blog\<close>.
\<close>

definition resolve_path ::
  "config_env \<Rightarrow> string \<Rightarrow> bool \<Rightarrow> string \<Rightarrow> jsval \<Rightarrow> abort + jsval" where
  "resolve_path env basePath blog_rule k paths =
     (case own_prop paths k of
        JStr p \<Rightarrow>
          (if p \<noteq> [] \<and> \<not> ce_isAbsolute env p then
             Inr (assign paths k
                    (JStr (if blog_rule \<and> ce_basename env basePath = ''blog''
                              \<and> strip_prefix ''./blog/'' p \<noteq> None
                           then ce_resolve env (ce_dirname env basePath) p
                           else ce_resolve env basePath p)))
           else Inr paths)
      | v \<Rightarrow> (if truthy v then Inl (Throws TypeError) else Inr paths))"

text \<open>\<^verbatim>\<open>resolvePaths(config, basePath)\<close>, returning the \<^verbatim>\<open>paths\<close> object as written.\<close>

definition resolvePaths :: "config_env \<Rightarrow> jsval \<Rightarrow> string \<Rightarrow> abort + jsval" where
  "resolvePaths env paths basePath =
     (if \<not> truthy paths then Inr paths
      else
        (case resolve_path env basePath True ''contentDir'' paths of
           Inl a \<Rightarrow> Inl a
         | Inr p1 \<Rightarrow>
             (case resolve_path env basePath False ''outputDir'' p1 of
                Inl a \<Rightarrow> Inl a
              | Inr p2 \<Rightarrow>
                  (case resolve_path env basePath True ''templatesDir'' p2 of
                     Inl a \<Rightarrow> Inl a
                   | Inr p3 \<Rightarrow> resolve_path env basePath True ''cssDir'' p3))))"

text \<open>
  \<^verbatim>\<open>if (outputDir) config.paths.outputDir = path.isAbsolute(outputDir) ? outputDir
     : path.resolve(process.cwd(), outputDir)\<close>
\<close>

definition override_outputDir :: "config_env \<Rightarrow> jsval \<Rightarrow> jsval \<Rightarrow> abort + jsval" where
  "override_outputDir env outputDir paths =
     (if \<not> truthy outputDir then Inr paths
      else
        (case outputDir of
           JStr p \<Rightarrow>
             (if nullish paths then Inl (Throws TypeError)
              else Inr (assign paths ''outputDir''
                          (JStr (if ce_isAbsolute env p then p
                                 else ce_resolve env (ce_cwd env) p))))
         | _ \<Rightarrow> Inl (Throws TypeError)))"

text \<open>\<^verbatim>\<open>addDerivedProperties(config)\<close>: a new \<^verbatim>\<open>paths\<close> object with \<^verbatim>\<open>postsDir\<close> and \<^verbatim>\<open>aboutDir\<close>.\<close>

definition addDerivedProperties :: "config_env \<Rightarrow> jsval \<Rightarrow> abort + jsval" where
  "addDerivedProperties env config =
     (let paths = own_prop config ''paths'' in
      if \<not> truthy paths then Inr (JObj (own_entries config))
      else
        (case own_prop paths ''contentDir'' of
           JStr c \<Rightarrow>
             Inr (JObj (set_prop ''paths''
                          (JObj (set_prop ''aboutDir'' (JStr (ce_join env c ''about''))
                                  (set_prop ''postsDir'' (JStr (ce_join env c ''posts''))
                                     (own_entries paths))))
                          (own_entries config)))
         | _ \<Rightarrow> Inl (Throws TypeError)))"

text \<open>
  The inner \<^verbatim>\<open>try\<close> of \<^verbatim>\<open>loadConfig\<close>: read, parse, migrate and merge the user
  configuration. Any exception is caught: two warnings are logged (after the line that
  \<^verbatim>\<open>readFile\<close> logs itself) and the configuration stays the copy of the defaults. The
  second component tells whether \<^verbatim>\<open>config.paths\<close> is still the defaults' own object.
\<close>

definition using_defaults :: "string \<Rightarrow> log" where
  "using_defaults configPath =
     [''Could not load config from '' @ configPath @ '':'', ''Using default configuration'']"

definition merge_user_config ::
  "config_env \<Rightarrow> string \<Rightarrow> jsval \<Rightarrow> log \<times> (abort + (jsval \<times> bool))" where
  "merge_user_config env configPath defaults =
     (case ce_readFile env configPath of
        Inl e \<Rightarrow>
          ((''Error reading file '' @ configPath @ '':'') # using_defaults configPath,
           Inr (JObj (own_entries defaults), True))
      | Inr configData \<Rightarrow>
          (case ce_parse env configData of
             Inl e \<Rightarrow> (using_defaults configPath, Inr (JObj (own_entries defaults), True))
           | Inr userConfig \<Rightarrow>
               (if nullish userConfig then
                  (using_defaults configPath, Inr (JObj (own_entries defaults), True))
                else
                  (let migrated = migrateConfig userConfig
                                    (js_or (own_prop userConfig ''_version'') (JStr ''1.0.0''))
                                    CONFIG_VERSION in
                   case deepMerge (JObj (own_entries defaults)) migrated of
                     Inl (Throws e) \<Rightarrow>
                       (using_defaults configPath, Inr (JObj (own_entries defaults), True))
                   | Inl Unmodelled \<Rightarrow> ([], Inl Unmodelled)
                   | Inr merged \<Rightarrow>
                       ([], Inr (JObj merged,
                                 ''paths'' \<notin> fst ` set (own_entries migrated)))))))"

text \<open>
  The rest of the outer \<^verbatim>\<open>try\<close>: resolve the paths, apply the output-directory override,
  add the derived paths, validate. The result is the configuration, or the exception thrown;
  with it come the log and \<^verbatim>\<open>config.paths\<close> as it stands after the writes in place.
\<close>

definition finish_config ::
  "config_env \<Rightarrow> string \<Rightarrow> jsval \<Rightarrow> jsval \<Rightarrow> jsval \<Rightarrow> log \<times> (abort + jsval) \<times> jsval" where
  "finish_config env configPath outputDir defaults config =
     (case resolvePaths env (own_prop config ''paths'') (ce_dirname env configPath) of
        Inl a \<Rightarrow> ([], Inl a, own_prop config ''paths'')
      | Inr paths1 \<Rightarrow>
          (case override_outputDir env outputDir paths1 of
             Inl a \<Rightarrow> ([], Inl a, paths1)
           | Inr paths2 \<Rightarrow>
               (case addDerivedProperties env (assign config ''paths'' paths2) of
                  Inl a \<Rightarrow> ([], Inl a, paths2)
                | Inr config1 \<Rightarrow>
                    (case validateConfig defaults config1 of
                       Inl a \<Rightarrow> ([], Inl a, paths2)
                     | Inr (config2, errors) \<Rightarrow>
                         (if errors = [] then ([], Inr config2, paths2)
                          else (''Configuration validation errors:'' # map (\<lambda>e. ''- '' @ e) errors,
                                Inl (Throws (Exn ''Invalid configuration'')), paths2))))))"

text \<open>
  \<^verbatim>\<open>loadConfig({ configPath, useCache, outputDir })\<close>. The outer \<^verbatim>\<open>catch\<close> logs
  \<^verbatim>\<open>Error loading configuration:\<close> and rethrows. A valid configuration is cached.
\<close>

definition loadConfig ::
  "config_env \<Rightarrow> string \<Rightarrow> bool \<Rightarrow> jsval \<Rightarrow> config_state \<Rightarrow> log \<times> (abort + jsval) \<times> config_state" where
  "loadConfig env configPath useCache outputDir st =
     (case (useCache, configCache st) of
        (True, Some cached) \<Rightarrow> ([], Inr cached, st)
      | _ \<Rightarrow>
          (case merge_user_config env configPath (default_config st) of
             (log0, Inl a) \<Rightarrow> (log0, Inl a, st)
           | (log0, Inr (config, shared_paths)) \<Rightarrow>
               (case finish_config env configPath outputDir (default_config st) config of
                  (log1, r, paths) \<Rightarrow>
                    (let st1 = (if shared_paths \<and> is_plain_object (own_prop config ''paths'')
                                then st\<lparr> default_config := assign (default_config st) ''paths'' paths \<rparr>
                                else st) in
                     case r of
                       Inr valid \<Rightarrow> (log0 @ log1, Inr valid, st1\<lparr> configCache := Some valid \<rparr>)
                     | Inl (Throws e) \<Rightarrow>
                         (log0 @ log1 @ [''Error loading configuration:''], Inl (Throws e), st1)
                     | Inl Unmodelled \<Rightarrow> (log0 @ log1, Inl Unmodelled, st1)))))"

subsection \<open>Notions used to state the properties\<close>

text \<open>
  The shape of the built-in default configuration after loading: its site and content
  sections as they are, and the six paths.
\<close>

definition resolved_defaults :: "string \<Rightarrow> string \<Rightarrow> string \<Rightarrow> string \<Rightarrow> string \<Rightarrow> string \<Rightarrow> jsval" where
  "resolved_defaults c t out css posts about = JObj
     [(''_version'', JStr CONFIG_VERSION),
      (''site'', JObj [(''title'', JStr ''Markdown Blog''),
                        (''description'', JStr ''A static blog built with markdown-blog-engine''),
                        (''language'', JStr ''en'')]),
      (''content'', JObj [(''postsPerPage'', JNum 10)]),
      (''paths'', JObj [(''contentDir'', JStr c),
                         (''templatesDir'', JStr t),
                         (''outputDir'', JStr out),
                         (''cssDir'', JStr css),
                         (''postsDir'', JStr posts),
                         (''aboutDir'', JStr about)])]"

text \<open>The value that \<^verbatim>\<open>resolvePaths\<close> leaves in a path setting that holds the string \<open>p\<close>.\<close>

definition resolved_path :: "config_env \<Rightarrow> string \<Rightarrow> bool \<Rightarrow> string \<Rightarrow> string" where
  "resolved_path env basePath blog_rule p =
     (if p \<noteq> [] \<and> \<not> ce_isAbsolute env p then
        (if blog_rule \<and> ce_basename env basePath = ''blog'' \<and> strip_prefix ''./blog/'' p \<noteq> None
         then ce_resolve env (ce_dirname env basePath) p
         else ce_resolve env basePath p)
      else p)"

text \<open>The output directory after the override by the build option \<^verbatim>\<open>outputDir\<close>.\<close>

definition overridden_outputDir :: "config_env \<Rightarrow> jsval \<Rightarrow> string \<Rightarrow> string" where
  "overridden_outputDir env outputDir resolved =
     (case outputDir of
        JStr p \<Rightarrow>
          (if p = [] then resolved
           else if ce_isAbsolute env p then p else ce_resolve env (ce_cwd env) p)
      | _ \<Rightarrow> resolved)"

text \<open>
  The configuration that \<^verbatim>\<open>loadConfig\<close> builds from the defaults alone: paths resolved
  against the directory of the configuration file, the output directory overridden, the
  derived paths added.
\<close>

definition fallback_config :: "config_env \<Rightarrow> string \<Rightarrow> jsval \<Rightarrow> jsval" where
  "fallback_config env configPath outputDir =
     (let base = ce_dirname env configPath;
          contentDir = resolved_path env base True ''./blog/content''
      in resolved_defaults contentDir
           (resolved_path env base True ''./blog/templates'')
           (overridden_outputDir env outputDir (resolved_path env base False ''./dist''))
           (resolved_path env base True ''./blog/css'')
           (ce_join env contentDir ''posts'')
           (ce_join env contentDir ''about''))"

section \<open>Build orchestrator (siteBuilder)\<close>

subsection \<open>extractTags\<close>

text \<open>
  The names that every object inherits from \<^verbatim>\<open>Object.prototype\<close>. With the accumulator
  \<^verbatim>\<open>tags = {}\<close>, \<^verbatim>\<open>tags[tag]\<close> for such a tag is the inherited member: it is truthy and has
  no \<^verbatim>\<open>push\<close>, so \<^verbatim>\<open>tags[tag].push(post)\<close> throws a \<^verbatim>\<open>TypeError\<close>.
\<close>

definition object_prototype_names :: "string list" where
  "object_prototype_names =
     [''constructor'', ''__defineGetter__'', ''__defineSetter__'', ''hasOwnProperty'',
      ''__lookupGetter__'', ''__lookupSetter__'', ''isPrototypeOf'', ''propertyIsEnumerable'',
      ''toString'', ''valueOf'', ''__proto__'', ''toLocaleString'']"

text \<open>A value used as a property key; a container is converted by the runtime.\<close>

fun property_key :: "jsval \<Rightarrow> abort + string" where
  "property_key (JStr s) = Inr s"
| "property_key (JNum n) = Inr (show_int n)"
| "property_key (JBool b) = Inr (if b then ''true'' else ''false'')"
| "property_key JNull = Inr ''null''"
| "property_key JUndef = Inr ''undefined''"
| "property_key v = Inl Unmodelled"

text \<open>
  \<^verbatim>\<open>if (!tags[tag]) tags[tag] = []; tags[tag].push(post)\<close>. A new tag becomes a key of the
  accumulator at the place where the enumeration of the object will find it: a tag such as
  \<^verbatim>\<open>2024\<close> before the tags that are not array indices.
\<close>

definition push_post :: "jsobject \<Rightarrow> jsobject \<Rightarrow> jsval \<Rightarrow> abort + jsobject" where
  "push_post post tags tag =
     (case property_key tag of
        Inl a \<Rightarrow> Inl a
      | Inr k \<Rightarrow>
          (case map_of tags k of
             Some (JArr ps) \<Rightarrow> Inr (set_prop k (JArr (ps @ [JObj post])) tags)
           | Some other \<Rightarrow> Inl (Throws TypeError)
           | None \<Rightarrow>
               (if k \<in> set object_prototype_names then Inl (Throws TypeError)
                else Inr (set_prop k (JArr [JObj post]) tags))))"

fun push_all :: "jsobject \<Rightarrow> jsobject \<Rightarrow> jsval list \<Rightarrow> abort + jsobject" where
  "push_all post tags [] = Inr tags"
| "push_all post tags (tag # rest) =
     (case push_post post tags tag of
        Inl a \<Rightarrow> Inl a
      | Inr tags1 \<Rightarrow> push_all post tags1 rest)"

fun extractTags_from :: "jsobject \<Rightarrow> jsobject list \<Rightarrow> abort + jsobject" where
  "extractTags_from tags [] = Inr tags"
| "extractTags_from tags (post # posts) =
     (case get_prop post ''tags'' of
        JArr ts \<Rightarrow>
          (case push_all post tags ts of
             Inl a \<Rightarrow> Inl a
           | Inr tags1 \<Rightarrow> extractTags_from tags1 posts)
      | _ \<Rightarrow> extractTags_from tags posts)"

definition extractTags :: "jsobject list \<Rightarrow> abort + jsobject" where
  "extractTags posts = extractTags_from [] posts"

subsection \<open>The page builders\<close>

text \<open>
  The units of work of a build. Composing the HTML of a page type and writing its files is
  the body of the builder's \<^verbatim>\<open>try\<close> block; whether that body throws is given by the
  environment (\<open>be_assemble\<close>, from the task and the posts). For \<^verbatim>\<open>buildTagPages\<close> the body
  meant is the part before the nested call of \<^verbatim>\<open>buildTagsIndexPage\<close>, for
  \<^verbatim>\<open>buildAboutPage\<close> the part after its source was read. \<open>be_about_source\<close> tells whether the
  about page has a source (whether \<^verbatim>\<open>readFile(aboutPath)\<close> returns), \<open>be_about_path\<close> is that
  path, \<^verbatim>\<open>path.join(aboutDir, 'index.md')\<close>, and \<open>be_css_write\<close> tells whether writing the
  CSS variables throws.
\<close>

datatype task =
    StaticAssets | HomePage | PostPages | TagPages | TagsIndexPage | AboutPage | Sitemap | ErrorPage

record build_env =
  be_config :: config_env
  be_posts :: post_env
  be_css_write :: "exn option"
  be_about_source :: bool
  be_about_path :: string
  be_assemble :: "task \<Rightarrow> jsobject list \<Rightarrow> exn option"

text \<open>
  \<^verbatim>\<open>try { body } catch (error) { console.error(label, error); throw error; }\<close>: the log
  and what the returned promise settles with (\<open>None\<close>: fulfilled).
\<close>

definition log_and_rethrow :: "string \<Rightarrow> abort option \<Rightarrow> log \<times> abort option" where
  "log_and_rethrow label outcome =
     (case outcome of None \<Rightarrow> ([], None) | Some a \<Rightarrow> ([label], Some a))"

definition generateStaticAssets :: "build_env \<Rightarrow> jsobject list \<Rightarrow> log \<times> abort option" where
  "generateStaticAssets env posts =
     log_and_rethrow ''Error generating static assets:''
       (map_option Throws (be_assemble env StaticAssets posts))"

definition buildHomePage :: "build_env \<Rightarrow> jsobject list \<Rightarrow> log \<times> abort option" where
  "buildHomePage env posts =
     log_and_rethrow ''Error building home page:''
       (map_option Throws (be_assemble env HomePage posts))"

definition buildPostPages :: "build_env \<Rightarrow> jsobject list \<Rightarrow> log \<times> abort option" where
  "buildPostPages env posts =
     log_and_rethrow ''Error building post pages:''
       (map_option Throws (be_assemble env PostPages posts))"

definition buildTagsIndexPage :: "build_env \<Rightarrow> jsobject list \<Rightarrow> log \<times> abort option" where
  "buildTagsIndexPage env posts =
     log_and_rethrow ''Error building tags index page:''
       (map_option Throws (be_assemble env TagsIndexPage posts))"

text \<open>
  \<^verbatim>\<open>buildTagPages\<close>: \<^verbatim>\<open>extractTags\<close>, the page of every tag, then
  \<^verbatim>\<open>await buildTagsIndexPage(tags, options)\<close>, all inside the \<^verbatim>\<open>try\<close>.
\<close>

definition buildTagPages :: "build_env \<Rightarrow> jsobject list \<Rightarrow> log \<times> abort option" where
  "buildTagPages env posts =
     (case extractTags posts of
        Inl a \<Rightarrow> log_and_rethrow ''Error building tag pages:'' (Some a)
      | Inr tags \<Rightarrow>
          (case be_assemble env TagPages posts of
             Some e \<Rightarrow> log_and_rethrow ''Error building tag pages:'' (Some (Throws e))
           | None \<Rightarrow>
               (case buildTagsIndexPage env posts of
                  (lg, outcome) \<Rightarrow>
                    (lg @ fst (log_and_rethrow ''Error building tag pages:'' outcome), outcome))))"

text \<open>
  \<^verbatim>\<open>buildAboutPage\<close>: without a source \<^verbatim>\<open>readFile\<close> logs its failure and the builder
  returns; its outer \<^verbatim>\<open>catch\<close> logs and does not rethrow.
\<close>

definition buildAboutPage :: "build_env \<Rightarrow> log \<times> abort option" where
  "buildAboutPage env =
     (if \<not> be_about_source env then
        ([''Error reading file '' @ be_about_path env @ '':''], None)
      else (case be_assemble env AboutPage [] of
              None \<Rightarrow> ([], None)
            | Some e \<Rightarrow> ([''Error building about page:''], None)))"

definition buildErrorPage :: "build_env \<Rightarrow> log \<times> abort option" where
  "buildErrorPage env =
     log_and_rethrow ''Error building error page:''
       (map_option Throws (be_assemble env ErrorPage []))"

definition buildSitemap :: "build_env \<Rightarrow> jsobject list \<Rightarrow> log \<times> abort option" where
  "buildSitemap env posts =
     log_and_rethrow ''Error building sitemap:''
       (map_option Throws (be_assemble env Sitemap posts))"

text \<open>\<^verbatim>\<open>writeCssVariables\<close> catches and logs; it never throws.\<close>

definition writeCssVariables :: "build_env \<Rightarrow> log" where
  "writeCssVariables env =
     (case be_css_write env of None \<Rightarrow> [] | Some e \<Rightarrow> [''Error writing CSS variables:''])"

subsection \<open>buildSite\<close>

text \<open>
  What a build did:
  \<^item> \<open>br_log\<close>: the warnings and errors logged; the lines of tasks that run concurrently are
    recorded task by task;
  \<^item> \<open>br_dispatched\<close>: the tasks handed to \<^verbatim>\<open>Promise.all\<close>, each with what its promise
    settles with. All of them are started before the first one settles;
  \<^item> \<open>br_error_page\<close>: \<open>None\<close> when \<^verbatim>\<open>buildErrorPage\<close> was not called, otherwise what it
    settled with;
  \<^item> \<open>br_raised\<close>: empty when \<^verbatim>\<open>buildSite\<close> returns; otherwise it throws one of these
    (\<^verbatim>\<open>Promise.all\<close> rejects with the rejection that settles first);
  \<^item> \<open>br_state\<close>: the state of the configuration manager afterwards.
\<close>

record build_result =
  br_log :: log
  br_dispatched :: "(task \<times> abort option) list"
  br_error_page :: "abort option option"
  br_raised :: "abort list"
  br_state :: config_state

text \<open>
  The \<^verbatim>\<open>catch\<close> of \<^verbatim>\<open>buildSite\<close>:
  \<^verbatim>\<open>console.error('Error building site:', error); await buildErrorPage(); throw error;\<close>
  When \<^verbatim>\<open>buildErrorPage\<close> throws, that exception leaves \<^verbatim>\<open>buildSite\<close> instead.
\<close>

definition fail_build ::
  "build_env \<Rightarrow> log \<Rightarrow> (task \<times> abort option) list \<Rightarrow> abort list \<Rightarrow> config_state \<Rightarrow> build_result" where
  "fail_build env lg dispatched errors st =
     (case buildErrorPage env of
        (lgE, outcome) \<Rightarrow>
          \<lparr> br_log = lg @ [''Error building site:''] @ lgE,
            br_dispatched = dispatched,
            br_error_page = Some outcome,
            br_raised = (case outcome of Some a \<Rightarrow> [a] | None \<Rightarrow> errors),
            br_state = st \<rparr>)"

text \<open>
  \<^verbatim>\<open>await Promise.all([generateStaticAssets(..), buildHomePage(..), buildPostPages(..),
  buildTagPages(..), buildTagsIndexPage(..), buildAboutPage(..), buildSitemap(..)])\<close>
\<close>

definition dispatch_all :: "build_env \<Rightarrow> jsobject list \<Rightarrow> (task \<times> log \<times> abort option) list" where
  "dispatch_all env posts =
     [(StaticAssets, generateStaticAssets env posts),
      (HomePage, buildHomePage env posts),
      (PostPages, buildPostPages env posts),
      (TagPages, buildTagPages env posts),
      (TagsIndexPage, buildTagsIndexPage env posts),
      (AboutPage, buildAboutPage env),
      (Sitemap, buildSitemap env posts)]"

text \<open>
  The \<^verbatim>\<open>try\<close> of \<^verbatim>\<open>buildSite\<close> after the configuration is loaded: CSS variables, posts,
  tags, then all page types in parallel.
\<close>

definition build_pages :: "build_env \<Rightarrow> log \<Rightarrow> config_state \<Rightarrow> build_result" where
  "build_pages env lg st =
     (let lg1 = lg @ writeCssVariables env in
      case loadAllPosts (be_posts env) DEFAULT_MD_CONFIG (getConfig st) of
        Inl a \<Rightarrow> fail_build env lg1 [] [a] st
      | Inr (lgP, posts) \<Rightarrow>
          (case extractTags posts of
             Inl a \<Rightarrow> fail_build env (lg1 @ lgP) [] [a] st
           | Inr tags \<Rightarrow>
               (let settled = dispatch_all env posts;
                    lg2 = lg1 @ lgP @ concat (map (\<lambda>(t, l, outcome). l) settled);
                    dispatched = map (\<lambda>(t, l, outcome). (t, outcome)) settled;
                    rejections = List.map_filter (\<lambda>(t, l, outcome). outcome) settled
                in if rejections = [] then
                     \<lparr> br_log = lg2, br_dispatched = dispatched, br_error_page = None,
                       br_raised = [], br_state = st \<rparr>
                   else fail_build env lg2 dispatched rejections st)))"

text \<open>
  \<^verbatim>\<open>buildSite({ configPath, outputDir, verbose, debug })\<close>: the configuration is loaded with
  \<^verbatim>\<open>useCache: false\<close>.
\<close>

definition buildSite :: "build_env \<Rightarrow> string \<Rightarrow> jsval \<Rightarrow> config_state \<Rightarrow> build_result" where
  "buildSite env configPath outputDir st =
     (case loadConfig (be_config env) configPath False outputDir st of
        (lg, Inl a, st1) \<Rightarrow> fail_build env lg [] [a] st1
      | (lg, Inr config, st1) \<Rightarrow> build_pages env lg st1)"

subsection \<open>Notions used to state the properties\<close>

text \<open>
  The tasks handed to \<^verbatim>\<open>Promise.all\<close>, those among them whose \<^verbatim>\<open>catch\<close> rethrows, and the
  line each builder logs when it catches.
\<close>

definition page_tasks :: "task list" where
  "page_tasks = [StaticAssets, HomePage, PostPages, TagPages, TagsIndexPage, AboutPage, Sitemap]"

definition rethrowing_tasks :: "task list" where
  "rethrowing_tasks = [StaticAssets, HomePage, PostPages, TagPages, TagsIndexPage, Sitemap]"

definition error_label :: "task \<Rightarrow> string" where
  "error_label t =
     (case t of
        StaticAssets \<Rightarrow> ''Error generating static assets:''
      | HomePage \<Rightarrow> ''Error building home page:''
      | PostPages \<Rightarrow> ''Error building post pages:''
      | TagPages \<Rightarrow> ''Error building tag pages:''
      | TagsIndexPage \<Rightarrow> ''Error building tags index page:''
      | AboutPage \<Rightarrow> ''Error building about page:''
      | Sitemap \<Rightarrow> ''Error building sitemap:''
      | ErrorPage \<Rightarrow> ''Error building error page:'')"

subsection \<open>Sample builds\<close>

text \<open>
  A configuration environment given by tables (file texts by path, parsed JSON by text; a
  path or text without an entry makes \<^verbatim>\<open>readFile\<close> or \<^verbatim>\<open>JSON.parse\<close> throw), with POSIX-like
  path functions; a posts directory with one post; and a build in which the assembly of the
  listed tasks fails.
\<close>

definition sample_config_env :: "(string \<times> string) list \<Rightarrow> (string \<times> jsval) list \<Rightarrow> config_env" where
  "sample_config_env texts json =
     \<lparr> ce_readFile = (\<lambda>p. case map_of texts p of Some c \<Rightarrow> Inr c | None \<Rightarrow> Inl (Exn ''ENOENT'')),
       ce_parse = (\<lambda>s. case map_of json s of Some v \<Rightarrow> Inr v | None \<Rightarrow> Inl (Exn ''SyntaxError'')),
       ce_cwd = ''/site'',
       ce_isAbsolute = (\<lambda>p. p \<noteq> [] \<and> hd p = CHR ''/''),
       ce_resolve = (\<lambda>a b. a @ ''/'' @ (case strip_prefix ''./'' b of Some r \<Rightarrow> r | None \<Rightarrow> b)),
       ce_dirname = (\<lambda>p. rev (drop 1 (dropWhile (\<lambda>c. c \<noteq> CHR ''/'') (rev p)))),
       ce_basename = (\<lambda>p. rev (takeWhile (\<lambda>c. c \<noteq> CHR ''/'') (rev p))),
       ce_join = (\<lambda>a b. a @ ''/'' @ b) \<rparr>"

definition site_posts :: post_env where
  "site_posts = sample_env
     [(''/site/blog/content/posts/a.md'', ''text a'')]
     [''a.md'']
     [(''text a'', ''A'', JObj [(''title'', JStr ''One''), (''date'', JStr ''2024-01-01''),
                                 (''tags'', JArr [JStr ''x''])])]
     [(''A'', ''<p>A</p>'')]
     [(''2024-01-01'', 1704067200000)]"

definition sample_build :: "config_env \<Rightarrow> (task \<times> exn) list \<Rightarrow> build_env" where
  "sample_build cenv failures =
     \<lparr> be_config = cenv, be_posts = site_posts, be_css_write = None, be_about_source = True,
       be_about_path = ''/site/blog/content/about/index.md'',
       be_assemble = (\<lambda>t posts. map_of failures t) \<rparr>"

definition no_config_file :: config_env where
  "no_config_file = sample_config_env [] []"

definition invalid_config_file :: config_env where
  "invalid_config_file = sample_config_env
     [(''/site/blog/config.json'', ''{ site: { title: 5 } }'')]
     [(''{ site: { title: 5 } }'', JObj [(''site'', JObj [(''title'', JNum 5)])])]"

definition home_fails :: build_env where
  "home_fails = sample_build no_config_file [(HomePage, Exn ''EACCES'')]"

section \<open>Template engine: the loader (templateEngine)\<close>

text \<open>
  \<open>te_readFileSync\<close> is \<^verbatim>\<open>fs.readFileSync(p, 'utf-8')\<close>, \<open>te_join\<close> is \<^verbatim>\<open>path.join\<close>,
  \<open>te_cwd\<close> is \<^verbatim>\<open>process.cwd()\<close>, and \<open>te_engine_templates\<close> is the directory
  \<^verbatim>\<open>path.join(__dirname, '..', 'defaults', 'templates')\<close> of the built-in templates.
\<close>

record tmpl_env =
  te_readFileSync :: "string \<Rightarrow> exn + string"
  te_join :: "string \<Rightarrow> string \<Rightarrow> string"
  te_cwd :: string
  te_engine_templates :: string

text \<open>
  The module state: the module-level \<^verbatim>\<open>config\<close> and the \<^verbatim>\<open>templateCache\<close> object, keyed by
  template path.
\<close>

record tmpl_state =
  module_config :: jsobject
  templateCache :: "(string \<times> string) list"

definition DEFAULT_TEMPLATE_CONFIG :: jsobject where
  "DEFAULT_TEMPLATE_CONFIG =
     [(''cacheTemplates'', JBool True), (''templatesDir'', JStr ''templates''),
      (''defaultLanguage'', JStr ''ru-RU'')]"

definition initial_template_state :: tmpl_state where
  "initial_template_state = \<lparr> module_config = DEFAULT_TEMPLATE_CONFIG, templateCache = [] \<rparr>"

definition clearCache :: "tmpl_state \<Rightarrow> tmpl_state" where
  "clearCache st = st\<lparr> templateCache := [] \<rparr>"

text \<open>
  \<^verbatim>\<open>updateConfig(newConfig)\<close>: \<^verbatim>\<open>config = { ...DEFAULT_CONFIG, ...newConfig }\<close>, and the cache
  is cleared when \<^verbatim>\<open>config.cacheTemplates\<close> is falsy.
\<close>

definition updateConfig :: "jsval \<Rightarrow> tmpl_state \<Rightarrow> tmpl_state" where
  "updateConfig newConfig st =
     (let config = spread_over DEFAULT_TEMPLATE_CONFIG (own_entries newConfig);
          st1 = st\<lparr> module_config := config \<rparr>
      in if \<not> truthy (get_prop config ''cacheTemplates'') then clearCache st1 else st1)"

text \<open>
  The first lines of \<^verbatim>\<open>loadTemplate\<close>, before its \<^verbatim>\<open>try\<close>:
  \<^verbatim>\<open>const config = getConfig();\<close>
  \<^verbatim>\<open>const templatePath = path.join(config.paths.templatesDir ||
     path.join(process.cwd(), 'blog/templates'), `${templateName}.html`);\<close>
  Here \<^verbatim>\<open>config\<close> is the site configuration of the configuration manager; the local constant
  hides the module-level \<^verbatim>\<open>config\<close>.
\<close>

definition template_path :: "tmpl_env \<Rightarrow> jsval \<Rightarrow> string \<Rightarrow> abort + string" where
  "template_path env config templateName =
     (let paths = own_prop config ''paths'' in
      if nullish paths then Inl (Throws TypeError)
      else if truthy (own_prop paths ''templatesDir'') then
        (case own_prop paths ''templatesDir'' of
           JStr d \<Rightarrow> Inr (te_join env d (templateName @ ''.html''))
         | _ \<Rightarrow> Inl (Throws TypeError))
      else Inr (te_join env (te_join env (te_cwd env) ''blog/templates'')
                  (templateName @ ''.html'')))"

text \<open>\<^verbatim>\<open>if (config.cacheTemplates) templateCache[templatePath] = template;\<close>\<close>

definition remember :: "jsval \<Rightarrow> string \<Rightarrow> string \<Rightarrow> tmpl_state \<Rightarrow> tmpl_state" where
  "remember config templatePath template st =
     (if truthy (own_prop config ''cacheTemplates'')
      then st\<lparr> templateCache := AList.update templatePath template (templateCache st) \<rparr>
      else st)"

text \<open>
  \<^verbatim>\<open>loadTemplate(templateName)\<close>, given the site configuration \<^verbatim>\<open>getConfig()\<close> returns: the
  log, the template text and the state afterwards. A cached text counts when it is truthy,
  that is, not empty.
\<close>

definition loadTemplate ::
  "tmpl_env \<Rightarrow> jsval \<Rightarrow> string \<Rightarrow> tmpl_state \<Rightarrow> abort + (log \<times> string \<times> tmpl_state)" where
  "loadTemplate env config templateName st =
     (case template_path env config templateName of
        Inl a \<Rightarrow> Inl a
      | Inr templatePath \<Rightarrow>
          (case (if truthy (own_prop config ''cacheTemplates'')
                 then map_of (templateCache st) templatePath else None) of
             Some (c # cs) \<Rightarrow> Inr ([], c # cs, st)
           | _ \<Rightarrow>
               (case te_readFileSync env templatePath of
                  Inr template \<Rightarrow> Inr ([], template, remember config templatePath template st)
                | Inl error \<Rightarrow>
                    (let engineDefaultPath =
                           te_join env (te_engine_templates env) (templateName @ ''.html'') in
                     case te_readFileSync env engineDefaultPath of
                       Inr template \<Rightarrow>
                         Inr ([], template, remember config templatePath template st)
                     | Inl defaultError \<Rightarrow>
                         Inr ([''Error loading template '' @ templateName @ '':'',
                               ''Also tried engine default at '' @ engineDefaultPath @ '':''],
                              [], st)))))"

subsection \<open>Sample storage\<close>

text \<open>Storage given by a table of file texts by path.\<close>

definition sample_storage :: "(string \<times> string) list \<Rightarrow> tmpl_env" where
  "sample_storage texts =
     \<lparr> te_readFileSync = (\<lambda>p. case map_of texts p of Some c \<Rightarrow> Inr c | None \<Rightarrow> Inl (Exn ''ENOENT'')),
       te_join = (\<lambda>a b. a @ ''/'' @ b),
       te_cwd = ''/site'',
       te_engine_templates = ''/engine/defaults/templates'' \<rparr>"

section \<open>Template engine: the directive language (templateEngine)\<close>

subsection \<open>getNestedValue\<close>

text \<open>\<^verbatim>\<open>path.split('.')\<close>; on the empty string JavaScript returns \<^verbatim>\<open>['']\<close>.\<close>

fun split_on :: "char \<Rightarrow> string \<Rightarrow> string list" where
  "split_on sep [] = [[]]"
| "split_on sep (c # cs) =
     (if c = sep then [] # split_on sep cs
      else (case split_on sep cs of
              w # ws \<Rightarrow> (c # w) # ws
            | [] \<Rightarrow> [[c]]))"

text \<open>
  \<^verbatim>\<open>prev[curr]\<close> for a key taken from a template. An own data property is read as by
  \<open>own_prop\<close>. A key that an object does not own is \<^verbatim>\<open>undefined\<close> unless it names a member
  inherited from \<^verbatim>\<open>Object.prototype\<close>; inherited members, and every member of an array,
  string, number, boolean or function other than an index or \<^verbatim>\<open>length\<close>, are left to the
  runtime.
\<close>

fun js_member :: "jsval \<Rightarrow> string \<Rightarrow> abort + jsval" where
  "js_member (JObj fs) k =
     (case map_of fs k of
        Some v \<Rightarrow> Inr v
      | None \<Rightarrow> if k \<in> set object_prototype_names then Inl Unmodelled else Inr JUndef)"
| "js_member (JArr xs) k =
     (if k = ''length'' \<or> index_of_key k \<noteq> None then Inr (own_prop (JArr xs) k)
      else Inl Unmodelled)"
| "js_member (JStr s) k =
     (if k = ''length'' \<or> index_of_key k \<noteq> None then Inr (own_prop (JStr s) k)
      else Inl Unmodelled)"
| "js_member v k = Inl Unmodelled"

text \<open>
  \<^verbatim>\<open>path.split('.').reduce((prev, curr) => prev ? prev[curr] : undefined, obj)\<close>
\<close>

definition getNestedValue :: "jsval \<Rightarrow> string \<Rightarrow> abort + jsval" where
  "getNestedValue obj path =
     foldl (\<lambda>prev curr.
              case prev of
                Inl a \<Rightarrow> Inl a
              | Inr p \<Rightarrow> if truthy p then js_member p curr else Inr JUndef)
           (Inr obj) (split_on (CHR ''.'') path)"

subsection \<open>Equality and conversion to string\<close>

text \<open>
  \<^verbatim>\<open>a === b\<close>. Primitives are compared by type and value. Two containers are equal when
  they are the same object: containers of different structure are different objects; for
  containers of the same structure the answer depends on their identity, which the values
  of the model do not carry (\<open>None\<close>).
\<close>

fun strict_equals :: "jsval \<Rightarrow> jsval \<Rightarrow> bool option" where
  "strict_equals JUndef JUndef = Some True"
| "strict_equals JNull JNull = Some True"
| "strict_equals (JBool a) (JBool b) = Some (a = b)"
| "strict_equals (JNum a) (JNum b) = Some (a = b)"
| "strict_equals (JStr a) (JStr b) = Some (a = b)"
| "strict_equals (JArr a) (JArr b) = (if a = b then None else Some False)"
| "strict_equals (JObj a) (JObj b) = (if a = b then None else Some False)"
| "strict_equals (JFun a) (JFun b) = (if a = b then None else Some False)"
| "strict_equals a b = Some False"

text \<open>
  \<^verbatim>\<open>a == b\<close>: as \<^verbatim>\<open>===\<close> on operands of one type; \<^verbatim>\<open>null\<close> and \<^verbatim>\<open>undefined\<close> equal each
  other and nothing else; operands of different types are coerced by the runtime.
\<close>

fun primitive_type :: "jsval \<Rightarrow> nat" where
  "primitive_type JUndef = 0"
| "primitive_type JNull = 1"
| "primitive_type (JBool b) = 2"
| "primitive_type (JNum n) = 3"
| "primitive_type (JStr s) = 4"
| "primitive_type (JArr xs) = 5"
| "primitive_type (JObj fs) = 5"
| "primitive_type (JFun v) = 5"

definition loose_equals :: "jsval \<Rightarrow> jsval \<Rightarrow> bool option" where
  "loose_equals a b =
     (if nullish a \<or> nullish b then Some (nullish a \<and> nullish b)
      else if primitive_type a = primitive_type b then strict_equals a b
      else None)"

definition modelled :: "bool option \<Rightarrow> abort + bool" where
  "modelled r = (case r of Some b \<Rightarrow> Inr b | None \<Rightarrow> Inl Unmodelled)"

text \<open>Joining strings with a separator (\<^verbatim>\<open>Array.prototype.join\<close>).\<close>

fun join_with :: "string \<Rightarrow> string list \<Rightarrow> string" where
  "join_with sep [] = []"
| "join_with sep [x] = x"
| "join_with sep (x # y # ys) = x @ sep @ join_with sep (y # ys)"

text \<open>
  \<^verbatim>\<open>String(v)\<close>, which \<^verbatim>\<open>replace\<close> applies to what its callback returns. An array is the
  comma-separated list of its elements, \<^verbatim>\<open>null\<close> and \<^verbatim>\<open>undefined\<close> elements being empty. A
  plain object is \<^verbatim>\<open>[object Object]\<close> unless it owns a \<^verbatim>\<open>toString\<close> or \<^verbatim>\<open>valueOf\<close>; that
  case and the source text of a function are left to the runtime.
\<close>

fun js_to_string :: "jsval \<Rightarrow> abort + string" where
  "js_to_string JUndef = Inr ''undefined''"
| "js_to_string JNull = Inr ''null''"
| "js_to_string (JBool b) = Inr (if b then ''true'' else ''false'')"
| "js_to_string (JNum n) = Inr (show_int n)"
| "js_to_string (JStr s) = Inr s"
| "js_to_string (JArr xs) =
     (case collect (map (\<lambda>x. if nullish x then Inr [] else js_to_string x) xs) of
        Inl a \<Rightarrow> Inl a
      | Inr parts \<Rightarrow> Inr (join_with '','' parts))"
| "js_to_string (JObj fs) =
     (if map_of fs ''toString'' = None \<and> map_of fs ''valueOf'' = None
      then Inr ''[object Object]'' else Inl Unmodelled)"
| "js_to_string (JFun v) = Inl Unmodelled"

subsection \<open>The three patterns\<close>

text \<open>The first occurrence of a delimiter: the text before it and the text after it.\<close>

fun split_at_first :: "string \<Rightarrow> string \<Rightarrow> (string \<times> string) option" where
  "split_at_first d [] = None"
| "split_at_first d (c # cs) =
     (case strip_prefix d (c # cs) of
        Some rest \<Rightarrow> Some ([], rest)
      | None \<Rightarrow>
          (case split_at_first d cs of
             Some (before, rest) \<Rightarrow> Some (c # before, rest)
           | None \<Rightarrow> None))"

text \<open>
  The opening tag of a block, \<^verbatim>\<open>\{\{#each\s+([^}]+)\}\}\<close> or \<^verbatim>\<open>\{\{#if\s+([^}]+)\}\}\<close>, at
  the start of a text. After the opener, \<^verbatim>\<open>\s+([^}]+)\<close> covers the characters up to the
  first \<^verbatim>\<open>}\<close>: at least two, the first one white space, and \<^verbatim>\<open>}}\<close> must follow. The
  greedy \<^verbatim>\<open>\s+\<close> takes the leading white space, but leaves the last character to the group
  when there is nothing else. The result is the group and the text after the tag.
\<close>

definition block_header :: "string \<Rightarrow> string \<Rightarrow> (string \<times> string) option" where
  "block_header opener s =
     (case strip_prefix opener s of
        None \<Rightarrow> None
      | Some r \<Rightarrow>
          (let span = takeWhile (\<lambda>c. c \<noteq> CHR ''}'') r in
           if 2 \<le> length span \<and> is_space (hd span) then
             (case strip_prefix ''}}'' (dropWhile (\<lambda>c. c \<noteq> CHR ''}'') r) of
                None \<Rightarrow> None
              | Some body \<Rightarrow>
                  Some (if dropWhile is_space span = [] then [last span]
                        else dropWhile is_space span,
                        body))
           else None))"

text \<open>
  What a match captures: the first group, the second group, and the third group when it
  took part in the match.
\<close>

type_synonym groups = "string \<times> string \<times> string option"

text \<open>
  \<^verbatim>\<open>/\{\{#each\s+([^}]+)\}\}([\s\S]*?)\{\{\/each\}\}/\<close> at the start of a text: the lazy
  body ends at the first \<^verbatim>\<open>{{/each}}\<close>.
\<close>

definition each_match :: "string \<Rightarrow> (groups \<times> string) option" where
  "each_match s =
     (case block_header ''{{#each'' s of
        None \<Rightarrow> None
      | Some (itemsPath, r) \<Rightarrow>
          (case split_at_first ''{{/each}}'' r of
             None \<Rightarrow> None
           | Some (blockContent, rest) \<Rightarrow> Some ((itemsPath, blockContent, None), rest)))"

text \<open>
  \<^verbatim>\<open>([\s\S]*?)(?:\{\{else\}\}([\s\S]*?))?\{\{\/if\}\}\<close>: the lazy first body grows one
  character at a time; at each length the optional group is tried first (an \<^verbatim>\<open>{{else}}\<close>
  here, with a later \<^verbatim>\<open>{{/if}}\<close>), then the closing tag without it.
\<close>

fun if_body :: "string \<Rightarrow> (string \<times> string option \<times> string) option" where
  "if_body [] = None"
| "if_body (c # cs) =
     (case (case strip_prefix ''{{else}}'' (c # cs) of
              Some r \<Rightarrow>
                (case split_at_first ''{{/if}}'' r of
                   Some (elseContent, rest) \<Rightarrow> Some ([], Some elseContent, rest)
                 | None \<Rightarrow> None)
            | None \<Rightarrow>
                (case strip_prefix ''{{/if}}'' (c # cs) of
                   Some rest \<Rightarrow> Some ([], None, rest)
                 | None \<Rightarrow> None)) of
        Some found \<Rightarrow> Some found
      | None \<Rightarrow>
          (case if_body cs of
             Some (ifContent, elseContent, rest) \<Rightarrow> Some (c # ifContent, elseContent, rest)
           | None \<Rightarrow> None))"

text \<open>
  \<^verbatim>\<open>/\{\{#if\s+([^}]+)\}\}([\s\S]*?)(?:\{\{else\}\}([\s\S]*?))?\{\{\/if\}\}/\<close> at the start
  of a text.
\<close>

definition if_match :: "string \<Rightarrow> (groups \<times> string) option" where
  "if_match s =
     (case block_header ''{{#if'' s of
        None \<Rightarrow> None
      | Some (condition, r) \<Rightarrow>
          (case if_body r of
             None \<Rightarrow> None
           | Some (ifContent, elseContent, rest) \<Rightarrow>
               Some ((condition, ifContent, elseContent), rest)))"

text \<open>
  \<^verbatim>\<open>/\{\{([^#/][^}]*)\}\}/\<close> at the start of a text: after \<^verbatim>\<open>{{\<close> one character other
  than \<^verbatim>\<open>#\<close> and \<^verbatim>\<open>/\<close>, then everything up to the first \<^verbatim>\<open>}\<close>, then \<^verbatim>\<open>}}\<close>.
\<close>

definition var_match :: "string \<Rightarrow> (groups \<times> string) option" where
  "var_match s =
     (case strip_prefix ''{{'' s of
        Some (c # r) \<Rightarrow>
          (if c = CHR ''#'' \<or> c = CHR ''/'' then None
           else (case strip_prefix ''}}'' (dropWhile (\<lambda>x. x \<noteq> CHR ''}'') r) of
                   None \<Rightarrow> None
                 | Some rest \<Rightarrow>
                     Some ((c # takeWhile (\<lambda>x. x \<noteq> CHR ''}'') r, [], None), rest)))
      | _ \<Rightarrow> None)"

datatype directive = Each | If | Var

fun match_at :: "directive \<Rightarrow> string \<Rightarrow> (groups \<times> string) option" where
  "match_at Each s = each_match s"
| "match_at If s = if_match s"
| "match_at Var s = var_match s"

subsection \<open>Global replacement\<close>

lemma strip_prefix_length:
  "strip_prefix p s = Some r \<Longrightarrow> length s = length p + length r"
  by (induction p s rule: strip_prefix.induct) (auto split: if_splits)

lemma split_at_first_length:
  "split_at_first d s = Some (before, rest) \<Longrightarrow> length rest \<le> length s"
proof (induction s arbitrary: before)
  case Nil
  then show ?case by simp
next
  case (Cons c cs)
  then show ?case
    by (auto simp del: strip_prefix.simps split: option.splits
             dest!: strip_prefix_length)
qed

lemma if_body_length:
  "if_body s = Some (ifContent, elseContent, rest) \<Longrightarrow> length rest \<le> length s"
proof (induction s arbitrary: ifContent)
  case Nil
  then show ?case by simp
next
  case (Cons c cs)
  then show ?case
    by (auto simp del: strip_prefix.simps split: option.splits
             dest!: strip_prefix_length split_at_first_length)
qed

lemma block_header_length:
  "block_header opener s = Some (g, body) \<Longrightarrow> length body < length s"
proof -
  assume a: "block_header opener s = Some (g, body)"
  then obtain r where r: "strip_prefix opener s = Some r"
    and b: "strip_prefix ''}}'' (dropWhile (\<lambda>c. c \<noteq> CHR ''}'') r) = Some body"
    by (auto simp: block_header_def Let_def split: option.splits if_splits)
  have "length (dropWhile (\<lambda>c. c \<noteq> CHR ''}'') r) \<le> length r"
    by (rule length_dropWhile_le)
  with strip_prefix_length [OF r] strip_prefix_length [OF b] show ?thesis
    by simp
qed

lemma match_at_length:
  "match_at k s = Some (g, rest) \<Longrightarrow> length rest < length s"
proof (cases k)
  case Each
  assume "match_at k s = Some (g, rest)"
  with Each show ?thesis
    by (auto simp: each_match_def split: option.splits
             dest!: block_header_length split_at_first_length)
next
  case If
  assume "match_at k s = Some (g, rest)"
  with If show ?thesis
    by (auto simp: if_match_def split: option.splits
             dest!: block_header_length if_body_length)
next
  case Var
  assume a: "match_at k s = Some (g, rest)"
  with Var obtain c r where r: "strip_prefix ''{{'' s = Some (c # r)"
    and b: "strip_prefix ''}}'' (dropWhile (\<lambda>x. x \<noteq> CHR ''}'') r) = Some rest"
    by (auto simp: var_match_def split: option.splits list.splits if_splits)
  have "length (dropWhile (\<lambda>x. x \<noteq> CHR ''}'') r) \<le> length r"
    by (rule length_dropWhile_le)
  with strip_prefix_length [OF r] strip_prefix_length [OF b] show ?thesis
    by simp
qed

text \<open>
  \<^verbatim>\<open>text.replace(/pattern/g, callback)\<close> scans from the left: where the pattern matches,
  the match is handed to the callback and the scan goes on behind it; elsewhere the
  character is kept. \<open>pieces\<close> is that scan: kept characters and matches, in order.
\<close>

function pieces :: "directive \<Rightarrow> string \<Rightarrow> (char + groups) list" where
  "pieces k [] = []"
| "pieces k (c # cs) =
     (case match_at k (c # cs) of
        Some (g, rest) \<Rightarrow> Inr g # pieces k rest
      | None \<Rightarrow> Inl c # pieces k cs)"
  by pat_completeness auto
termination
  by (relation "measure (\<lambda>(k, s). length s)") (auto dest: match_at_length)

text \<open>
  The text that replaces the scanned one: the callback's result for every match. An
  exception in a callback ends the replacement.
\<close>

fun replaced :: "(groups \<Rightarrow> abort + string) \<Rightarrow> (char + groups) list \<Rightarrow> abort + string" where
  "replaced callback [] = Inr []"
| "replaced callback (Inl c # ps) =
     (case replaced callback ps of Inl a \<Rightarrow> Inl a | Inr out \<Rightarrow> Inr (c # out))"
| "replaced callback (Inr g # ps) =
     (case callback g of
        Inl a \<Rightarrow> Inl a
      | Inr text \<Rightarrow>
          (case replaced callback ps of Inl a \<Rightarrow> Inl a | Inr out \<Rightarrow> Inr (text @ out)))"

subsection \<open>processEachBlocks\<close>

text \<open>
  \<^verbatim>\<open>items.indexOf(item)\<close> for the item at position \<open>i\<close>: the first position whose element
  is strictly equal to the item, which is \<open>i\<close> itself at the latest.
\<close>

fun first_equal :: "jsval list \<Rightarrow> jsval \<Rightarrow> nat \<Rightarrow> nat \<Rightarrow> abort + nat" where
  "first_equal [] item j i = Inr i"
| "first_equal (y # ys) item j i =
     (case strict_equals y item of
        Some True \<Rightarrow> Inr j
      | Some False \<Rightarrow> first_equal ys item (Suc j) i
      | None \<Rightarrow> Inl Unmodelled)"

definition indexOf_item :: "jsval list \<Rightarrow> nat \<Rightarrow> abort + nat" where
  "indexOf_item items i = first_equal (take i items) (items ! i) 0 i"

text \<open>\<^verbatim>\<open>{ ...item, _parent: data, _index: items.indexOf(item) }\<close> for the item at position \<open>i\<close>.\<close>

definition child_context :: "jsval \<Rightarrow> jsval list \<Rightarrow> nat \<Rightarrow> abort + jsval" where
  "child_context data items i =
     (case indexOf_item items i of
        Inl a \<Rightarrow> Inl a
      | Inr j \<Rightarrow>
          Inr (JObj (set_prop ''_index'' (JNum (int j))
                      (set_prop ''_parent'' data
                        (spread_over [] (own_entries (items ! i)))))))"

text \<open>
  The callback of \<^verbatim>\<open>processEachBlocks\<close>; \<open>recur\<close> stands for the call of
  \<^verbatim>\<open>processTemplate\<close>.
\<close>

fun each_callback ::
  "(string \<Rightarrow> jsval \<Rightarrow> abort + string) \<Rightarrow> jsval \<Rightarrow> groups \<Rightarrow> abort + string" where
  "each_callback recur data (itemsPath, blockContent, unused) =
     (case getNestedValue data (trim itemsPath) of
        Inl a \<Rightarrow> Inl a
      | Inr (JArr items) \<Rightarrow>
          (case collect (map (\<lambda>i. case child_context data items i of
                                     Inl a \<Rightarrow> Inl a
                                   | Inr ctx \<Rightarrow> recur blockContent ctx)
                             [0..<length items]) of
             Inl a \<Rightarrow> Inl a
           | Inr outs \<Rightarrow> Inr (concat outs))
      | Inr other \<Rightarrow> Inr [])"

definition processEachBlocks ::
  "(string \<Rightarrow> jsval \<Rightarrow> abort + string) \<Rightarrow> string \<Rightarrow> jsval \<Rightarrow> abort + string" where
  "processEachBlocks recur template data =
     replaced (each_callback recur data) (pieces Each template)"

subsection \<open>processIfBlocks\<close>

text \<open>\<^verbatim>\<open>getNestedValue(data, x) || x\<close>\<close>

definition operand :: "jsval \<Rightarrow> string \<Rightarrow> abort + jsval" where
  "operand data x =
     (case getNestedValue data x of
        Inl a \<Rightarrow> Inl a
      | Inr v \<Rightarrow> Inr (js_or v (JStr x)))"

text \<open>\<^verbatim>\<open>!!getNestedValue(data, path)\<close>\<close>

definition path_truthy :: "jsval \<Rightarrow> string \<Rightarrow> abort + bool" where
  "path_truthy data path =
     (case getNestedValue data path of Inl a \<Rightarrow> Inl a | Inr v \<Rightarrow> Inr (truthy v))"

text \<open>
  The value of \<^verbatim>\<open>result\<close> at the end of the callback of \<^verbatim>\<open>processIfBlocks\<close>. A condition
  with a space (U+0020) in it is split at white space; with fewer than three parts
  \<^verbatim>\<open>right\<close> is \<^verbatim>\<open>undefined\<close>, \<^verbatim>\<open>getNestedValue(data, right)\<close> raises a \<^verbatim>\<open>TypeError\<close>, and
  the \<^verbatim>\<open>catch\<close> leaves \<^verbatim>\<open>result = false\<close>.
\<close>

definition compare :: "string \<Rightarrow> string \<Rightarrow> jsval \<Rightarrow> jsval \<Rightarrow> jsval \<Rightarrow> abort + bool" where
  "compare operator trimmed data leftValue rightValue =
     (if operator = ''=='' then modelled (loose_equals leftValue rightValue)
      else if operator = ''==='' then modelled (strict_equals leftValue rightValue)
      else if operator = ''!='' then modelled (map_option Not (loose_equals leftValue rightValue))
      else if operator = ''!=='' then modelled (map_option Not (strict_equals leftValue rightValue))
      else path_truthy data trimmed)"

definition eval_condition :: "jsval \<Rightarrow> string \<Rightarrow> abort + bool" where
  "eval_condition data condition =
     (if CHR '' '' \<notin> set (trim condition) then path_truthy data (trim condition)
      else (case split_spaces (trim condition) of
              left # operator # right # others \<Rightarrow>
                (case operand data left of
                   Inl a \<Rightarrow> Inl a
                 | Inr leftValue \<Rightarrow>
                     (case operand data right of
                        Inl a \<Rightarrow> Inl a
                      | Inr rightValue \<Rightarrow>
                          compare operator (trim condition) data leftValue rightValue))
            | fewer \<Rightarrow> Inr False))"

fun if_callback ::
  "(string \<Rightarrow> jsval \<Rightarrow> abort + string) \<Rightarrow> jsval \<Rightarrow> groups \<Rightarrow> abort + string" where
  "if_callback recur data (condition, ifContent, elseContent) =
     (case eval_condition data condition of
        Inl a \<Rightarrow> Inl a
      | Inr result \<Rightarrow>
          (if result then recur ifContent data
           else recur (case elseContent of Some e \<Rightarrow> e | None \<Rightarrow> []) data))"

definition processIfBlocks ::
  "(string \<Rightarrow> jsval \<Rightarrow> abort + string) \<Rightarrow> string \<Rightarrow> jsval \<Rightarrow> abort + string" where
  "processIfBlocks recur template data =
     replaced (if_callback recur data) (pieces If template)"

subsection \<open>processTemplate\<close>

text \<open>The callback of the variable replacement.\<close>

fun var_callback :: "jsval \<Rightarrow> groups \<Rightarrow> abort + string" where
  "var_callback data (key, unused) =
     (case getNestedValue data (trim key) of
        Inl a \<Rightarrow> Inl a
      | Inr JUndef \<Rightarrow> Inr []
      | Inr (JFun result) \<Rightarrow> js_to_string result
      | Inr v \<Rightarrow> js_to_string v)"

definition replace_variables :: "string \<Rightarrow> jsval \<Rightarrow> abort + string" where
  "replace_variables processed data = replaced (var_callback data) (pieces Var processed)"

text \<open>
  \<^verbatim>\<open>processTemplate\<close> calls itself from the callbacks of the two block passes, on texts
  that the data can supply, so the nesting of these calls has no bound in the template. The
  first argument bounds it: it is the number of nested calls the stack of the runtime
  still has room for, and the call that finds no room raises the runtime's \<^verbatim>\<open>RangeError\<close>.
\<close>

definition RangeError :: exn where
  "RangeError = Exn ''RangeError''"

fun processTemplate :: "nat \<Rightarrow> string \<Rightarrow> jsval \<Rightarrow> abort + string" where
  "processTemplate 0 template data = Inl (Throws RangeError)"
| "processTemplate (Suc depth) template data =
     (if template = [] then Inr []
      else (case processEachBlocks (processTemplate depth) template data of
              Inl a \<Rightarrow> Inl a
            | Inr eachDone \<Rightarrow>
                (case processIfBlocks (processTemplate depth) eachDone data of
                   Inl a \<Rightarrow> Inl a
                 | Inr ifDone \<Rightarrow> replace_variables ifDone data)))"

subsection \<open>Notions used in the statements about the directive language\<close>

text \<open>No directive pattern matches anywhere in a text.\<close>

fun no_match :: "directive \<Rightarrow> string \<Rightarrow> bool" where
  "no_match k [] = True"
| "no_match k (c # cs) = (match_at k (c # cs) = None \<and> no_match k cs)"

definition directive_free :: "string \<Rightarrow> bool" where
  "directive_free s = (no_match Each s \<and> no_match If s \<and> no_match Var s)"

text \<open>A delimiter occurs in a text.\<close>

definition occurs_in :: "string \<Rightarrow> string \<Rightarrow> bool" where
  "occurs_in d s = (split_at_first d s \<noteq> None)"

text \<open>A context in which the value of one variable is the text of another variable.\<close>

definition nested_value_context :: jsval where
  "nested_value_context = JObj [(''a'', JStr ''{{b}}''), (''b'', JStr ''X'')]"

text \<open>
  The condition of a conditional directive as the specification words it: without white
  space, the truthiness of the resolved path; with white space, \<open>left operator right\<close> with
  one of the four operators, each operand resolved as a path and replaced by its literal
  text only when the resolution yields nothing; anything else is false. It is compared
  with \<open>eval_condition\<close>, which follows the source.
\<close>

definition stated_operand :: "jsval \<Rightarrow> string \<Rightarrow> abort + jsval" where
  "stated_operand data x =
     (case getNestedValue data x of
        Inl a \<Rightarrow> Inl a
      | Inr v \<Rightarrow> Inr (if v = JUndef then JStr x else v))"

definition stated_condition :: "jsval \<Rightarrow> string \<Rightarrow> abort + bool" where
  "stated_condition data condition =
     (if \<not> list_ex is_space (trim condition) then path_truthy data (trim condition)
      else (case split_spaces (trim condition) of
              [left, operator, right] \<Rightarrow>
                (if operator \<in> set [''=='', ''==='', ''!='', ''!==''] then
                   (case stated_operand data left of
                      Inl a \<Rightarrow> Inl a
                    | Inr leftValue \<Rightarrow>
                        (case stated_operand data right of
                           Inl a \<Rightarrow> Inl a
                         | Inr rightValue \<Rightarrow>
                             compare operator (trim condition) data leftValue rightValue))
                 else Inr False)
            | malformed \<Rightarrow> Inr False))"

text \<open>A context with two counters at zero.\<close>

definition zero_context :: jsval where
  "zero_context = JObj [(''n'', JNum 0), (''z'', JNum 0)]"

text \<open>
  One of the delimiters \<open>ds\<close> starts at a position inside a text, when the text is followed
  by \<open>following\<close>.
\<close>

fun starts_inside :: "string list \<Rightarrow> string \<Rightarrow> string \<Rightarrow> bool" where
  "starts_inside ds [] following = False"
| "starts_inside ds (x # xs) following =
     (list_ex (\<lambda>d. strip_prefix d (x # xs @ following) \<noteq> None) ds
      \<or> starts_inside ds xs following)"

text \<open>A word: a non-empty text without white space.\<close>

definition word :: "string \<Rightarrow> bool" where
  "word w = (w \<noteq> [] \<and> \<not> list_ex is_space w)"

subsection \<open>The window of visible pages\<close>

lemma upto_3_7: "[3..7] = [3, 4, 5, 6, 7::int]"
  by (simp add: upto.simps)

text \<open>
  Claim C8. For every \<open>currentPage\<close> and \<open>totalPages\<close> the window starts at
  \<open>max 1 (currentPage - 2)\<close> and ends at \<open>min totalPages (currentPage + 2)\<close>; when that
  span covers fewer than 5 pages while more than 4 pages exist, the end is widened to
  \<open>min (start + 4) totalPages\<close> if the start is page 1, otherwise the start is widened to
  \<open>max (end - 4) 1\<close> if the end is the last page. \<open>showFirst\<close> holds exactly when page 1
  lies before the window and \<open>showLast\<close> exactly when the last page lies after it; each
  ellipsis flag holds exactly when the gap to that boundary is more than one page. For a
  page of the collection (\<open>1 \<le> currentPage \<le> totalPages\<close>) this is the same as page 1,
  respectively the last page, not being among the linked pages, and with more than 4 pages
  the window holds exactly 5. For \<open>currentPage = 5\<close>, \<open>totalPages = 10\<close> the pages are
  \<open>[3,4,5,6,7]\<close> and all four flags are true.
\<close>

theorem calculatePagination_window:
  fixes currentPage totalPages :: int
  shows
  "(let p = calculatePagination currentPage totalPages defaultRange;
        s0 = max 1 (currentPage - 2);
        e0 = min totalPages (currentPage + 2);
        few = (e0 - s0 + 1 < 5 \<and> 4 < totalPages)
    in startPage p = (if few \<and> s0 \<noteq> 1 \<and> e0 = totalPages then max (e0 - 4) 1 else s0)
     \<and> endPage p = (if few \<and> s0 = 1 then min (s0 + 4) totalPages else e0)
     \<and> (showFirst p \<longleftrightarrow> 1 < startPage p)
     \<and> (showLast p \<longleftrightarrow> endPage p < totalPages)
     \<and> (showFirstEllipsis p \<longleftrightarrow> 1 < startPage p - 1)
     \<and> (showLastEllipsis p \<longleftrightarrow> 1 < totalPages - endPage p)
     \<and> (1 \<le> currentPage \<and> currentPage \<le> totalPages \<longrightarrow>
          (showFirst p \<longleftrightarrow> 1 \<notin> set (visiblePages p))
        \<and> (showLast p \<longleftrightarrow> totalPages \<notin> set (visiblePages p))
        \<and> (4 < totalPages \<longrightarrow> endPage p - startPage p = 4)))
   \<and> visiblePages (calculatePagination 5 10 defaultRange) = [3, 4, 5, 6, 7]
   \<and> showFirst (calculatePagination 5 10 defaultRange)
   \<and> showFirstEllipsis (calculatePagination 5 10 defaultRange)
   \<and> showLast (calculatePagination 5 10 defaultRange)
   \<and> showLastEllipsis (calculatePagination 5 10 defaultRange)"
  unfolding calculatePagination_def defaultRange_def visiblePages_def Let_def
  by (simp add: upto_3_7) auto

theorem calculatePagination_window_witness:
  "(1::int) \<le> 2 \<and> (2::int) \<le> 7
   \<and> startPage (calculatePagination 2 7 defaultRange) = 1
   \<and> endPage (calculatePagination 2 7 defaultRange) = 5
   \<and> \<not> showFirst (calculatePagination 2 7 defaultRange)
   \<and> 1 \<in> set (visiblePages (calculatePagination 2 7 defaultRange))
   \<and> showLast (calculatePagination 2 7 defaultRange)
   \<and> 7 \<notin> set (visiblePages (calculatePagination 2 7 defaultRange))"
  using calculatePagination_window [of 2 7]
  by (simp add: calculatePagination_def defaultRange_def visiblePages_def Let_def)


section \<open>Properties of the content pipeline\<close>

subsection \<open>Objects\<close>

lemma array_index_name:
  "hd k \<notin> set ''0123456789'' \<Longrightarrow> array_index k = None"
proof (cases k)
  case Nil
  then show ?thesis
    by (simp add: array_index_def)
next
  case (Cons c cs)
  assume "hd k \<notin> set ''0123456789''"
  with Cons have "\<not> (\<forall>x \<in> set k. x \<in> set ''0123456789'')"
    by auto
  then show ?thesis
    unfolding array_index_def by (simp only: simp_thms if_False)
qed

text \<open>A key that does not start with a digit is written in place or at the end.\<close>

lemma set_prop_name:
  "hd k \<notin> set ''0123456789'' \<Longrightarrow> set_prop k v fs = AList.update k v fs"
  by (simp add: set_prop_def array_index_name)

lemma map_of_insert_index:
  "map_of fs k = None \<Longrightarrow>
   map_of (insert_index i k v fs) x = (if x = k then Some v else map_of fs x)"
  by (induction fs) (auto split: option.splits if_splits)

lemma keys_insert_index:
  "set (map fst (insert_index i k v fs)) = insert k (set (map fst fs))"
proof (induction fs)
  case Nil
  then show ?case by simp
next
  case (Cons a fs)
  obtain k' v' where a: "a = (k', v')" by (cases a)
  show ?case
  proof (cases "array_index k'")
    case None
    then show ?thesis
      by (simp add: a insert_commute)
  next
    case (Some j)
    show ?thesis
    proof (cases "j < i")
      case True
      with Some Cons.IH show ?thesis
        by (simp add: a insert_commute)
    next
      case False
      with Some show ?thesis
        by (simp add: a insert_commute)
    qed
  qed
qed

lemma distinct_insert_index:
  "map_of fs k = None \<Longrightarrow> distinct (map fst fs) \<Longrightarrow> distinct (map fst (insert_index i k v fs))"
proof (induction fs)
  case Nil
  then show ?case by simp
next
  case (Cons a fs)
  obtain k' v' where a: "a = (k', v')" by (cases a)
  from Cons.prems have nk: "k \<noteq> k'" and none: "map_of fs k = None"
    and d: "distinct (map fst fs)" and nk': "k' \<notin> set (map fst fs)"
    by (auto simp: a split: if_splits)
  from none have kn: "k \<notin> set (map fst fs)"
    by (simp add: map_of_eq_None_iff)
  have new: "k' \<notin> set (map fst (insert_index i k v fs))"
    using nk nk' unfolding keys_insert_index by simp
  show ?case
  proof (cases "array_index k'")
    case None
    with nk nk' kn d show ?thesis
      by (simp add: a)
  next
    case (Some j)
    show ?thesis
    proof (cases "j < i")
      case True
      with Some Cons.IH [OF none d] new show ?thesis
        by (simp add: a)
    next
      case False
      with Some nk nk' kn d show ?thesis
        by (simp add: a)
    qed
  qed
qed

lemma map_of_set_prop:
  "map_of (set_prop k v fs) x = (if x = k then Some v else map_of fs x)"
  by (simp add: set_prop_def update_conv' map_of_insert_index split: option.splits)

lemma get_prop_set_prop:
  "get_prop (set_prop k v fs) x = (if x = k then v else get_prop fs x)"
  by (simp add: get_prop_def map_of_set_prop)

lemma spread_over_Cons:
  "spread_over tgt ((k, v) # src) = spread_over (set_prop k v tgt) src"
  by (simp add: spread_over_def)

lemma spread_over_Nil: "spread_over tgt [] = tgt"
  by (simp add: spread_over_def)

lemma get_prop_spread_over:
  "distinct (map fst src) \<Longrightarrow>
   get_prop (spread_over tgt src) x =
     (case map_of src x of Some v \<Rightarrow> v | None \<Rightarrow> get_prop tgt x)"
proof (induction src arbitrary: tgt)
  case Nil
  then show ?case by (simp add: spread_over_Nil)
next
  case (Cons a src)
  obtain k v where a: "a = (k, v)" by (cases a)
  from Cons.prems have d: "distinct (map fst src)" and nk: "k \<notin> fst ` set src"
    by (simp_all add: a)
  have none: "map_of src k = None"
    using nk by (simp add: map_of_eq_None_iff)
  show ?case
    using Cons.IH [OF d, of "set_prop k v tgt"] none
    by (simp add: a spread_over_Cons get_prop_set_prop split: option.splits)
qed

lemma distinct_set_prop:
  "distinct (map fst fs) \<Longrightarrow> distinct (map fst (set_prop k v fs))"
  by (simp add: set_prop_def distinct_update distinct_insert_index split: option.splits)

subsection \<open>The batch: which documents are kept, and their order\<close>

lemma collect_Inr: "collect rs = Inr xs \<Longrightarrow> rs = map Inr xs"
proof (induction rs arbitrary: xs)
  case Nil
  then show ?case by simp
next
  case (Cons r rs)
  then show ?case
    by (cases r) (auto split: sum.splits)
qed




lemma collect_map_Inr:
  "(\<forall>x \<in> set xs. f x = Inr (g x)) \<Longrightarrow> collect (map f xs) = Inr (map g xs)"
  by (induction xs) simp_all


text \<open>
  With a valid date in January, an invalid date and a valid date in February the comparator
  calls the first two equal and the last two equal, but not the first and the last: it is
  not a consistent comparator, and the model states no order for such a list.
\<close>

lemma newest_first_inconsistent:
  "newest_first three_posts [(''date'', JStr ''2024-01-01'')] [(''date'', JStr ''2024-13-45'')] = 0
   \<and> newest_first three_posts [(''date'', JStr ''2024-13-45'')] [(''date'', JStr ''2024-02-01'')] = 0
   \<and> newest_first three_posts [(''date'', JStr ''2024-01-01'')] [(''date'', JStr ''2024-02-01'')] > 0
   \<and> sort_posts three_posts
         [[(''date'', JStr ''2024-01-01'')], [(''date'', JStr ''2024-13-45'')],
          [(''date'', JStr ''2024-02-01'')]] = Inl Unmodelled"
  by code_simp











subsection \<open>The post object: frontmatter is spread last\<close>

lemma default_date_keeps:
  assumes "default_date env filePath filename pd = Inr (l, pd')"
  shows "distinct (map fst pd) \<longrightarrow> distinct (map fst pd')"
    and "map_of pd k = Some v \<Longrightarrow> (k = ''date'' \<longrightarrow> truthy v) \<Longrightarrow> map_of pd' k = Some v"
    and "map_of pd k = None \<Longrightarrow> k \<noteq> ''date'' \<Longrightarrow> map_of pd' k = None"
  using assms
  by (auto simp: default_date_def get_prop_def map_of_set_prop distinct_set_prop
           split: if_splits sum.splits)

lemma default_title_keeps:
  assumes "default_title filename pd = (l, pd')"
  shows "distinct (map fst pd) \<longrightarrow> distinct (map fst pd')"
    and "map_of pd k = Some v \<Longrightarrow> (k = ''title'' \<longrightarrow> truthy v) \<Longrightarrow> map_of pd' k = Some v"
    and "map_of pd k = None \<Longrightarrow> k \<noteq> ''title'' \<Longrightarrow> map_of pd' k = None"
  using assms
  by (auto simp: default_title_def get_prop_def map_of_set_prop distinct_set_prop
           split: if_splits)

lemma default_author_keeps:
  shows "distinct (map fst pd) \<longrightarrow> distinct (map fst (default_author config pd))"
    and "map_of pd k = Some v \<Longrightarrow> (k = ''author'' \<longrightarrow> truthy v) \<Longrightarrow>
           map_of (default_author config pd) k = Some v"
    and "map_of pd k = None \<Longrightarrow> k \<noteq> ''author'' \<Longrightarrow> map_of (default_author config pd) k = None"
  by (auto simp: default_author_def Let_def get_prop_def map_of_set_prop distinct_set_prop
           split: if_splits)

lemma get_prop_post_object:
  "distinct (map fst postData) \<Longrightarrow>
   get_prop (post_object fileName markdownContent html readingTime showReadingTime formattedDate postData) k
     = (case map_of postData k of
          Some v \<Rightarrow> v
        | None \<Rightarrow>
            get_prop [(''file'', JStr fileName),
              (''title'', get_prop postData ''title''),
              (''date'', get_prop postData ''date''),
              (''author'', js_or (get_prop postData ''author'') (JStr [])),
              (''tags'', js_or (get_prop postData ''tags'') (JArr [])),
              (''summary'', js_or (get_prop postData ''summary'') (JStr [])),
              (''content'', JStr markdownContent),
              (''html'', JStr html),
              (''readingTime'', readingTime),
              (''showReadingTime'', showReadingTime),
              (''formattedDate'', JStr formattedDate),
              (''url'', JStr (''/posts/'' @ fileName @ ''/''))] k)"
  unfolding post_object_def by (rule get_prop_spread_over)

lemma default_date_value:
  assumes "default_date env filePath filename pd = Inr (l, pd')"
  shows "k \<noteq> ''date'' \<Longrightarrow> get_prop pd' k = get_prop pd k"
    and "truthy (get_prop pd ''date'') \<Longrightarrow> get_prop pd' ''date'' = get_prop pd ''date''"
    and "\<not> truthy (get_prop pd ''date'') \<Longrightarrow>
           \<exists>isoString. env_mtime_iso env filePath = Inr isoString
             \<and> get_prop pd' ''date'' = JStr (takeWhile (\<lambda>c. c \<noteq> CHR ''T'') isoString)"
  using assms
  by (auto simp: default_date_def get_prop_set_prop split: if_splits sum.splits)

lemma default_title_value:
  assumes "default_title filename pd = (l, pd')"
  shows "k \<noteq> ''title'' \<Longrightarrow> get_prop pd' k = get_prop pd k"
    and "\<not> truthy (get_prop pd ''title'') \<Longrightarrow>
           get_prop pd' ''title''
             = JStr (replace_char (CHR ''-'') (CHR '' '') (remove_first ''.md'' filename))"
  using assms
  by (auto simp: default_title_def get_prop_set_prop split: if_splits)

lemma default_author_value:
  shows "k \<noteq> ''author'' \<Longrightarrow> get_prop (default_author config pd) k = get_prop pd k"
    and "\<not> truthy (get_prop pd ''author'') \<Longrightarrow>
           truthy (own_prop config ''content'')
             \<and> truthy (own_prop (own_prop config ''content'') ''defaultAuthor'') \<Longrightarrow>
           map_of (default_author config pd) ''author''
             = Some (own_prop (own_prop config ''content'') ''defaultAuthor'')"
    and "\<not> (truthy (own_prop config ''content'')
             \<and> truthy (own_prop (own_prop config ''content'') ''defaultAuthor'')) \<Longrightarrow>
           default_author config pd = pd"
  by (auto simp: default_author_def Let_def get_prop_set_prop map_of_set_prop)

lemma post_object_defaulted:
  assumes "distinct (map fst postData)"
  shows "get_prop (post_object fileName markdownContent html readingTime showReadingTime
                     formattedDate postData) ''date'' = get_prop postData ''date''"
    and "get_prop (post_object fileName markdownContent html readingTime showReadingTime
                     formattedDate postData) ''title'' = get_prop postData ''title''"
    and "get_prop (post_object fileName markdownContent html readingTime showReadingTime
                     formattedDate postData) ''author''
           = (case map_of postData ''author'' of Some v \<Rightarrow> v | None \<Rightarrow> JStr [])"
  unfolding get_prop_post_object [OF assms]
  by (simp_all add: get_prop_def js_or_def split: option.splits)

text \<open>
  Claim C10, as the code has it. \<^verbatim>\<open>...postData\<close> is spread last, so every key that the
  frontmatter defines reaches the final post object with its frontmatter value: the derived
  fields \<^verbatim>\<open>file\<close>, \<^verbatim>\<open>url\<close>, \<^verbatim>\<open>html\<close>, \<^verbatim>\<open>readingTime\<close>, \<^verbatim>\<open>showReadingTime\<close>,
  \<^verbatim>\<open>formattedDate\<close>, and also \<^verbatim>\<open>content\<close>, \<^verbatim>\<open>tags\<close> and \<^verbatim>\<open>summary\<close>. Only \<^verbatim>\<open>date\<close>,
  \<^verbatim>\<open>title\<close> and \<^verbatim>\<open>author\<close> are replaced by their defaults, and only when the frontmatter
  value is falsy: the date by the day of the file's modification time, the title by the
  file name without \<^verbatim>\<open>.md\<close> and with blanks for hyphens, the author by the configured
  default author (without one the object keeps the frontmatter's own falsy value, or
  \<^verbatim>\<open>''\<close> when the frontmatter has no author). For the keys that the frontmatter does not
  define the object carries the computed values: the file name, the URL, the markdown body
  as \<^verbatim>\<open>content\<close>, the rendered HTML, the reading time, the show-reading-time setting, the
  formatted date of the post's date, and the fallbacks \<^verbatim>\<open>[]\<close> and \<^verbatim>\<open>''\<close> for \<^verbatim>\<open>tags\<close> and
  \<^verbatim>\<open>summary\<close>.
\<close>

theorem processPostFile_frontmatter_wins:
  assumes rd: "env_readFile env filePath = Inr content"
    and fm: "extractFrontmatter env content = (log0, markdownContent, data)"
    and ds: "distinct (map fst (own_entries data))"
    and res: "processPostFile env md config filePath filename = Inr (lg, Some post)"
  shows "(\<forall>k v. map_of (own_entries data) k = Some v
              \<and> (k \<in> {''date'', ''title'', ''author''} \<longrightarrow> truthy v)
            \<longrightarrow> get_prop post k = v)
       \<and> (map_of (own_entries data) ''file'' = None \<longrightarrow>
            get_prop post ''file''
              = JStr (replace_char (CHR '' '') (CHR ''_'') (remove_first ''.md'' filename)))
       \<and> (map_of (own_entries data) ''url'' = None \<longrightarrow>
            get_prop post ''url''
              = JStr (''/posts/'' @ replace_char (CHR '' '') (CHR ''_'') (remove_first ''.md'' filename)
                        @ ''/''))
       \<and> (map_of (own_entries data) ''content'' = None \<longrightarrow>
            get_prop post ''content'' = JStr markdownContent)
       \<and> (map_of (own_entries data) ''html'' = None \<longrightarrow>
            get_prop post ''html'' = JStr (snd (renderMarkdown env markdownContent)))
       \<and> (map_of (own_entries data) ''readingTime'' = None \<longrightarrow>
            Inr (get_prop post ''readingTime'')
              = map_sum id JNum (calculateReadingTime md config markdownContent))
       \<and> (map_of (own_entries data) ''showReadingTime'' = None \<longrightarrow>
            get_prop post ''showReadingTime'' = show_reading_time config)
       \<and> (map_of (own_entries data) ''tags'' = None \<longrightarrow> get_prop post ''tags'' = JArr [])
       \<and> (map_of (own_entries data) ''summary'' = None \<longrightarrow> get_prop post ''summary'' = JStr [])
       \<and> (map_of (own_entries data) ''formattedDate'' = None \<longrightarrow>
            get_prop post ''formattedDate'' = JStr (formatDate env (get_prop post ''date'')))
       \<and> (\<not> truthy (get_prop (own_entries data) ''date'') \<longrightarrow>
            (\<exists>isoString. env_mtime_iso env filePath = Inr isoString
               \<and> get_prop post ''date'' = JStr (takeWhile (\<lambda>c. c \<noteq> CHR ''T'') isoString)))
       \<and> (\<not> truthy (get_prop (own_entries data) ''title'') \<longrightarrow>
            get_prop post ''title''
              = JStr (replace_char (CHR ''-'') (CHR '' '') (remove_first ''.md'' filename)))
       \<and> (\<not> truthy (get_prop (own_entries data) ''author'') \<longrightarrow>
            get_prop post ''author''
              = (if truthy (own_prop config ''content'')
                    \<and> truthy (own_prop (own_prop config ''content'') ''defaultAuthor'')
                 then own_prop (own_prop config ''content'') ''defaultAuthor''
                 else (case map_of (own_entries data) ''author'' of
                         Some v \<Rightarrow> v
                       | None \<Rightarrow> JStr [])))"
proof -
  from res rd fm obtain log1 pd1 log2 pd2 log3 html rt where
    dd: "default_date env filePath filename (own_entries data) = Inr (log1, pd1)"
    and dt: "default_title filename pd1 = (log2, pd2)"
    and rm: "renderMarkdown env markdownContent = (log3, html)"
    and crt: "calculateReadingTime md config markdownContent = Inr rt"
    and post: "post = post_object (replace_char (CHR '' '') (CHR ''_'') (remove_first ''.md'' filename))
                 markdownContent html (JNum rt) (show_reading_time config)
                 (formatDate env (get_prop (default_author config pd2) ''date''))
                 (default_author config pd2)"
    by (auto simp: processPostFile_def Let_def split: sum.splits prod.splits)
  let ?pd = "default_author config pd2"
  have dist: "distinct (map fst ?pd)"
    using ds default_date_keeps(1) [OF dd] default_title_keeps(1) [OF dt]
      default_author_keeps(1) [of pd2 config] by blast
  have keep: "map_of ?pd k = Some v"
    if "map_of (own_entries data) k = Some v"
      and "k \<in> {''date'', ''title'', ''author''} \<longrightarrow> truthy v" for k v
  proof -
    have "map_of pd1 k = Some v"
      using default_date_keeps(2) [OF dd that(1)] that(2) by blast
    then have "map_of pd2 k = Some v"
      using default_title_keeps(2) [OF dt] that(2) by blast
    then show ?thesis
      using default_author_keeps(2) that(2) by blast
  qed
  have absent: "map_of ?pd k = None"
    if "map_of (own_entries data) k = None"
      and "k \<notin> {''date'', ''title'', ''author''}" for k
  proof -
    have "map_of pd1 k = None"
      using default_date_keeps(3) [OF dd that(1)] that(2) by blast
    then have "map_of pd2 k = None"
      using default_title_keeps(3) [OF dt] that(2) by blast
    then show ?thesis
      using default_author_keeps(3) that(2) by blast
  qed
  have a: "get_prop post k = v"
    if "map_of (own_entries data) k = Some v"
      and "k \<in> {''date'', ''title'', ''author''} \<longrightarrow> truthy v" for k v
    using keep [OF that] by (simp add: post get_prop_post_object [OF dist])
  have b: "get_prop post k =
      get_prop [(''file'', JStr (replace_char (CHR '' '') (CHR ''_'') (remove_first ''.md'' filename))),
              (''title'', get_prop ?pd ''title''),
              (''date'', get_prop ?pd ''date''),
              (''author'', js_or (get_prop ?pd ''author'') (JStr [])),
              (''tags'', js_or (get_prop ?pd ''tags'') (JArr [])),
              (''summary'', js_or (get_prop ?pd ''summary'') (JStr [])),
              (''content'', JStr markdownContent),
              (''html'', JStr html),
              (''readingTime'', JNum rt),
              (''showReadingTime'', show_reading_time config),
              (''formattedDate'', JStr (formatDate env (get_prop ?pd ''date''))),
              (''url'', JStr (''/posts/'' @ replace_char (CHR '' '') (CHR ''_'')
                                 (remove_first ''.md'' filename) @ ''/''))] k"
    if "map_of (own_entries data) k = None"
      and "k \<notin> {''date'', ''title'', ''author''}" for k
    using absent [OF that] by (simp add: post get_prop_post_object [OF dist])
  have tags: "get_prop ?pd ''tags'' = JUndef" if "map_of (own_entries data) ''tags'' = None"
    using absent [OF that] by (simp add: get_prop_def)
  have summary: "get_prop ?pd ''summary'' = JUndef" if "map_of (own_entries data) ''summary'' = None"
    using absent [OF that] by (simp add: get_prop_def)
  have c1: "map_of (own_entries data) ''file'' = None \<longrightarrow>
            get_prop post ''file''
              = JStr (replace_char (CHR '' '') (CHR ''_'') (remove_first ''.md'' filename))"
    using b [of "''file''"] by (simp add: get_prop_def)
  have c2: "map_of (own_entries data) ''url'' = None \<longrightarrow>
            get_prop post ''url''
              = JStr (''/posts/'' @ replace_char (CHR '' '') (CHR ''_'') (remove_first ''.md'' filename)
                        @ ''/'')"
    using b [of "''url''"] by (simp add: get_prop_def)
  have c3: "map_of (own_entries data) ''content'' = None \<longrightarrow>
            get_prop post ''content'' = JStr markdownContent"
    using b [of "''content''"] by (simp add: get_prop_def)
  have c4: "map_of (own_entries data) ''html'' = None \<longrightarrow>
            get_prop post ''html'' = JStr (snd (renderMarkdown env markdownContent))"
    using b [of "''html''"] by (simp add: get_prop_def rm)
  have c5: "map_of (own_entries data) ''readingTime'' = None \<longrightarrow>
            Inr (get_prop post ''readingTime'')
              = map_sum id JNum (calculateReadingTime md config markdownContent)"
    using b [of "''readingTime''"] by (simp add: get_prop_def crt)
  have c6: "map_of (own_entries data) ''showReadingTime'' = None \<longrightarrow>
            get_prop post ''showReadingTime'' = show_reading_time config"
    using b [of "''showReadingTime''"] by (simp add: get_prop_def)
  have c7: "map_of (own_entries data) ''tags'' = None \<longrightarrow> get_prop post ''tags'' = JArr []"
    using b [of "''tags''"] tags by (simp add: get_prop_def js_or_def)
  have c8: "map_of (own_entries data) ''summary'' = None \<longrightarrow> get_prop post ''summary'' = JStr []"
    using b [of "''summary''"] summary by (simp add: get_prop_def js_or_def)
  have a': "\<forall>k v. map_of (own_entries data) k = Some v
              \<and> (k \<in> {''date'', ''title'', ''author''} \<longrightarrow> truthy v)
            \<longrightarrow> get_prop post k = v"
    using a by blast
  have pdate: "get_prop post ''date'' = get_prop ?pd ''date''"
    and ptitle: "get_prop post ''title'' = get_prop ?pd ''title''"
    and pauthor: "get_prop post ''author''
                    = (case map_of ?pd ''author'' of Some v \<Rightarrow> v | None \<Rightarrow> JStr [])"
    unfolding post by (rule post_object_defaulted [OF dist])+
  have date1: "get_prop ?pd ''date'' = get_prop pd1 ''date''"
    by (simp add: default_author_value(1) default_title_value(1) [OF dt])
  have title2: "get_prop ?pd ''title'' = get_prop pd2 ''title''"
    by (simp add: default_author_value(1))
  have title1: "get_prop pd1 ''title'' = get_prop (own_entries data) ''title''"
    by (simp add: default_date_value(1) [OF dd])
  have author2: "get_prop pd2 ''author'' = get_prop (own_entries data) ''author''"
    and mauthor2: "map_of pd2 ''author'' = map_of (own_entries data) ''author''"
  proof -
    show "get_prop pd2 ''author'' = get_prop (own_entries data) ''author''"
      by (simp add: default_title_value(1) [OF dt] default_date_value(1) [OF dd])
    show "map_of pd2 ''author'' = map_of (own_entries data) ''author''"
    proof (cases "map_of (own_entries data) ''author''")
      case None
      then have "map_of pd1 ''author'' = None"
        using default_date_keeps(3) [OF dd] by simp
      then have "map_of pd2 ''author'' = None"
        using default_title_keeps(3) [OF dt] by simp
      with None show ?thesis by simp
    next
      case (Some v)
      then have "map_of pd1 ''author'' = Some v"
        using default_date_keeps(2) [OF dd] by simp
      then have "map_of pd2 ''author'' = Some v"
        using default_title_keeps(2) [OF dt] by simp
      with Some show ?thesis by simp
    qed
  qed
  have c9: "map_of (own_entries data) ''formattedDate'' = None \<longrightarrow>
            get_prop post ''formattedDate'' = JStr (formatDate env (get_prop post ''date''))"
    using b [of "''formattedDate''"] unfolding pdate by (simp add: get_prop_def)
  have c10: "\<not> truthy (get_prop (own_entries data) ''date'') \<longrightarrow>
            (\<exists>isoString. env_mtime_iso env filePath = Inr isoString
               \<and> get_prop post ''date'' = JStr (takeWhile (\<lambda>c. c \<noteq> CHR ''T'') isoString))"
    using default_date_value(3) [OF dd] by (simp add: pdate date1)
  have c11: "\<not> truthy (get_prop (own_entries data) ''title'') \<longrightarrow>
            get_prop post ''title''
              = JStr (replace_char (CHR ''-'') (CHR '' '') (remove_first ''.md'' filename))"
    using default_title_value(2) [OF dt] by (simp add: ptitle title2 title1)
  have c12: "\<not> truthy (get_prop (own_entries data) ''author'') \<longrightarrow>
            get_prop post ''author''
              = (if truthy (own_prop config ''content'')
                    \<and> truthy (own_prop (own_prop config ''content'') ''defaultAuthor'')
                 then own_prop (own_prop config ''content'') ''defaultAuthor''
                 else (case map_of (own_entries data) ''author'' of
                         Some v \<Rightarrow> v
                       | None \<Rightarrow> JStr []))"
  proof
    assume na: "\<not> truthy (get_prop (own_entries data) ''author'')"
    then have na2: "\<not> truthy (get_prop pd2 ''author'')"
      by (simp add: author2)
    show "get_prop post ''author''
              = (if truthy (own_prop config ''content'')
                    \<and> truthy (own_prop (own_prop config ''content'') ''defaultAuthor'')
                 then own_prop (own_prop config ''content'') ''defaultAuthor''
                 else (case map_of (own_entries data) ''author'' of
                         Some v \<Rightarrow> v
                       | None \<Rightarrow> JStr []))"
    proof (cases "truthy (own_prop config ''content'')
                    \<and> truthy (own_prop (own_prop config ''content'') ''defaultAuthor'')")
      case True
      from default_author_value(2) [OF na2 True] True show ?thesis
        by (simp add: pauthor)
    next
      case False
      have "default_author config pd2 = pd2"
        by (rule default_author_value(3) [OF False])
      then have "get_prop post ''author''
                   = (case map_of (own_entries data) ''author'' of Some v \<Rightarrow> v | None \<Rightarrow> JStr [])"
        by (simp add: pauthor mauthor2)
      with False show ?thesis
        by (simp only: if_False)
    qed
  qed
  show ?thesis
    by (intro conjI a' c1 c2 c3 c4 c5 c6 c7 c8 c9 c10 c11 c12)
qed

theorem processPostFile_frontmatter_wins_witness:
  "env_readFile content_key_post ''content/posts/a.md'' = Inr ''text''
   \<and> distinct (map fst (own_entries (snd (snd (extractFrontmatter content_key_post ''text'')))))
   \<and> \<not> isl (processPostFile content_key_post DEFAULT_MD_CONFIG sample_config
               ''content/posts/a.md'' ''a.md'')
   \<and> get_prop (the (snd (projr (processPostFile content_key_post DEFAULT_MD_CONFIG sample_config
               ''content/posts/a.md'' ''a.md'')))) ''content'' = JStr ''from frontmatter''
   \<and> get_prop (the (snd (projr (processPostFile content_key_post DEFAULT_MD_CONFIG sample_config
               ''content/posts/a.md'' ''a.md'')))) ''html'' = JStr ''<p>Body</p>''
   \<and> get_prop (the (snd (projr (processPostFile content_key_post DEFAULT_MD_CONFIG sample_config
               ''content/posts/a.md'' ''a.md'')))) ''formattedDate'' = JStr ''2024-01-01''
   \<and> get_prop (the (snd (projr (processPostFile content_key_post DEFAULT_MD_CONFIG sample_config
               ''content/posts/a.md'' ''a.md'')))) ''author'' = JStr []"
proof -
  let ?data = "JObj [(''title'', JStr ''T''), (''date'', JStr ''2024-01-01''),
             (''content'', JStr ''from frontmatter''), (''tags'', JNull), (''url'', JStr ''/x/'')]"
  let ?r = "processPostFile content_key_post DEFAULT_MD_CONFIG sample_config
               ''content/posts/a.md'' ''a.md''"
  have rd: "env_readFile content_key_post ''content/posts/a.md'' = Inr ''text''"
    by code_simp
  have fm: "extractFrontmatter content_key_post ''text'' = ([], ''Body'', ?data)"
    by code_simp
  have ds: "distinct (map fst (own_entries ?data))"
    by simp
  have ok: "\<not> isl ?r"
    by code_simp
  have res: "?r = Inr (fst (projr ?r), Some (the (snd (projr ?r))))"
    by code_simp
  note t = processPostFile_frontmatter_wins [OF rd fm ds res]
  from t have t1: "\<forall>k v. map_of (own_entries ?data) k = Some v
              \<and> (k \<in> {''date'', ''title'', ''author''} \<longrightarrow> truthy v)
            \<longrightarrow> get_prop (the (snd (projr ?r))) k = v"
    by (rule conjunct1)
  have c: "get_prop (the (snd (projr ?r))) ''content'' = JStr ''from frontmatter''"
    using t1 [rule_format, of "''content''" "JStr ''from frontmatter''"] by simp
  from t have t5: "map_of (own_entries ?data) ''html'' = None \<longrightarrow>
            get_prop (the (snd (projr ?r))) ''html'' = JStr (snd (renderMarkdown content_key_post ''Body''))"
    by (elim conjE)
  have rm: "snd (renderMarkdown content_key_post ''Body'') = ''<p>Body</p>''"
    by code_simp
  have h: "get_prop (the (snd (projr ?r))) ''html'' = JStr ''<p>Body</p>''"
    using t5 rm by simp
  have d: "get_prop (the (snd (projr ?r))) ''date'' = JStr ''2024-01-01''"
    using t1 [rule_format, of "''date''" "JStr ''2024-01-01''"] by simp
  from t have t9: "map_of (own_entries ?data) ''formattedDate'' = None \<longrightarrow>
            get_prop (the (snd (projr ?r))) ''formattedDate''
              = JStr (formatDate content_key_post (get_prop (the (snd (projr ?r))) ''date''))"
    by (elim conjE)
  have fd: "formatDate content_key_post (JStr ''2024-01-01'') = ''2024-01-01''"
    by code_simp
  have f: "get_prop (the (snd (projr ?r))) ''formattedDate'' = JStr ''2024-01-01''"
    using t9 by (simp add: d fd)
  from t have t12: "\<not> truthy (get_prop (own_entries ?data) ''author'') \<longrightarrow>
            get_prop (the (snd (projr ?r))) ''author''
              = (if truthy (own_prop sample_config ''content'')
                    \<and> truthy (own_prop (own_prop sample_config ''content'') ''defaultAuthor'')
                 then own_prop (own_prop sample_config ''content'') ''defaultAuthor''
                 else (case map_of (own_entries ?data) ''author'' of
                         Some v \<Rightarrow> v
                       | None \<Rightarrow> JStr []))"
    by (elim conjE)
  have na: "\<not> truthy (own_prop (own_prop sample_config ''content'') ''defaultAuthor'')"
    by code_simp
  have au: "get_prop (the (snd (projr ?r))) ''author'' = JStr []"
    using t12 na by (simp add: get_prop_def)
  show ?thesis
    using rd ds ok c h f au by (simp only: fm snd_conv simp_thms)
qed

text \<open>
  The claim as stated fails for \<^verbatim>\<open>content\<close> and \<^verbatim>\<open>tags\<close>: a frontmatter key \<^verbatim>\<open>content\<close>
  replaces the markdown body, and \<^verbatim>\<open>tags: null\<close> replaces the fallback \<^verbatim>\<open>[]\<close>.
\<close>

theorem processPostFile_content_overridden:
  "extractFrontmatter content_key_post ''text''
     = ([], ''Body'', JObj [(''title'', JStr ''T''), (''date'', JStr ''2024-01-01''),
             (''content'', JStr ''from frontmatter''), (''tags'', JNull), (''url'', JStr ''/x/'')])
   \<and> (case processPostFile content_key_post DEFAULT_MD_CONFIG sample_config
              ''content/posts/a.md'' ''a.md'' of
        Inr (lg, Some post) \<Rightarrow>
          get_prop post ''content'' = JStr ''from frontmatter''
          \<and> get_prop post ''content'' \<noteq> JStr ''Body''
          \<and> get_prop post ''tags'' = JNull
      | _ \<Rightarrow> False)"
  by code_simp

subsection \<open>The synthesized title\<close>

text \<open>
  Claim C7, evaluated at a file named \<^verbatim>\<open>.md\<close> whose frontmatter has a date and no title.
  \<^verbatim>\<open>listFiles\<close> accepts the name (it ends with \<^verbatim>\<open>.md\<close>), the title is synthesized as
  \<^verbatim>\<open>'.md'.replace('.md', '')\<close>, and the batch returns a post whose title is the empty
  string, with the warning logged.
\<close>

theorem loadAllPosts_empty_title:
  "(case loadAllPosts dotfile_post DEFAULT_MD_CONFIG sample_config of
      Inr (lg, [post]) \<Rightarrow>
        lg = [''Warning: Missing title in .md, using normalized filename'']
        \<and> get_prop post ''title'' = JStr []
        \<and> get_prop post ''url'' = JStr ''/posts//''
    | _ \<Rightarrow> False)"
  by code_simp

section \<open>Properties of the configuration manager and the build\<close>

subsection \<open>Validation of the default configuration\<close>

lemma validateSection_JObj:
  "validateSection defaults sectionConfig (JObj fs) path =
     foldl (\<lambda>acc (key, schema).
              case acc of
                Inl a \<Rightarrow> Inl a
              | Inr (cfg, errors) \<Rightarrow>
                  if nullish cfg \<or> schema = JNull then Inl (Throws TypeError)
                  else if typeof_object schema \<and> \<not> truthy (own_prop schema ''type'') then
                    (let cfg1 = (if \<not> truthy (own_prop cfg key) then assign cfg key (JObj []) else cfg) in
                     case validateSection defaults (own_prop cfg1 key) schema
                            (if path \<noteq> [] then path @ ''.'' @ key else key) of
                       Inl a \<Rightarrow> Inl a
                     | Inr (sub, errs) \<Rightarrow> Inr (assign cfg1 key sub, errors @ errs))
                  else
                    (case validateValue (own_prop cfg key) schema
                            (if path \<noteq> [] then path @ ''.'' @ key else key) of
                       Inl a \<Rightarrow> Inl a
                     | Inr propertyErrors \<Rightarrow>
                         Inr (fill_default defaults cfg key schema path, errors @ propertyErrors)))
           (Inr (sectionConfig, [])) fs"
  by (subst validateSection.simps) simp

lemma not_index_keys:
  "index_of_key ''type'' = None" "index_of_key ''required'' = None"
  "index_of_key ''min'' = None" "index_of_key ''minLength'' = None"
  by code_simp+

lemma validateValue_primitive_schema:
  "validateValue v (JStr t) p = Inr []" "validateValue v (JBool b) p = Inr []"
  by (simp_all add: validateValue_def nullish_def not_index_keys Let_def)

lemma validateValue_string:
  "validateValue (JStr s) (leaf_schema ''string'') p = Inr []"
  by (simp add: validateValue_def leaf_schema_def nullish_def get_prop_def Let_def)

lemma validateValue_postsPerPage:
  "validateValue (JNum 10)
     (JObj [(''type'', JStr ''number''), (''required'', JBool True), (''min'', JNum 1)]) p = Inr []"
  by (simp add: validateValue_def nullish_def get_prop_def Let_def)

lemma fill_default_present:
  "\<not> nullish (own_prop cfg key) \<Longrightarrow> fill_default defaults cfg key schema path = cfg"
  by (simp add: fill_default_def)

lemma fill_default_primitive_schema:
  "fill_default defaults cfg key (JStr t) path = cfg"
  "fill_default defaults cfg key (JBool b) path = cfg"
  by (simp_all add: fill_default_def not_index_keys)

lemma leaf_schema_facts:
  "leaf_schema t \<noteq> JNull" "typeof_object (leaf_schema t)"
  "truthy (own_prop (leaf_schema t) ''type'') = (t \<noteq> [])"
  by (simp_all add: leaf_schema_def get_prop_def)

lemma validate_version:
  "validateSection defaults (JStr v) (leaf_schema ''string'') ''_version'' = Inr (JStr v, [])"
  unfolding leaf_schema_def
  by (simp add: validateSection_JObj nullish_def validateValue_primitive_schema
        fill_default_primitive_schema)

lemma validate_site:
  "validateSection defaults
     (JObj [(''title'', JStr a), (''description'', JStr b), (''language'', JStr c)])
     (JObj [(''title'', leaf_schema ''string''), (''description'', leaf_schema ''string''),
            (''language'', leaf_schema ''string'')]) ''site''
   = Inr (JObj [(''title'', JStr a), (''description'', JStr b), (''language'', JStr c)], [])"
  by (simp add: validateSection_JObj nullish_def leaf_schema_facts validateValue_string
        fill_default_present get_prop_def)

lemma validate_content:
  "validateSection defaults (JObj [(''postsPerPage'', JNum 10)])
     (JObj [(''postsPerPage'',
              JObj [(''type'', JStr ''number''), (''required'', JBool True), (''min'', JNum 1)])])
     ''content''
   = Inr (JObj [(''postsPerPage'', JNum 10)], [])"
  by (simp add: validateSection_JObj nullish_def validateValue_postsPerPage
        fill_default_present get_prop_def)

lemma validate_paths:
  "validateSection defaults
     (JObj [(''contentDir'', JStr c), (''templatesDir'', JStr t), (''outputDir'', JStr out),
            (''cssDir'', JStr css), (''postsDir'', JStr posts), (''aboutDir'', JStr about)])
     (JObj [(''contentDir'', leaf_schema ''string''), (''templatesDir'', leaf_schema ''string''),
            (''outputDir'', leaf_schema ''string''), (''cssDir'', leaf_schema ''string'')])
     ''paths''
   = Inr (JObj [(''contentDir'', JStr c), (''templatesDir'', JStr t), (''outputDir'', JStr out),
            (''cssDir'', JStr css), (''postsDir'', JStr posts), (''aboutDir'', JStr about)], [])"
  by (simp add: validateSection_JObj nullish_def leaf_schema_facts validateValue_string
        fill_default_present get_prop_def)

lemma validate_resolved_defaults:
  "validateConfig defaults (resolved_defaults c t out css posts about)
     = Inr (resolved_defaults c t out css posts about, [])"
  unfolding validateConfig_def CONFIG_SCHEMA_def resolved_defaults_def
  by (simp add: validate_version validate_site validate_content validate_paths
        get_prop_def set_prop_name CONFIG_VERSION_def)

lemma resolvePaths_strings:
  "resolvePaths env
     (JObj [(''contentDir'', JStr c), (''templatesDir'', JStr t), (''outputDir'', JStr out),
            (''cssDir'', JStr css)]) base
   = Inr (JObj [(''contentDir'', JStr (resolved_path env base True c)),
                (''templatesDir'', JStr (resolved_path env base True t)),
                (''outputDir'', JStr (resolved_path env base False out)),
                (''cssDir'', JStr (resolved_path env base True css))])"
  by (simp add: resolvePaths_def resolve_path_def resolved_path_def get_prop_def set_prop_name)

lemma override_outputDir_strings:
  "outputDir = JUndef \<or> (\<exists>p. outputDir = JStr p) \<Longrightarrow>
   override_outputDir env outputDir
     (JObj [(''contentDir'', JStr c), (''templatesDir'', JStr t), (''outputDir'', JStr out),
            (''cssDir'', JStr css)])
   = Inr (JObj [(''contentDir'', JStr c), (''templatesDir'', JStr t),
                (''outputDir'', JStr (overridden_outputDir env outputDir out)),
                (''cssDir'', JStr css)])"
  by (auto simp: override_outputDir_def overridden_outputDir_def nullish_def set_prop_name)

lemma own_entries_DEFAULT_CONFIG:
  "JObj (own_entries DEFAULT_CONFIG) = DEFAULT_CONFIG"
  by (simp add: DEFAULT_CONFIG_def)

lemma finish_config_defaults:
  assumes "outputDir = JUndef \<or> (\<exists>p. outputDir = JStr p)"
  shows "finish_config env configPath outputDir defaults DEFAULT_CONFIG
     = ([], Inr (fallback_config env configPath outputDir),
        JObj [(''contentDir'', JStr (resolved_path env (ce_dirname env configPath) True ''./blog/content'')),
              (''templatesDir'', JStr (resolved_path env (ce_dirname env configPath) True ''./blog/templates'')),
              (''outputDir'', JStr (overridden_outputDir env outputDir
                   (resolved_path env (ce_dirname env configPath) False ''./dist''))),
              (''cssDir'', JStr (resolved_path env (ce_dirname env configPath) True ''./blog/css''))])"
proof -
  have p: "own_prop DEFAULT_CONFIG ''paths''
      = JObj [(''contentDir'', JStr ''./blog/content''), (''templatesDir'', JStr ''./blog/templates''),
              (''outputDir'', JStr ''./dist''), (''cssDir'', JStr ''./blog/css'')]"
    by (simp add: DEFAULT_CONFIG_def get_prop_def)
  have a: "addDerivedProperties env
      (assign DEFAULT_CONFIG ''paths''
         (JObj [(''contentDir'', JStr c), (''templatesDir'', JStr t), (''outputDir'', JStr out),
                (''cssDir'', JStr css)]))
      = Inr (resolved_defaults c t out css (ce_join env c ''posts'') (ce_join env c ''about''))"
    for c t out css
    by (simp add: addDerivedProperties_def DEFAULT_CONFIG_def resolved_defaults_def get_prop_def
          set_prop_name Let_def)
  show ?thesis
    unfolding finish_config_def p resolvePaths_strings
    by (simp add: override_outputDir_strings [OF assms] a validate_resolved_defaults
          fallback_config_def Let_def)
qed

text \<open>
  A user configuration that owns a key \<^verbatim>\<open>hasOwnProperty\<close> makes \<^verbatim>\<open>deepMerge\<close> throw.
\<close>

lemma deepMerge_own_hasOwnProperty:
  "deepMerge DEFAULT_CONFIG (JObj [(''hasOwnProperty'', JNum 1)]) = Inl (Throws TypeError)"
  by (simp add: deepMerge.simps own_hasOwnProperty_def)

lemma merge_user_config_unloadable:
  assumes "isl (ce_readFile env configPath)
           \<or> (\<exists>text. ce_readFile env configPath = Inr text \<and> isl (ce_parse env text))"
  shows "\<exists>lg. merge_user_config env configPath DEFAULT_CONFIG = (lg, Inr (DEFAULT_CONFIG, True))
           \<and> set (using_defaults configPath) \<subseteq> set lg"
  using assms
  by (auto simp: merge_user_config_def own_entries_DEFAULT_CONFIG isl_def split: sum.splits)

lemma loadConfig_unloadable:
  assumes "isl (ce_readFile env configPath)
           \<or> (\<exists>text. ce_readFile env configPath = Inr text \<and> isl (ce_parse env text))"
    and "outputDir = JUndef \<or> (\<exists>p. outputDir = JStr p)"
    and "default_config st = DEFAULT_CONFIG"
  shows "\<exists>lg st'. loadConfig env configPath False outputDir st
             = (lg, Inr (fallback_config env configPath outputDir), st')
           \<and> set (using_defaults configPath) \<subseteq> set lg
           \<and> configCache st' = Some (fallback_config env configPath outputDir)"
proof -
  from merge_user_config_unloadable [OF assms(1)] obtain lg where
    m: "merge_user_config env configPath DEFAULT_CONFIG = (lg, Inr (DEFAULT_CONFIG, True))"
    and w: "set (using_defaults configPath) \<subseteq> set lg"
    by blast
  show ?thesis
    using w
    by (simp add: loadConfig_def assms(3) m finish_config_defaults [OF assms(2)] Let_def)
qed

subsection \<open>The tag index\<close>

text \<open>The keys of the tag index in the order of their enumeration.\<close>

lemma extractTags_key_order:
  "map_sum id (map fst)
     (extractTags [[(''file'', JStr ''a''),
                    (''tags'', JArr [JStr ''news'', JNum 2024, JStr ''blog'', JStr ''7''])]])
   = Inr [''7'', ''2024'', ''news'', ''blog'']"
  by code_simp

subsection \<open>The build: failures of page types\<close>

lemma fail_build_facts:
  "br_dispatched (fail_build env lg d errs st) = d"
  "br_error_page (fail_build env lg d errs st) \<noteq> None"
  "errs \<noteq> [] \<Longrightarrow> br_raised (fail_build env lg d errs st) \<noteq> []"
  "''Error building site:'' \<in> set (br_log (fail_build env lg d errs st))"
  "set lg \<subseteq> set (br_log (fail_build env lg d errs st))"
  "br_error_page (fail_build env lg d errs st) = Some None \<Longrightarrow>
     br_raised (fail_build env lg d errs st) = errs"
  by (auto simp: fail_build_def split: prod.splits option.splits)

lemma build_pages_reached:
  assumes "loadAllPosts (be_posts env) DEFAULT_MD_CONFIG (getConfig st) = Inr (lgP, posts)"
    and "extractTags posts = Inr tags"
  shows "build_pages env lg st =
     (if List.map_filter (\<lambda>(t, l, outcome). outcome) (dispatch_all env posts) = [] then
        \<lparr> br_log = lg @ writeCssVariables env @ lgP
                    @ concat (map (\<lambda>(t, l, outcome). l) (dispatch_all env posts)),
          br_dispatched = map (\<lambda>(t, l, outcome). (t, outcome)) (dispatch_all env posts),
          br_error_page = None, br_raised = [], br_state = st \<rparr>
      else fail_build env
             (lg @ writeCssVariables env @ lgP
                @ concat (map (\<lambda>(t, l, outcome). l) (dispatch_all env posts)))
             (map (\<lambda>(t, l, outcome). (t, outcome)) (dispatch_all env posts))
             (List.map_filter (\<lambda>(t, l, outcome). outcome) (dispatch_all env posts)) st)"
  using assms by (simp add: build_pages_def Let_def)

lemma builder_outcomes:
  "snd (generateStaticAssets env posts) = map_option Throws (be_assemble env StaticAssets posts)"
  "snd (buildHomePage env posts) = map_option Throws (be_assemble env HomePage posts)"
  "snd (buildPostPages env posts) = map_option Throws (be_assemble env PostPages posts)"
  "snd (buildTagsIndexPage env posts) = map_option Throws (be_assemble env TagsIndexPage posts)"
  "snd (buildSitemap env posts) = map_option Throws (be_assemble env Sitemap posts)"
  "snd (buildAboutPage env) = None"
  by (simp_all add: generateStaticAssets_def buildHomePage_def buildPostPages_def
        buildTagsIndexPage_def buildSitemap_def buildAboutPage_def log_and_rethrow_def
        split: option.splits)

lemma buildTagPages_outcome:
  "extractTags posts = Inr tags \<Longrightarrow>
   snd (buildTagPages env posts) =
     (case be_assemble env TagPages posts of
        Some e \<Rightarrow> Some (Throws e)
      | None \<Rightarrow> map_option Throws (be_assemble env TagsIndexPage posts))"
  by (simp add: buildTagPages_def buildTagsIndexPage_def log_and_rethrow_def
        split: option.splits prod.splits)

lemma builder_logs:
  "be_assemble env StaticAssets posts \<noteq> None \<Longrightarrow>
     fst (generateStaticAssets env posts) = [error_label StaticAssets]"
  "be_assemble env HomePage posts \<noteq> None \<Longrightarrow>
     fst (buildHomePage env posts) = [error_label HomePage]"
  "be_assemble env PostPages posts \<noteq> None \<Longrightarrow>
     fst (buildPostPages env posts) = [error_label PostPages]"
  "be_assemble env TagsIndexPage posts \<noteq> None \<Longrightarrow>
     fst (buildTagsIndexPage env posts) = [error_label TagsIndexPage]"
  "be_assemble env Sitemap posts \<noteq> None \<Longrightarrow>
     fst (buildSitemap env posts) = [error_label Sitemap]"
  "be_about_source env \<Longrightarrow> be_assemble env AboutPage [] \<noteq> None \<Longrightarrow>
     fst (buildAboutPage env) = [error_label AboutPage]"
  "be_assemble env TagPages posts \<noteq> None \<Longrightarrow>
     error_label TagPages \<in> set (fst (buildTagPages env posts))"
  by (auto simp: generateStaticAssets_def buildHomePage_def buildPostPages_def
        buildTagsIndexPage_def buildSitemap_def buildAboutPage_def buildTagPages_def
        log_and_rethrow_def error_label_def split: option.splits sum.splits prod.splits)

lemma dispatched_outcomes:
  assumes "extractTags posts = Inr tags"
  shows "map (\<lambda>(t, l, outcome). (t, outcome)) (dispatch_all env posts) =
     [(StaticAssets, map_option Throws (be_assemble env StaticAssets posts)),
      (HomePage, map_option Throws (be_assemble env HomePage posts)),
      (PostPages, map_option Throws (be_assemble env PostPages posts)),
      (TagPages, case be_assemble env TagPages posts of
                   Some e \<Rightarrow> Some (Throws e)
                 | None \<Rightarrow> map_option Throws (be_assemble env TagsIndexPage posts)),
      (TagsIndexPage, map_option Throws (be_assemble env TagsIndexPage posts)),
      (AboutPage, None),
      (Sitemap, map_option Throws (be_assemble env Sitemap posts))]"
  unfolding dispatch_all_def
  by (simp add: case_prod_beta builder_outcomes buildTagPages_outcome [OF assms])

lemma map_filter_outcomes:
  "List.map_filter (\<lambda>(t, l, outcome). outcome) xs
     = List.map_filter snd (map (\<lambda>(t, l, outcome). (t, outcome)) xs)"
  by (induction xs) (auto simp: List.map_filter_simps split: option.splits)

lemma rejections_empty:
  assumes "extractTags posts = Inr tags"
  shows "(List.map_filter (\<lambda>(t, l, outcome). outcome) (dispatch_all env posts) = [])
           = (\<forall>t \<in> set rethrowing_tasks. be_assemble env t posts = None)"
proof -
  show ?thesis
    unfolding map_filter_outcomes dispatched_outcomes [OF assms] rethrowing_tasks_def
    by (auto simp: List.map_filter_simps split: option.splits)
qed

lemma dispatch_logs:
  "t \<in> set rethrowing_tasks \<Longrightarrow> be_assemble env t posts \<noteq> None \<Longrightarrow>
     error_label t \<in> set (concat (map (\<lambda>(t, l, outcome). l) (dispatch_all env posts)))"
  "be_about_source env \<Longrightarrow> be_assemble env AboutPage [] \<noteq> None \<Longrightarrow>
     error_label AboutPage \<in> set (concat (map (\<lambda>(t, l, outcome). l) (dispatch_all env posts)))"
  using builder_logs [of env]
  by (auto simp: dispatch_all_def rethrowing_tasks_def case_prod_beta)

text \<open>
  Claim C1, as the code has it. In a build that reaches \<^verbatim>\<open>Promise.all\<close> (the configuration
  and the posts are loaded), all seven tasks are dispatched whatever fails. The about page
  never rejects: a failure while assembling it is logged and swallowed, and when nothing
  else fails the build returns normally and \<^verbatim>\<open>buildErrorPage\<close> is not called. A failure
  while assembling any other page type (listing pages, document pages, tag pages, the
  tag-index page, the sitemap, and likewise the static assets) is logged and rethrown:
  \<^verbatim>\<open>buildSite\<close> logs \<^verbatim>\<open>Error building site:\<close>, calls \<^verbatim>\<open>buildErrorPage\<close> and then throws.
\<close>

theorem buildSite_page_failures:
  assumes cfg: "loadConfig (be_config env) configPath False outputDir st = (lg0, Inr config, st1)"
    and posts: "loadAllPosts (be_posts env) DEFAULT_MD_CONFIG (getConfig st1) = Inr (lgP, posts)"
    and tags: "extractTags posts = Inr tags"
  shows "map fst (br_dispatched (buildSite env configPath outputDir st)) = page_tasks
    \<and> map_of (br_dispatched (buildSite env configPath outputDir st)) AboutPage = Some None
    \<and> (be_about_source env \<and> be_assemble env AboutPage [] \<noteq> None \<longrightarrow>
          error_label AboutPage \<in> set (br_log (buildSite env configPath outputDir st)))
    \<and> ((\<forall>t \<in> set rethrowing_tasks. be_assemble env t posts = None) \<longrightarrow>
          br_raised (buildSite env configPath outputDir st) = []
          \<and> br_error_page (buildSite env configPath outputDir st) = None)
    \<and> (\<forall>t \<in> set rethrowing_tasks. be_assemble env t posts \<noteq> None \<longrightarrow>
          error_label t \<in> set (br_log (buildSite env configPath outputDir st))
          \<and> ''Error building site:'' \<in> set (br_log (buildSite env configPath outputDir st))
          \<and> br_error_page (buildSite env configPath outputDir st) \<noteq> None
          \<and> br_raised (buildSite env configPath outputDir st) \<noteq> [])"
proof -
  let ?R = "buildSite env configPath outputDir st"
  define logs where "logs = concat (map (\<lambda>(t, l, outcome). l) (dispatch_all env posts))"
  define lg where "lg = lg0 @ writeCssVariables env @ lgP @ logs"
  define d where "d = map (\<lambda>(t, l, outcome). (t, outcome)) (dispatch_all env posts)"
  define rej where "rej = List.map_filter (\<lambda>(t, l, outcome). outcome) (dispatch_all env posts)"
  have R: "?R = (if rej = [] then
        \<lparr> br_log = lg, br_dispatched = d, br_error_page = None, br_raised = [], br_state = st1 \<rparr>
      else fail_build env lg d rej st1)"
    unfolding lg_def logs_def d_def rej_def
    using build_pages_reached [OF posts tags, of lg0] by (simp add: buildSite_def cfg)
  have rej: "(rej = []) = (\<forall>t \<in> set rethrowing_tasks. be_assemble env t posts = None)"
    unfolding rej_def by (rule rejections_empty [OF tags])
  have dd: "br_dispatched ?R = d"
    by (simp add: R fail_build_facts(1))
  have c1: "map fst (br_dispatched ?R) = page_tasks"
    unfolding dd d_def dispatched_outcomes [OF tags] by (simp add: page_tasks_def)
  have c2: "map_of (br_dispatched ?R) AboutPage = Some None"
    unfolding dd d_def dispatched_outcomes [OF tags] by simp
  have "set lg \<subseteq> set (br_log ?R)"
  proof (cases "rej = []")
    case True
    then show ?thesis by (simp add: R)
  next
    case False
    have "set lg \<subseteq> set (br_log (fail_build env lg d rej st1))"
      by (rule fail_build_facts(5))
    with False show ?thesis by (simp add: R)
  qed
  then have logs: "set logs \<subseteq> set (br_log ?R)"
    by (auto simp: lg_def)
  have c3: "be_about_source env \<and> be_assemble env AboutPage [] \<noteq> None \<longrightarrow>
          error_label AboutPage \<in> set (br_log ?R)"
  proof
    assume "be_about_source env \<and> be_assemble env AboutPage [] \<noteq> None"
    then have "error_label AboutPage \<in> set logs"
      unfolding logs_def by (intro dispatch_logs(2)) simp_all
    with logs show "error_label AboutPage \<in> set (br_log ?R)"
      by (rule subsetD)
  qed
  have c4: "(\<forall>t \<in> set rethrowing_tasks. be_assemble env t posts = None) \<longrightarrow>
          br_raised ?R = [] \<and> br_error_page ?R = None"
    unfolding rej [symmetric] by (simp add: R)
  have c5: "error_label t \<in> set (br_log ?R)
          \<and> ''Error building site:'' \<in> set (br_log ?R)
          \<and> br_error_page ?R \<noteq> None \<and> br_raised ?R \<noteq> []"
    if t: "t \<in> set rethrowing_tasks" and f: "be_assemble env t posts \<noteq> None" for t
  proof -
    from t f have nrej: "rej \<noteq> []"
      unfolding rej by auto
    then have R': "?R = fail_build env lg d rej st1"
      by (simp add: R)
    have "error_label t \<in> set logs"
      unfolding logs_def by (rule dispatch_logs(1) [OF t f])
    with logs have "error_label t \<in> set (br_log ?R)"
      by (rule subsetD)
    moreover have "''Error building site:'' \<in> set (br_log ?R)"
      unfolding R' by (rule fail_build_facts(4))
    moreover have "br_error_page ?R \<noteq> None"
      unfolding R' by (rule fail_build_facts(2))
    moreover have "br_raised ?R \<noteq> []"
      unfolding R' using nrej by (rule fail_build_facts(3))
    ultimately show ?thesis
      by (intro conjI)
  qed
  from c5 have c5': "\<forall>t \<in> set rethrowing_tasks. be_assemble env t posts \<noteq> None \<longrightarrow>
          error_label t \<in> set (br_log ?R)
          \<and> ''Error building site:'' \<in> set (br_log ?R)
          \<and> br_error_page ?R \<noteq> None \<and> br_raised ?R \<noteq> []"
    by auto
  show ?thesis
    by (intro conjI c1 c2 c3 c4 c5')
qed

theorem buildSite_page_failures_witness:
  "\<not> isl (fst (snd (loadConfig (be_config home_fails) ''/site/blog/config.json'' False JUndef
                      initial_config_state)))
   \<and> \<not> isl (loadAllPosts (be_posts home_fails) DEFAULT_MD_CONFIG
               (getConfig (snd (snd (loadConfig (be_config home_fails) ''/site/blog/config.json''
                                       False JUndef initial_config_state)))))
   \<and> HomePage \<in> set rethrowing_tasks
   \<and> map fst (br_dispatched (buildSite home_fails ''/site/blog/config.json'' JUndef
                                initial_config_state)) = page_tasks
   \<and> error_label HomePage
       \<in> set (br_log (buildSite home_fails ''/site/blog/config.json'' JUndef initial_config_state))
   \<and> br_error_page (buildSite home_fails ''/site/blog/config.json'' JUndef initial_config_state)
       \<noteq> None
   \<and> br_raised (buildSite home_fails ''/site/blog/config.json'' JUndef initial_config_state) \<noteq> []"
proof -
  let ?L = "loadConfig (be_config home_fails) ''/site/blog/config.json'' False JUndef
              initial_config_state"
  let ?P = "loadAllPosts (be_posts home_fails) DEFAULT_MD_CONFIG (getConfig (snd (snd ?L)))"
  let ?R = "buildSite home_fails ''/site/blog/config.json'' JUndef initial_config_state"
  have h1: "\<not> isl (fst (snd ?L))"
    by code_simp
  then have cfg: "?L = (fst ?L, Inr (projr (fst (snd ?L))), snd (snd ?L))"
    by (metis prod.collapse sum.collapse(2))
  have h2: "\<not> isl ?P"
    by code_simp
  then have posts: "?P = Inr (fst (projr ?P), snd (projr ?P))"
    by (metis prod.collapse sum.collapse(2))
  have h3: "\<not> isl (extractTags (snd (projr ?P)))"
    by code_simp
  then have tags: "extractTags (snd (projr ?P)) = Inr (projr (extractTags (snd (projr ?P))))"
    by simp
  have t: "HomePage \<in> set rethrowing_tasks"
    by (simp add: rethrowing_tasks_def)
  have f: "be_assemble home_fails HomePage (snd (projr ?P)) \<noteq> None"
    by (simp add: home_fails_def sample_build_def)
  note pf = buildSite_page_failures [OF cfg posts tags]
  from pf have c1: "map fst (br_dispatched ?R) = page_tasks"
    by (rule conjunct1)
  from pf have c5: "\<forall>t \<in> set rethrowing_tasks.
          be_assemble home_fails t (snd (projr ?P)) \<noteq> None \<longrightarrow>
          error_label t \<in> set (br_log ?R)
          \<and> ''Error building site:'' \<in> set (br_log ?R)
          \<and> br_error_page ?R \<noteq> None \<and> br_raised ?R \<noteq> []"
    by (elim conjE)
  from c5 t f have c5': "error_label HomePage \<in> set (br_log ?R)
          \<and> ''Error building site:'' \<in> set (br_log ?R)
          \<and> br_error_page ?R \<noteq> None \<and> br_raised ?R \<noteq> []"
    by blast
  show ?thesis
    using h1 h2 t c1 c5' by (intro conjI) blast+
qed

text \<open>
  The claim as stated fails twice. When only the about page fails, the build does not
  attempt the error page (it returns normally). When only the listing pages fail, the build
  does not run to completion: it throws that failure after emitting the error page.
\<close>

theorem buildSite_about_and_home_failures:
  "br_error_page (buildSite (sample_build no_config_file [(AboutPage, Exn ''EACCES'')])
                    ''/site/blog/config.json'' JUndef initial_config_state) = None
   \<and> br_raised (buildSite (sample_build no_config_file [(AboutPage, Exn ''EACCES'')])
                    ''/site/blog/config.json'' JUndef initial_config_state) = []
   \<and> ''Error building about page:''
       \<in> set (br_log (buildSite (sample_build no_config_file [(AboutPage, Exn ''EACCES'')])
                    ''/site/blog/config.json'' JUndef initial_config_state))
   \<and> br_raised (buildSite (sample_build no_config_file [(HomePage, Exn ''EACCES'')])
                    ''/site/blog/config.json'' JUndef initial_config_state) = [Throws (Exn ''EACCES'')]
   \<and> br_error_page (buildSite (sample_build no_config_file [(HomePage, Exn ''EACCES'')])
                    ''/site/blog/config.json'' JUndef initial_config_state) = Some None"
  by code_simp

subsection \<open>The build: a configuration that cannot be loaded\<close>

lemma merge_user_config_never_throws:
  "merge_user_config env configPath defaults \<noteq> (lg, Inl (Throws e))"
  by (auto simp: merge_user_config_def Let_def split: sum.splits abort.splits if_splits)

text \<open>
  Claim C2, as the code has it. When the configuration file cannot be read or parsed,
  \<^verbatim>\<open>loadConfig\<close> catches the failure, logs \<^verbatim>\<open>Could not load config\<close> and
  \<^verbatim>\<open>Using default configuration\<close>, and returns the built-in defaults with their paths
  resolved; \<^verbatim>\<open>buildSite\<close> goes on to build the pages with them. \<^verbatim>\<open>buildSite\<close> aborts
  exactly on an exception of \<^verbatim>\<open>loadConfig\<close> (a configuration that fails validation): no
  page type is dispatched, the failure is logged, \<^verbatim>\<open>buildErrorPage\<close> is called and
  \<^verbatim>\<open>buildSite\<close> throws.
\<close>

theorem buildSite_configuration:
  "((isl (ce_readFile (be_config env) configPath)
       \<or> (\<exists>text. ce_readFile (be_config env) configPath = Inr text
                  \<and> isl (ce_parse (be_config env) text)))
     \<and> (outputDir = JUndef \<or> (\<exists>p. outputDir = JStr p))
     \<and> default_config st = DEFAULT_CONFIG
     \<longrightarrow> (\<exists>lg st'. loadConfig (be_config env) configPath False outputDir st
                       = (lg, Inr (fallback_config (be_config env) configPath outputDir), st')
            \<and> set (using_defaults configPath) \<subseteq> set lg
            \<and> getConfig st' = fallback_config (be_config env) configPath outputDir
            \<and> buildSite env configPath outputDir st = build_pages env lg st'))
   \<and> (\<forall>lg e st'. loadConfig (be_config env) configPath False outputDir st
                       = (lg, Inl (Throws e), st')
          \<longrightarrow> br_dispatched (buildSite env configPath outputDir st) = []
              \<and> ''Error loading configuration:'' \<in> set (br_log (buildSite env configPath outputDir st))
              \<and> ''Error building site:'' \<in> set (br_log (buildSite env configPath outputDir st))
              \<and> br_error_page (buildSite env configPath outputDir st) \<noteq> None
              \<and> br_raised (buildSite env configPath outputDir st) \<noteq> [])"
proof (intro conjI impI allI)
  assume a: "(isl (ce_readFile (be_config env) configPath)
       \<or> (\<exists>text. ce_readFile (be_config env) configPath = Inr text
                  \<and> isl (ce_parse (be_config env) text)))
     \<and> (outputDir = JUndef \<or> (\<exists>p. outputDir = JStr p))
     \<and> default_config st = DEFAULT_CONFIG"
  from a have a1: "isl (ce_readFile (be_config env) configPath)
       \<or> (\<exists>text. ce_readFile (be_config env) configPath = Inr text
                  \<and> isl (ce_parse (be_config env) text))"
    and a2: "outputDir = JUndef \<or> (\<exists>p. outputDir = JStr p)"
    and a3: "default_config st = DEFAULT_CONFIG"
    by blast+
  from loadConfig_unloadable [OF a1 a2 a3] obtain lg st' where
    l: "loadConfig (be_config env) configPath False outputDir st
          = (lg, Inr (fallback_config (be_config env) configPath outputDir), st')"
    and w: "set (using_defaults configPath) \<subseteq> set lg"
    and c: "configCache st' = Some (fallback_config (be_config env) configPath outputDir)"
    by blast
  have g: "getConfig st' = fallback_config (be_config env) configPath outputDir"
    by (simp add: getConfig_def c)
  have b: "buildSite env configPath outputDir st = build_pages env lg st'"
    by (simp add: buildSite_def l)
  show "\<exists>lg st'. loadConfig (be_config env) configPath False outputDir st
                       = (lg, Inr (fallback_config (be_config env) configPath outputDir), st')
            \<and> set (using_defaults configPath) \<subseteq> set lg
            \<and> getConfig st' = fallback_config (be_config env) configPath outputDir
            \<and> buildSite env configPath outputDir st = build_pages env lg st'"
    using l w g b by blast
next
  fix lg e st'
  assume l: "loadConfig (be_config env) configPath False outputDir st = (lg, Inl (Throws e), st')"
  then have b: "buildSite env configPath outputDir st = fail_build env lg [] [Throws e] st'"
    by (simp add: buildSite_def)
  have lg: "''Error loading configuration:'' \<in> set lg"
    using l
    by (auto simp: loadConfig_def Let_def merge_user_config_never_throws
          split: prod.splits sum.splits option.splits bool.splits abort.splits)
  show "br_dispatched (buildSite env configPath outputDir st) = []"
    unfolding b by (rule fail_build_facts(1))
  show "''Error loading configuration:'' \<in> set (br_log (buildSite env configPath outputDir st))"
    unfolding b using lg fail_build_facts(5) [of lg env "[]" "[Throws e]" st'] by blast
  show "''Error building site:'' \<in> set (br_log (buildSite env configPath outputDir st))"
    unfolding b by (rule fail_build_facts(4))
  show "br_error_page (buildSite env configPath outputDir st) \<noteq> None"
    unfolding b by (rule fail_build_facts(2))
  show "br_raised (buildSite env configPath outputDir st) \<noteq> []"
    unfolding b by (rule fail_build_facts(3)) simp
qed

theorem buildSite_configuration_witness:
  "isl (ce_readFile (be_config (sample_build no_config_file [])) ''/site/blog/config.json'')
   \<and> default_config initial_config_state = DEFAULT_CONFIG
   \<and> (\<exists>lg st'. loadConfig (be_config (sample_build no_config_file [])) ''/site/blog/config.json''
                   False JUndef initial_config_state
                 = (lg, Inr (fallback_config (be_config (sample_build no_config_file []))
                               ''/site/blog/config.json'' JUndef), st')
         \<and> buildSite (sample_build no_config_file []) ''/site/blog/config.json'' JUndef
              initial_config_state
            = build_pages (sample_build no_config_file []) lg st')
   \<and> fst (snd (loadConfig (be_config (sample_build invalid_config_file []))
                  ''/site/blog/config.json'' False JUndef initial_config_state))
       = Inl (Throws (Exn ''Invalid configuration''))
   \<and> br_error_page (buildSite (sample_build invalid_config_file []) ''/site/blog/config.json''
                       JUndef initial_config_state) \<noteq> None
   \<and> br_raised (buildSite (sample_build invalid_config_file []) ''/site/blog/config.json''
                   JUndef initial_config_state) \<noteq> []"
proof -
  let ?A = "sample_build no_config_file []"
  let ?B = "sample_build invalid_config_file []"
  let ?p = "''/site/blog/config.json''"
  let ?L = "loadConfig (be_config ?B) ?p False JUndef initial_config_state"
  have h1: "isl (ce_readFile (be_config ?A) ?p)"
    by code_simp
  have h3: "default_config initial_config_state = DEFAULT_CONFIG"
    by (simp add: initial_config_state_def)
  have h4: "fst (snd ?L) = Inl (Throws (Exn ''Invalid configuration''))"
    by code_simp
  then have l: "?L = (fst ?L, Inl (Throws (Exn ''Invalid configuration'')), snd (snd ?L))"
    by (metis prod.collapse)
  from buildSite_configuration [of ?A ?p JUndef initial_config_state]
  have a: "\<exists>lg st'. loadConfig (be_config ?A) ?p False JUndef initial_config_state
                 = (lg, Inr (fallback_config (be_config ?A) ?p JUndef), st')
         \<and> buildSite ?A ?p JUndef initial_config_state = build_pages ?A lg st'"
    using h1 h3 by blast
  from buildSite_configuration [of ?B ?p JUndef initial_config_state] l
  have b: "br_error_page (buildSite ?B ?p JUndef initial_config_state) \<noteq> None
         \<and> br_raised (buildSite ?B ?p JUndef initial_config_state) \<noteq> []"
    by blast
  show ?thesis
    using h1 h3 a h4 b by (intro conjI) blast+
qed

text \<open>
  The claim as stated fails: without a configuration file the build returns normally, with
  all page types dispatched and no error page.
\<close>

theorem buildSite_without_config_file:
  "isl (ce_readFile no_config_file ''/site/blog/config.json'')
   \<and> br_raised (buildSite (sample_build no_config_file []) ''/site/blog/config.json'' JUndef
                   initial_config_state) = []
   \<and> br_error_page (buildSite (sample_build no_config_file []) ''/site/blog/config.json'' JUndef
                   initial_config_state) = None
   \<and> map fst (br_dispatched (buildSite (sample_build no_config_file []) ''/site/blog/config.json''
                   JUndef initial_config_state)) = page_tasks
   \<and> br_log (buildSite (sample_build no_config_file []) ''/site/blog/config.json'' JUndef
                   initial_config_state)
       = [''Error reading file /site/blog/config.json:'',
          ''Could not load config from /site/blog/config.json:'', ''Using default configuration'']"
  by code_simp

section \<open>Properties of the template loader\<close>

text \<open>
  Without a truthy \<^verbatim>\<open>cacheTemplates\<close> in the site configuration, \<^verbatim>\<open>loadTemplate\<close> neither
  reads nor writes the cache, whatever the module-level configuration says.
\<close>

lemma loadTemplate_without_site_setting:
  assumes "\<not> truthy (own_prop config ''cacheTemplates'')"
    and "loadTemplate env config templateName st = Inr (lg, template, st')"
  shows "st' = st"
    and "loadTemplate env config templateName (st\<lparr> templateCache := cache \<rparr>)
           = Inr (lg, template, st\<lparr> templateCache := cache \<rparr>)"
  using assms
  by (auto simp: loadTemplate_def remember_def Let_def split: sum.splits)

text \<open>
  Claim C6, evaluated with the settings the engine starts with: the module-level
  configuration has \<^verbatim>\<open>cacheTemplates: true\<close>, and the site configuration is the configuration
  manager's \<^verbatim>\<open>DEFAULT_CONFIG\<close>, which has no \<^verbatim>\<open>cacheTemplates\<close>. The project's
  \<^verbatim>\<open>base.html\<close> is loaded, then changed in storage and loaded again: the first load leaves
  the cache empty, and the second returns the new text.
\<close>

theorem loadTemplate_not_memoized:
  "get_prop (module_config initial_template_state) ''cacheTemplates'' = JBool True
   \<and> own_prop DEFAULT_CONFIG ''cacheTemplates'' = JUndef
   \<and> (case loadTemplate (sample_storage [(''./blog/templates/base.html'', ''first text'')])
             DEFAULT_CONFIG ''base'' initial_template_state of
        Inr (lg1, template1, st1) \<Rightarrow>
          template1 = ''first text'' \<and> templateCache st1 = []
          \<and> (case loadTemplate (sample_storage [(''./blog/templates/base.html'', ''second text'')])
                    DEFAULT_CONFIG ''base'' st1 of
                Inr (lg2, template2, st2) \<Rightarrow> template2 = ''second text'' \<and> templateCache st2 = []
              | Inl a \<Rightarrow> False)
      | Inl a \<Rightarrow> False)"
  by code_simp

section \<open>Properties of the directive language\<close>

subsection \<open>The room for nested calls\<close>

text \<open>
  An evaluation that returns with some room for nested calls returns the same text with
  more room: the bound on the nesting only decides whether the \<^verbatim>\<open>RangeError\<close> is raised.
\<close>

lemma replaced_more_room:
  assumes "\<And>g r. callback g = Inr r \<Longrightarrow> callback' g = Inr r"
  shows "replaced callback ps = Inr out \<Longrightarrow> replaced callback' ps = Inr out"
proof (induction ps arbitrary: out)
  case Nil
  then show ?case by simp
next
  case (Cons p ps)
  show ?case
  proof (cases p)
    case (Inl c)
    with Cons show ?thesis
      by (auto split: sum.splits)
  next
    case (Inr g)
    with Cons.prems obtain piece rest where t: "callback g = Inr piece"
      and r: "replaced callback ps = Inr rest" and o: "out = piece @ rest"
      by (auto split: sum.splits)
    from assms [OF t] Cons.IH [OF r] Inr o show ?thesis
      by simp
  qed
qed

lemma collect_more_room:
  assumes "\<And>x r. f x = Inr r \<Longrightarrow> f' x = Inr r"
  shows "collect (map f xs) = Inr outs \<Longrightarrow> collect (map f' xs) = Inr outs"
proof (induction xs arbitrary: outs)
  case Nil
  then show ?case by simp
next
  case (Cons x xs)
  from Cons.prems obtain y ys where y: "f x = Inr y"
    and ys: "collect (map f xs) = Inr ys" and o: "outs = y # ys"
    by (cases "f x") (auto split: sum.splits)
  from assms [OF y] Cons.IH [OF ys] o show ?case
    by simp
qed

lemma each_callback_more_room:
  assumes "\<And>t d r. recur t d = Inr r \<Longrightarrow> recur' t d = Inr r"
    and "each_callback recur data g = Inr out"
  shows "each_callback recur' data g = Inr out"
proof -
  obtain itemsPath blockContent unused where g: "g = (itemsPath, blockContent, unused)"
    by (cases g) auto
  show ?thesis
  proof (cases "getNestedValue data (trim itemsPath)")
    case (Inl a)
    with assms(2) g show ?thesis by simp
  next
    case (Inr v)
    show ?thesis
    proof (cases v)
      case (JArr items)
      let ?f = "\<lambda>rec i. case child_context data items i of
                          Inl a \<Rightarrow> Inl a
                        | Inr ctx \<Rightarrow> rec blockContent ctx"
      from assms(2) g Inr JArr obtain outs
        where c: "collect (map (?f recur) [0..<length items]) = Inr outs"
          and o: "out = concat outs"
        by (auto split: sum.splits)
      have "collect (map (?f recur') [0..<length items]) = Inr outs"
        using c by (rule collect_more_room [rotated]) (auto split: sum.splits dest: assms(1))
      with g Inr JArr o show ?thesis
        by simp
    qed (use assms(2) g Inr in simp_all)
  qed
qed

lemma if_callback_more_room:
  assumes "\<And>t d r. recur t d = Inr r \<Longrightarrow> recur' t d = Inr r"
    and "if_callback recur data g = Inr out"
  shows "if_callback recur' data g = Inr out"
proof -
  obtain condition ifContent elseContent where g: "g = (condition, ifContent, elseContent)"
    by (cases g) auto
  from assms(2) show ?thesis
    unfolding g by (auto split: sum.splits if_splits dest: assms(1))
qed

lemma processTemplate_more_room:
  "processTemplate depth template data = Inr out
   \<Longrightarrow> processTemplate (Suc depth) template data = Inr out"
proof (induction depth arbitrary: template data out)
  case 0
  then show ?case by simp
next
  case (Suc depth)
  show ?case
  proof (cases "template = []")
    case True
    with Suc.prems show ?thesis by simp
  next
    case False
    with Suc.prems obtain eachDone ifDone
      where e: "processEachBlocks (processTemplate depth) template data = Inr eachDone"
        and i: "processIfBlocks (processTemplate depth) eachDone data = Inr ifDone"
        and v: "replace_variables ifDone data = Inr out"
      by (auto split: sum.splits)
    have e': "processEachBlocks (processTemplate (Suc depth)) template data = Inr eachDone"
      using e unfolding processEachBlocks_def
      by (rule replaced_more_room [rotated]) (rule each_callback_more_room, rule Suc.IH)
    have i': "processIfBlocks (processTemplate (Suc depth)) eachDone data = Inr ifDone"
      using i unfolding processIfBlocks_def
      by (rule replaced_more_room [rotated]) (rule if_callback_more_room, rule Suc.IH)
    from False e' i' v show ?thesis
      by (subst processTemplate.simps) simp
  qed
qed

text \<open>A result does not depend on the room that is left, once there is enough of it.\<close>

lemma processTemplate_enough_room:
  assumes "processTemplate depth template data = Inr out" and "depth \<le> deeper"
  shows "processTemplate deeper template data = Inr out"
  using assms(2,1)
  by (induction deeper rule: dec_induct) (simp_all add: processTemplate_more_room del: processTemplate.simps)

subsection \<open>Texts without directives\<close>

lemma pieces_no_match:
  "no_match k s \<Longrightarrow> pieces k s = map Inl s"
  by (induction s) simp_all

lemma replaced_literal:
  "replaced callback (map Inl s) = Inr s"
  by (induction s) simp_all

lemma strip_prefix_append:
  "strip_prefix (p @ q) s = (case strip_prefix p s of None \<Rightarrow> None | Some r \<Rightarrow> strip_prefix q r)"
  by (induction p s rule: strip_prefix.induct) simp_all

lemma match_at_opens:
  assumes "match_at k s = Some r"
  shows "strip_prefix ''{{'' s \<noteq> None"
proof (cases k)
  case Each
  have "strip_prefix (''{{'' @ ''#each'') s \<noteq> None"
    using assms Each by (auto simp: each_match_def block_header_def split: option.splits)
  then show ?thesis
    unfolding strip_prefix_append by (auto split: option.splits)
next
  case If
  have "strip_prefix (''{{'' @ ''#if'') s \<noteq> None"
    using assms If by (auto simp: if_match_def block_header_def split: option.splits)
  then show ?thesis
    unfolding strip_prefix_append by (auto split: option.splits)
next
  case Var
  then show ?thesis
    using assms by (auto simp: var_match_def split: option.splits)
qed

lemma no_braces_no_match:
  "\<not> occurs_in ''{{'' s \<Longrightarrow> no_match k s"
proof (induction s)
  case Nil
  then show ?case by simp
next
  case (Cons c cs)
  from Cons.prems have here: "strip_prefix ''{{'' (c # cs) = None"
    and later: "\<not> occurs_in ''{{'' cs"
    by (auto simp: occurs_in_def simp del: strip_prefix.simps split: option.splits)
  from here have "match_at k (c # cs) = None"
    using match_at_opens [of k "c # cs"] by (cases "match_at k (c # cs)") auto
  with Cons.IH [OF later] show ?case by simp
qed

text \<open>A text in which \<^verbatim>\<open>{{\<close> does not occur has no directive.\<close>

lemma no_braces_directive_free:
  "\<not> occurs_in ''{{'' s \<Longrightarrow> directive_free s"
  by (simp add: directive_free_def no_braces_no_match)

text \<open>
  Claim C9, as far as it holds. Evaluating a text a second time returns it unchanged when
  no directive pattern matches in it (in particular when \<^verbatim>\<open>{{\<close> does not occur in it, by
  \<open>no_braces_directive_free\<close>): if \<open>out\<close> is the result of evaluating a template against a
  context and is free of directives, then evaluating \<open>out\<close> against the same context, with
  room for at least one call, returns \<open>out\<close>.
\<close>

theorem processTemplate_idempotent_without_directives:
  assumes "processTemplate depth template data = Inr out"
    and "directive_free out"
  shows "processTemplate (Suc again) out data = Inr out"
proof (cases "out = []")
  case True
  then show ?thesis by simp
next
  case False
  from assms(2) have e: "pieces Each out = map Inl out"
    and i: "pieces If out = map Inl out"
    and v: "pieces Var out = map Inl out"
    by (simp_all add: directive_free_def pieces_no_match)
  from False show ?thesis
    by (simp add: processEachBlocks_def processIfBlocks_def replace_variables_def
          e i v replaced_literal)
qed

theorem processTemplate_idempotent_without_directives_witness:
  "processTemplate 2 ''Hello {{name}}!'' (JObj [(''name'', JStr ''W{o}rld'')])
     = Inr ''Hello W{o}rld!''
   \<and> directive_free ''Hello W{o}rld!''
   \<and> processTemplate 2 ''Hello W{o}rld!'' (JObj [(''name'', JStr ''W{o}rld'')])
     = Inr ''Hello W{o}rld!''"
proof -
  have a: "processTemplate 2 ''Hello {{name}}!'' (JObj [(''name'', JStr ''W{o}rld'')])
     = Inr ''Hello W{o}rld!''"
    by code_simp
  have b: "directive_free ''Hello W{o}rld!''"
    by code_simp
  have "processTemplate (Suc 1) ''Hello W{o}rld!'' (JObj [(''name'', JStr ''W{o}rld'')])
     = Inr ''Hello W{o}rld!''"
    by (rule processTemplate_idempotent_without_directives [OF a b])
  with a b show ?thesis
    by (simp only: Suc_1 simp_thms)
qed

text \<open>
  Claim C9 as stated fails: the text a variable produces is read again. In a context where
  \<^verbatim>\<open>a\<close> is the text \<^verbatim>\<open>{{b}}\<close> and \<^verbatim>\<open>b\<close> is \<^verbatim>\<open>X\<close>, the template \<^verbatim>\<open>{{a}}\<close> evaluates to
  \<^verbatim>\<open>{{b}}\<close>, and evaluating that output evaluates to \<^verbatim>\<open>X\<close>. Within a single evaluation the
  same happens to what a block produces: the variable pass runs over it.
\<close>

theorem processTemplate_reads_output_again:
  "processTemplate 2 ''{{a}}'' nested_value_context = Inr ''{{b}}''
   \<and> processTemplate 2 ''{{b}}'' nested_value_context = Inr ''X''
   \<and> processTemplate 2 ''{{#if b}}{{a}}{{/if}}'' nested_value_context = Inr ''X''"
  by code_simp

subsection \<open>A template that is a single block\<close>

text \<open>
  The opening tag of a block whose argument is not empty and has no \<^verbatim>\<open>}\<close> is recognised;
  the callbacks see the argument up to surrounding white space.
\<close>

lemma strip_prefix_self:
  "strip_prefix p (p @ s) = Some s"
  by (induction p) simp_all

lemma is_space_blank: "is_space (CHR '' '')"
  by (simp add: is_space_def)

lemma trim_dropWhile: "trim (dropWhile is_space s) = trim s"
  by (simp add: trim_def)

lemma trim_spaces:
  assumes "dropWhile is_space s = []"
  shows "trim s = []"
  unfolding trim_def assms by simp

lemma block_header_directive:
  assumes "c \<noteq> []" and "CHR ''}'' \<notin> set c"
  shows "\<exists>g. block_header opener (opener @ CHR '' '' # c @ ''}}'' @ rest) = Some (g, rest)
             \<and> trim g = trim c"
proof -
  let ?stop = "\<lambda>x. x \<noteq> CHR ''}''"
  have all: "\<And>x. x \<in> set (CHR '' '' # c) \<Longrightarrow> ?stop x"
    using assms(2) by auto
  have tw: "takeWhile ?stop ((CHR '' '' # c) @ ''}}'' @ rest) = CHR '' '' # c"
    by (subst takeWhile_append2 [OF all]) simp_all
  have dw: "dropWhile ?stop ((CHR '' '' # c) @ ''}}'' @ rest) = ''}}'' @ rest"
    by (subst dropWhile_append2 [OF all]) simp_all
  define g where "g = (if dropWhile is_space (CHR '' '' # c) = [] then [last (CHR '' '' # c)]
                       else dropWhile is_space (CHR '' '' # c))"
  have bh: "block_header opener (opener @ (CHR '' '' # c) @ ''}}'' @ rest) = Some (g, rest)"
    unfolding block_header_def strip_prefix_self option.case Let_def tw dw g_def
    using assms(1)
    by (simp add: is_space_blank Suc_le_eq strip_prefix_self [of "''}}''" rest, simplified])
  have d: "dropWhile is_space (CHR '' '' # c) = dropWhile is_space c"
    by (simp add: is_space_blank)
  have "trim g = trim c"
  proof (cases "dropWhile is_space c = []")
    case True
    then have "is_space (last c)"
      using assms(1) by (simp add: dropWhile_eq_Nil_conv)
    then have "trim [last c] = []"
      by (simp add: trim_def)
    moreover have "g = [last c]"
      unfolding g_def d using True assms(1) by simp
    ultimately show ?thesis
      using trim_spaces [OF True] by simp
  next
    case False
    then have "g = dropWhile is_space c"
      unfolding g_def d by (simp only: if_False)
    then show ?thesis
      by (simp only: trim_dropWhile)
  qed
  with bh show ?thesis by auto
qed

text \<open>
  A delimiter that does not start inside a text is found right behind it.
\<close>

lemma split_at_first_clear:
  assumes "d \<noteq> []" and "\<not> starts_inside [d] body (d @ rest)"
  shows "split_at_first d (body @ d @ rest) = Some (body, rest)"
  using assms(2)
proof (induction body)
  case Nil
  from assms(1) obtain x xs where dx: "d @ rest = x # xs"
    by (cases d) auto
  have "strip_prefix d (x # xs) = Some rest"
    unfolding dx [symmetric] by (rule strip_prefix_self)
  then have "split_at_first d (x # xs) = Some ([], rest)"
    by (simp del: strip_prefix.simps)
  then show ?case
    by (simp add: dx)
next
  case (Cons b bs)
  then have here: "strip_prefix d (b # bs @ d @ rest) = None"
    and later: "\<not> starts_inside [d] bs (d @ rest)"
    by simp_all
  from Cons.IH [OF later] here show ?case
    by (simp del: strip_prefix.simps)
qed

lemma if_body_clear:
  assumes "\<not> starts_inside [''{{else}}'', ''{{/if}}''] A (''{{else}}'' @ B @ ''{{/if}}'' @ rest)"
    and "\<not> starts_inside [''{{/if}}''] B (''{{/if}}'' @ rest)"
  shows "if_body (A @ ''{{else}}'' @ B @ ''{{/if}}'' @ rest) = Some (A, Some B, rest)"
  using assms(1)
proof (induction A)
  case Nil
  define s where "s = ''{{else}}'' @ B @ ''{{/if}}'' @ rest"
  obtain x xs where sx: "s = x # xs"
    by (cases s) (auto simp: s_def)
  have "strip_prefix ''{{else}}'' s = Some (B @ ''{{/if}}'' @ rest)"
    unfolding s_def by (rule strip_prefix_self)
  then have sp: "strip_prefix ''{{else}}'' (x # xs) = Some (B @ ''{{/if}}'' @ rest)"
    unfolding sx .
  have sf: "split_at_first ''{{/if}}'' (B @ ''{{/if}}'' @ rest) = Some (B, rest)"
    by (rule split_at_first_clear) (simp, rule assms(2))
  have "if_body (x # xs) = Some ([], Some B, rest)"
    by (simp add: sp sf [unfolded append_Cons append_Nil] del: strip_prefix.simps)
  then show ?case
    unfolding sx [symmetric] s_def by simp
next
  case (Cons a as)
  define s where "s = as @ ''{{else}}'' @ B @ ''{{/if}}'' @ rest"
  from Cons.prems have e: "strip_prefix ''{{else}}'' (a # s) = None"
    and f: "strip_prefix ''{{/if}}'' (a # s) = None"
    and later: "\<not> starts_inside [''{{else}}'', ''{{/if}}''] as (''{{else}}'' @ B @ ''{{/if}}'' @ rest)"
    unfolding s_def by (simp_all del: strip_prefix.simps)
  from Cons.IH [OF later] have "if_body s = Some (as, Some B, rest)"
    unfolding s_def .
  then have "if_body (a # s) = Some (a # as, Some B, rest)"
    by (simp add: e f del: strip_prefix.simps)
  then show ?case
    unfolding s_def by simp
qed

lemma replaced_single:
  "replaced callback [Inr g] = callback g"
  by (cases "callback g") simp_all

subsection \<open>Iteration\<close>

text \<open>
  A template that consists of one iteration block, whose body does not contain the
  closing tag, is replaced by what the callback returns for the path and the body.
\<close>

lemma each_callback_trim:
  "trim g = trim p \<Longrightarrow> each_callback recur data (g, body, u) = each_callback recur data (p, body, u)"
  by simp

lemma processEachBlocks_single_directive:
  assumes "p \<noteq> []" and "CHR ''}'' \<notin> set p"
    and "\<not> starts_inside [''{{/each}}''] body ''{{/each}}''"
  shows "processEachBlocks recur (''{{#each '' @ p @ ''}}'' @ body @ ''{{/each}}'') data
           = each_callback recur data (p, body, None)"
proof -
  define tail where "tail = body @ ''{{/each}}'' @ []"
  define T where "T = ''{{#each'' @ CHR '' '' # p @ ''}}'' @ tail"
  from block_header_directive [OF assms(1,2)]
  obtain g where bh: "block_header ''{{#each'' T = Some (g, tail)" and tg: "trim g = trim p"
    unfolding T_def by blast
  have sf: "split_at_first ''{{/each}}'' tail = Some (body, [])"
    unfolding tail_def using assms(3) by (intro split_at_first_clear) simp_all
  have m: "each_match T = Some ((g, body, None), [])"
    by (simp add: each_match_def bh sf)
  obtain x xs where Tx: "T = x # xs"
    by (cases T) (auto simp: T_def)
  have "pieces Each T = [Inr (g, body, None)]"
    using m unfolding Tx by simp
  then have "processEachBlocks recur T data = each_callback recur data (g, body, None)"
    by (simp only: processEachBlocks_def replaced_single)
  also have "\<dots> = each_callback recur data (p, body, None)"
    by (rule each_callback_trim [OF tg])
  finally show ?thesis
    by (simp add: T_def tail_def)
qed

text \<open>
  What the callback returns: nothing when the path does not resolve to a non-empty
  sequence; otherwise the results of evaluating the body against the child context of
  every element, concatenated in the order of the sequence.
\<close>

lemma each_callback_elements:
  assumes "getNestedValue data (trim p) = Inr (JArr items)"
    and "\<forall>i < length items. child_context data items i = Inr (ctx i)
                              \<and> recur body (ctx i) = Inr (out i)"
  shows "each_callback recur data (p, body, u) = Inr (concat (map out [0..<length items]))"
proof -
  have "collect (map (\<lambda>i. case child_context data items i of
                             Inl a \<Rightarrow> Inl a
                           | Inr ctx \<Rightarrow> recur body ctx) [0..<length items])
          = Inr (map out [0..<length items])"
    by (rule collect_map_Inr) (simp add: assms(2))
  then show ?thesis
    by (simp add: assms(1))
qed

lemma each_callback_no_sequence:
  assumes "getNestedValue data (trim p) = Inr v"
    and "v = JArr [] \<or> (\<forall>items. v \<noteq> JArr items)"
  shows "each_callback recur data (p, body, u) = Inr []"
  using assms by (cases v) auto

text \<open>
  The child context of an element that no earlier element is strictly equal to binds
  \<^verbatim>\<open>_index\<close> to the position of the element.
\<close>

lemma first_equal_none:
  "\<forall>y \<in> set ys. strict_equals y item = Some False \<Longrightarrow> first_equal ys item j i = Inr i"
  by (induction ys arbitrary: j) simp_all

lemma indexOf_item_position:
  assumes "\<forall>j < i. strict_equals (items ! j) (items ! i) = Some False"
    and "i < length items"
  shows "indexOf_item items i = Inr i"
proof -
  have "\<forall>y \<in> set (take i items). strict_equals y (items ! i) = Some False"
    using assms by (auto simp: in_set_conv_nth)
  then show ?thesis
    unfolding indexOf_item_def by (rule first_equal_none)
qed

lemma child_context_position:
  assumes "\<forall>j < i. strict_equals (items ! j) (items ! i) = Some False"
    and "i < length items"
  shows "child_context data items i
           = Inr (JObj (set_prop ''_index'' (JNum (int i))
                         (set_prop ''_parent'' data (spread_over [] (own_entries (items ! i))))))"
  by (simp add: child_context_def indexOf_item_position [OF assms])

text \<open>
  Claim C5, evaluated. The examples of the specification evaluate as it says. The position
  bound to \<^verbatim>\<open>_index\<close> is the result of \<^verbatim>\<open>items.indexOf(item)\<close>, the first position of an
  equal element: for the sequence \<^verbatim>\<open>["a", "a"]\<close> the body \<^verbatim>\<open>{{_index}}\<close> renders \<^verbatim>\<open>00\<close>,
  where the positions of the two elements are 0 and 1; for \<^verbatim>\<open>["a", "b"]\<close> it renders
  \<^verbatim>\<open>01\<close>.
\<close>

theorem processEachBlocks_index_of_equal_items:
  "processTemplate 2 ''{{#each xs}}{{_index}}{{/each}}''
       (JObj [(''xs'', JArr [JStr ''a'', JStr ''a''])]) = Inr ''00''
   \<and> child_context (JObj [(''xs'', JArr [JStr ''a'', JStr ''a''])]) [JStr ''a'', JStr ''a''] 1
       = Inr (JObj [(''0'', JStr ''a''),
                    (''_parent'', JObj [(''xs'', JArr [JStr ''a'', JStr ''a''])]),
                    (''_index'', JNum 0)])
   \<and> processTemplate 2 ''{{#each xs}}{{_index}}{{/each}}''
       (JObj [(''xs'', JArr [JStr ''a'', JStr ''b''])]) = Inr ''01''
   \<and> processTemplate 2 ''{{#each xs}}{{v}}{{/each}}''
       (JObj [(''xs'', JArr [JObj [(''v'', JStr ''a'')], JObj [(''v'', JStr ''b'')]])]) = Inr ''ab''
   \<and> processTemplate 2 ''{{#each xs}}{{v}}{{/each}}'' (JObj [(''xs'', JArr [])]) = Inr []"
  by code_simp

subsection \<open>Conditionals\<close>

text \<open>
  A template that consists of one conditional block with both branches, the first branch
  containing neither \<^verbatim>\<open>{{else}}\<close> nor \<^verbatim>\<open>{{/if}}\<close> and the second no \<^verbatim>\<open>{{/if}}\<close>, is
  replaced by the evaluation of the first branch when the condition holds and of the
  second one when it does not, against the same context.
\<close>

lemma eval_condition_trim:
  assumes "trim g = trim c"
  shows "eval_condition data g = eval_condition data c"
  unfolding eval_condition_def assms by (rule refl)

lemma processIfBlocks_single_directive:
  assumes "c \<noteq> []" and "CHR ''}'' \<notin> set c"
    and "\<not> starts_inside [''{{else}}'', ''{{/if}}''] A (''{{else}}'' @ B @ ''{{/if}}'')"
    and "\<not> starts_inside [''{{/if}}''] B ''{{/if}}''"
  shows "processIfBlocks recur (''{{#if '' @ c @ ''}}'' @ A @ ''{{else}}'' @ B @ ''{{/if}}'') data
           = (case eval_condition data c of
                Inl a \<Rightarrow> Inl a
              | Inr result \<Rightarrow> recur (if result then A else B) data)"
proof -
  define body where "body = A @ ''{{else}}'' @ B @ ''{{/if}}'' @ []"
  define T where "T = ''{{#if'' @ CHR '' '' # c @ ''}}'' @ body"
  from block_header_directive [OF assms(1,2)]
  obtain g where bh: "block_header ''{{#if'' T = Some (g, body)" and tg: "trim g = trim c"
    unfolding T_def by blast
  have ib: "if_body body = Some (A, Some B, [])"
    unfolding body_def using assms(3,4) by (intro if_body_clear) simp_all
  have m: "if_match T = Some ((g, A, Some B), [])"
    by (simp add: if_match_def bh ib)
  obtain x xs where Tx: "T = x # xs"
    by (cases T) (auto simp: T_def)
  have "pieces If T = [Inr (g, A, Some B)]"
    using m unfolding Tx by simp
  then have "processIfBlocks recur T data = if_callback recur data (g, A, Some B)"
    by (simp only: processIfBlocks_def replaced_single)
  also have "\<dots> = (case eval_condition data c of
                Inl a \<Rightarrow> Inl a
              | Inr result \<Rightarrow> recur (if result then A else B) data)"
    by (simp add: eval_condition_trim [OF tg] split: sum.splits)
  finally show ?thesis
    by (simp add: T_def body_def)
qed

text \<open>
  The condition. Without a space character it is the truthiness of the resolved path.
  Three words separated by single spaces are a comparison of two operands; two words are
  false. An operand is the resolved value when that is truthy, and its own text
  otherwise.
\<close>

lemma eval_condition_path:
  "CHR '' '' \<notin> set (trim c) \<Longrightarrow> eval_condition data c = path_truthy data (trim c)"
  by (simp add: eval_condition_def)

lemma trim_word_ends:
  assumes "s \<noteq> []" and "\<not> is_space (hd s)" and "\<not> is_space (last s)"
  shows "trim s = s"
proof -
  from assms(1,2) have a: "dropWhile is_space s = s"
    by (cases s) simp_all
  from assms(1,3) have "dropWhile is_space (rev s) = rev s"
    by (cases "rev s") (simp_all add: hd_rev [symmetric])
  with a show ?thesis
    by (simp add: trim_def)
qed

lemma split_spaces_one:
  "\<not> is_space x \<Longrightarrow> \<not> list_ex is_space w \<Longrightarrow> split_spaces (x # w) = [x # w]"
  by (induction w arbitrary: x) simp_all

lemma split_spaces_first:
  assumes "rest \<noteq> []" and "\<not> is_space (hd rest)"
  shows "\<not> is_space x \<Longrightarrow> \<not> list_ex is_space w
         \<Longrightarrow> split_spaces (x # w @ CHR '' '' # rest) = (x # w) # split_spaces rest"
  using assms by (induction w arbitrary: x) (simp_all add: is_space_blank)

lemma word_cases:
  assumes "word w"
  obtains x xs where "w = x # xs" and "\<not> is_space x" and "\<not> list_ex is_space xs"
  using assms by (cases w) (auto simp: word_def)

lemma word_ends:
  assumes "word w"
  shows "\<not> is_space (hd w)" and "\<not> is_space (last w)"
  using assms by (auto simp: word_def list_ex_iff)

lemma split_spaces_word:
  assumes "word w"
  shows "split_spaces w = [w]"
proof -
  from assms obtain x xs where w: "w = x # xs" "\<not> is_space x" "\<not> list_ex is_space xs"
    by (rule word_cases)
  show ?thesis
    unfolding w(1) using w(2,3) by (rule split_spaces_one)
qed

lemma split_spaces_words:
  assumes "word w" and "word v"
  shows "split_spaces (w @ CHR '' '' # v @ rest) = w # split_spaces (v @ rest)"
proof -
  from assms(1) obtain x xs where w: "w = x # xs" "\<not> is_space x" "\<not> list_ex is_space xs"
    by (rule word_cases)
  from assms(2) obtain y ys where v: "v = y # ys" "\<not> is_space y"
    by (rule word_cases)
  have "split_spaces (x # xs @ CHR '' '' # (v @ rest)) = (x # xs) # split_spaces (v @ rest)"
    by (rule split_spaces_first) (simp_all add: v w)
  then show ?thesis
    by (simp add: w)
qed

lemma trim_words:
  assumes "word l" and "word r"
  shows "trim (l @ middle @ r) = l @ middle @ r"
proof (rule trim_word_ends)
  from assms show "l @ middle @ r \<noteq> []"
    by (simp add: word_def)
  from assms(1) show "\<not> is_space (hd (l @ middle @ r))"
    using word_ends(1) [of l] by (simp add: word_def)
  from assms(2) show "\<not> is_space (last (l @ middle @ r))"
    using word_ends(2) [of r] by (simp add: word_def)
qed

lemma eval_condition_comparison:
  assumes "word l" and "word op" and "word r"
  shows "eval_condition data (l @ '' '' @ op @ '' '' @ r)
           = (case operand data l of
                Inl a \<Rightarrow> Inl a
              | Inr leftValue \<Rightarrow>
                  (case operand data r of
                     Inl a \<Rightarrow> Inl a
                   | Inr rightValue \<Rightarrow>
                       compare op (l @ '' '' @ op @ '' '' @ r) data leftValue rightValue))"
proof -
  define c where "c = l @ '' '' @ op @ '' '' @ r"
  have t: "trim c = c"
    unfolding c_def using trim_words [OF assms(1,3), of "'' '' @ op @ '' ''"] by simp
  have sp: "CHR '' '' \<in> set c"
    by (simp add: c_def)
  have "split_spaces c = l # split_spaces (op @ CHR '' '' # r @ [])"
    unfolding c_def using split_spaces_words [OF assms(1,2), of "CHR '' '' # r"] by simp
  also have "split_spaces (op @ CHR '' '' # r @ []) = op # split_spaces (r @ [])"
    by (rule split_spaces_words [OF assms(2,3)])
  finally have "split_spaces c = [l, op, r]"
    by (simp add: split_spaces_word [OF assms(3)])
  then show ?thesis
    unfolding c_def [symmetric] eval_condition_def t by (simp add: sp)
qed

lemma eval_condition_two_words:
  assumes "word l" and "word r"
  shows "eval_condition data (l @ '' '' @ r) = Inr False"
proof -
  define c where "c = l @ '' '' @ r"
  have t: "trim c = c"
    unfolding c_def using trim_words [OF assms, of "'' ''"] by simp
  have sp: "CHR '' '' \<in> set c"
    by (simp add: c_def)
  have "split_spaces c = l # split_spaces (r @ [])"
    unfolding c_def using split_spaces_words [OF assms, of "[]"] by simp
  then have "split_spaces c = [l, r]"
    by (simp add: split_spaces_word [OF assms(2)])
  then show ?thesis
    unfolding c_def [symmetric] eval_condition_def t by (simp add: sp)
qed

lemma operand_fallback:
  "getNestedValue data x = Inr v \<Longrightarrow> operand data x = Inr (if truthy v then v else JStr x)"
  by (simp add: operand_def js_or_def)

text \<open>
  Claim C4, evaluated. The examples of the specification evaluate as it says: \<^verbatim>\<open>flag\<close>
  true selects the first branch, \<^verbatim>\<open>flag\<close> false or missing the second. An operand is
  replaced by its literal text whenever the resolved value is falsy
  (\<^verbatim>\<open>getNestedValue(data, left) || left\<close>), not only when the resolution yields nothing: in
  a context where \<^verbatim>\<open>n\<close> and \<^verbatim>\<open>z\<close> are both 0, the condition \<^verbatim>\<open>n == z\<close> compares the texts
  \<^verbatim>\<open>n\<close> and \<^verbatim>\<open>z\<close> and is false, where the comparison of the resolved values, 0 and 0, is
  true; the directive renders its second branch.
\<close>

theorem processIfBlocks_falsy_operand:
  "processTemplate 2 ''{{#if flag}}Y{{else}}N{{/if}}'' (JObj [(''flag'', JBool True)]) = Inr ''Y''
   \<and> processTemplate 2 ''{{#if flag}}Y{{else}}N{{/if}}'' (JObj [(''flag'', JBool False)]) = Inr ''N''
   \<and> processTemplate 2 ''{{#if flag}}Y{{else}}N{{/if}}'' (JObj []) = Inr ''N''
   \<and> getNestedValue zero_context ''n'' = Inr (JNum 0)
   \<and> getNestedValue zero_context ''z'' = Inr (JNum 0)
   \<and> operand zero_context ''n'' = Inr (JStr ''n'')
   \<and> operand zero_context ''z'' = Inr (JStr ''z'')
   \<and> eval_condition zero_context ''n == z'' = Inr False
   \<and> stated_condition zero_context ''n == z'' = Inr True
   \<and> processTemplate 2 ''{{#if n == z}}Y{{else}}N{{/if}}'' zero_context = Inr ''N''"
  by code_simp

end
